theory Spec2Isabelle
  imports Main "HOL-Library.Word" "HOL-Library.AList"
begin

unbundle bit_operations_syntax

section \<open>Go strings, runes and the library functions the propagators call\<close>

text \<open>
  A Go string is a sequence of bytes; it is modelled as a \<^typ>\<open>string\<close>, one \<^typ>\<open>char\<close> per
  byte, so that \<^term>\<open>length s\<close> is Go's \<^verbatim>\<open>len(s)\<close>. A \<^verbatim>\<open>for _, c := range s\<close> loop and
  \<^verbatim>\<open>strings.Map\<close> see the string as runes: the UTF-8 decoding below follows
  \<^verbatim>\<open>utf8.DecodeRuneInString\<close>, where a byte that starts no valid sequence decodes to
  \<^verbatim>\<open>utf8.RuneError\<close> with width 1.
\<close>

type_synonym rune = int

definition RuneError :: rune where
  "RuneError = 0xFFFD"

definition byte :: "char \<Rightarrow> nat" where
  "byte c = of_char c"

definition isCont :: "char \<Rightarrow> bool" where
  "isCont c = (0x80 \<le> byte c \<and> byte c \<le> 0xBF)"

fun DecodeRune :: "string \<Rightarrow> rune \<times> nat" where
  "DecodeRune [] = (RuneError, 0)"
| "DecodeRune (c # cs) =
    (let b0 = byte c in
     if b0 < 0x80 then (int b0, 1)
     else if b0 < 0xC2 then (RuneError, 1)
     else if b0 < 0xE0 then
       (case cs of
          c1 # _ \<Rightarrow>
            if isCont c1 then (int ((b0 - 0xC0) * 64 + (byte c1 - 0x80)), 2)
            else (RuneError, 1)
        | _ \<Rightarrow> (RuneError, 1))
     else if b0 < 0xF0 then
       (case cs of
          c1 # c2 # _ \<Rightarrow>
            (let b1 = byte c1 in
             if (if b0 = 0xE0 then 0xA0 else 0x80) \<le> b1
                \<and> b1 \<le> (if b0 = 0xED then 0x9F else 0xBF) \<and> isCont c2
             then (int ((b0 - 0xE0) * 4096 + (b1 - 0x80) * 64 + (byte c2 - 0x80)), 3)
             else (RuneError, 1))
        | _ \<Rightarrow> (RuneError, 1))
     else if b0 < 0xF5 then
       (case cs of
          c1 # c2 # c3 # _ \<Rightarrow>
            (let b1 = byte c1 in
             if (if b0 = 0xF0 then 0x90 else 0x80) \<le> b1
                \<and> b1 \<le> (if b0 = 0xF4 then 0x8F else 0xBF) \<and> isCont c2 \<and> isCont c3
             then (int ((b0 - 0xF0) * 262144 + (b1 - 0x80) * 4096
                        + (byte c2 - 0x80) * 64 + (byte c3 - 0x80)), 4)
             else (RuneError, 1))
        | _ \<Rightarrow> (RuneError, 1))
     else (RuneError, 1))"

text \<open>The runes a \<^verbatim>\<open>range\<close> loop over the string visits, in order.\<close>

fun runes :: "string \<Rightarrow> rune list" where
  "runes [] = []"
| "runes (c # cs) = (case DecodeRune (c # cs) of (r, n) \<Rightarrow> r # runes (drop (n - 1) cs))"

text \<open>
  \<^verbatim>\<open>strings.Builder.WriteRune\<close>: the UTF-8 encoding of a rune; a surrogate or a value past
  U+10FFFF is written as U+FFFD.
\<close>

definition chr :: "nat \<Rightarrow> char" where
  "chr n = char_of n"

definition EncodeRune :: "rune \<Rightarrow> string" where
  "EncodeRune r =
    (let n = nat r in
     if r < 0 \<or> 0x10FFFF < r \<or> (0xD800 \<le> r \<and> r \<le> 0xDFFF) then [chr 0xEF, chr 0xBF, chr 0xBD]
     else if n < 0x80 then [chr n]
     else if n < 0x800 then [chr (0xC0 + n div 64), chr (0x80 + n mod 64)]
     else if n < 0x10000 then
       [chr (0xE0 + n div 4096), chr (0x80 + (n div 64) mod 64), chr (0x80 + n mod 64)]
     else [chr (0xF0 + n div 262144), chr (0x80 + (n div 4096) mod 64),
           chr (0x80 + (n div 64) mod 64), chr (0x80 + n mod 64)])"


subsection \<open>The \<^verbatim>\<open>strings\<close> package\<close>

text \<open>
  Every separator, prefix and cutset the propagators pass is ASCII, and for those Go works
  on bytes. A one-character separator is passed as a \<^typ>\<open>char\<close>.
\<close>

definition HasPrefix :: "string \<Rightarrow> string \<Rightarrow> bool" where
  "HasPrefix s p = (take (length p) s = p)"

definition TrimPrefix :: "string \<Rightarrow> string \<Rightarrow> string" where
  "TrimPrefix s p = (if HasPrefix s p then drop (length p) s else s)"

text \<open>\<^verbatim>\<open>strings.Cut(s, sep)\<close> returns \<^verbatim>\<open>(before, after, found)\<close>.\<close>

definition Cut :: "string \<Rightarrow> char \<Rightarrow> string \<times> string \<times> bool" where
  "Cut s sep =
    (if sep \<in> set s then (takeWhile (\<lambda>c. c \<noteq> sep) s, tl (dropWhile (\<lambda>c. c \<noteq> sep) s), True)
     else (s, [], False))"

text \<open>\<^verbatim>\<open>strings.Split(s, sep)\<close>: the empty string splits into one empty piece.\<close>

fun Split :: "string \<Rightarrow> char \<Rightarrow> string list" where
  "Split [] sep = [[]]"
| "Split (c # cs) sep =
    (if c = sep then [] # Split cs sep
     else (case Split cs sep of
             p # ps \<Rightarrow> (c # p) # ps
           | [] \<Rightarrow> [[c]]))"

text \<open>\<^verbatim>\<open>strings.SplitN(s, sep, n)\<close>: at most \<open>n\<close> pieces, the last one the unsplit rest.\<close>

fun SplitN :: "string \<Rightarrow> char \<Rightarrow> nat \<Rightarrow> string list" where
  "SplitN s sep 0 = []"
| "SplitN s sep (Suc 0) = [s]"
| "SplitN s sep (Suc (Suc n)) =
    (case Cut s sep of
       (before, after, True) \<Rightarrow> before # SplitN after sep (Suc n)
     | (_, _, False) \<Rightarrow> [s])"

definition TrimLeft :: "string \<Rightarrow> string \<Rightarrow> string" where
  "TrimLeft s cutset = dropWhile (\<lambda>c. c \<in> set cutset) s"

definition TrimRight :: "string \<Rightarrow> string \<Rightarrow> string" where
  "TrimRight s cutset = rev (dropWhile (\<lambda>c. c \<in> set cutset) (rev s))"

definition Trim :: "string \<Rightarrow> string \<Rightarrow> string" where
  "Trim s cutset = TrimRight (TrimLeft s cutset) cutset"

definition ReplaceAll :: "string \<Rightarrow> char \<Rightarrow> char \<Rightarrow> string" where
  "ReplaceAll s old new = map (\<lambda>c. if c = old then new else c) s"

text \<open>
  \<^verbatim>\<open>strings.ToLower\<close> on an ASCII string maps \<open>A..Z\<close> to \<open>a..z\<close> byte by byte, which is what
  this definition does. On a string with a byte above \<open>0x7F\<close> Go lowers by the Unicode
  tables instead; the theorems below that depend on the lowered text of a header value
  are stated for ASCII values.
\<close>

definition toLowerByte :: "char \<Rightarrow> char" where
  "toLowerByte c = (if 0x41 \<le> byte c \<and> byte c \<le> 0x5A then chr (byte c + 0x20) else c)"

definition ToLower :: "string \<Rightarrow> string" where
  "ToLower s = map toLowerByte s"

definition isASCII :: "string \<Rightarrow> bool" where
  "isASCII s = list_all (\<lambda>c. byte c < 0x80) s"

text \<open>
  \<^verbatim>\<open>strings.TrimSpace\<close> removes the leading and trailing runes for which \<^verbatim>\<open>unicode.IsSpace\<close>
  holds: U+0009 to U+000D, U+0020, U+0085, U+00A0, U+1680, U+2000 to U+200A, U+2028,
  U+2029, U+202F, U+205F and U+3000. A white-space rune at either end of the string is
  there as its UTF-8 encoding, so the trimming strips these encodings, listed here.
\<close>

definition spaceEncodings :: "string list" where
  "spaceEncodings =
    [[CHR 0x09], [CHR 0x0A], [CHR 0x0B], [CHR 0x0C], [CHR 0x0D], [CHR 0x20],
     [CHR 0xC2, CHR 0x85], [CHR 0xC2, CHR 0xA0], [CHR 0xE1, CHR 0x9A, CHR 0x80],
     [CHR 0xE2, CHR 0x80, CHR 0x80], [CHR 0xE2, CHR 0x80, CHR 0x81],
     [CHR 0xE2, CHR 0x80, CHR 0x82], [CHR 0xE2, CHR 0x80, CHR 0x83],
     [CHR 0xE2, CHR 0x80, CHR 0x84], [CHR 0xE2, CHR 0x80, CHR 0x85],
     [CHR 0xE2, CHR 0x80, CHR 0x86], [CHR 0xE2, CHR 0x80, CHR 0x87],
     [CHR 0xE2, CHR 0x80, CHR 0x88], [CHR 0xE2, CHR 0x80, CHR 0x89],
     [CHR 0xE2, CHR 0x80, CHR 0x8A], [CHR 0xE2, CHR 0x80, CHR 0xA8],
     [CHR 0xE2, CHR 0x80, CHR 0xA9], [CHR 0xE2, CHR 0x80, CHR 0xAF],
     [CHR 0xE2, CHR 0x81, CHR 0x9F], [CHR 0xE3, CHR 0x80, CHR 0x80]]"

fun stripOne :: "string list \<Rightarrow> string \<Rightarrow> string option" where
  "stripOne [] s = None"
| "stripOne (p # ps) s =
    (if p \<noteq> [] \<and> HasPrefix s p then Some (drop (length p) s) else stripOne ps s)"

lemma HasPrefix_length: "HasPrefix s p \<Longrightarrow> length p \<le> length s"
  unfolding HasPrefix_def by (metis length_take min.cobounded1)

lemma stripOne_shorter: "stripOne ps s = Some t \<Longrightarrow> length t < length s"
proof (induction ps)
  case Nil
  then show ?case by simp
next
  case (Cons p ps)
  show ?case
  proof (cases "p \<noteq> [] \<and> HasPrefix s p")
    case True
    then have "0 < length p" "length p \<le> length s" by (auto dest: HasPrefix_length)
    then have "length s - length p < length s" by linarith
    moreover from True Cons.prems have "t = drop (length p) s" by simp
    ultimately show ?thesis by (simp only: length_drop)
  next
    case False
    with Cons show ?thesis by auto
  qed
qed

function stripAll :: "string list \<Rightarrow> string \<Rightarrow> string" where
  "stripAll ps s = (case stripOne ps s of None \<Rightarrow> s | Some t \<Rightarrow> stripAll ps t)"
  by pat_completeness auto
termination
  by (relation "measure (\<lambda>(ps, s). length s)") (auto dest: stripOne_shorter)

definition TrimSpace :: "string \<Rightarrow> string" where
  "TrimSpace s =
    rev (stripAll (map rev spaceEncodings) (rev (stripAll spaceEncodings s)))"

subsection \<open>The \<^verbatim>\<open>strconv\<close> package\<close>

text \<open>
  \<^verbatim>\<open>strconv.ParseUint(s, base, bitSize)\<close> with an explicit base: digits \<open>0-9\<close>, \<open>a-z\<close> and
  \<open>A-Z\<close> below the base, no sign, no prefix, no underscore; the empty string and a value
  of \<open>2 ^ bitSize\<close> or more are errors (\<open>None\<close>).
\<close>

definition digitVal :: "char \<Rightarrow> nat option" where
  "digitVal c =
    (let b = byte c in
     if 0x30 \<le> b \<and> b \<le> 0x39 then Some (b - 0x30)
     else if 0x61 \<le> b \<and> b \<le> 0x7A then Some (b - 0x61 + 10)
     else if 0x41 \<le> b \<and> b \<le> 0x5A then Some (b - 0x41 + 10)
     else None)"

fun parseDigits :: "nat \<Rightarrow> nat \<Rightarrow> string \<Rightarrow> nat option" where
  "parseDigits base acc [] = Some acc"
| "parseDigits base acc (c # cs) =
    (case digitVal c of
       None \<Rightarrow> None
     | Some d \<Rightarrow> if base \<le> d then None else parseDigits base (acc * base + d) cs)"

definition ParseUint :: "string \<Rightarrow> nat \<Rightarrow> nat \<Rightarrow> nat option" where
  "ParseUint s base bitSize =
    (if s = [] then None
     else (case parseDigits base 0 s of
             None \<Rightarrow> None
           | Some n \<Rightarrow> if n < 2 ^ bitSize then Some n else None))"

text \<open>
  \<^verbatim>\<open>strconv.ParseInt(s, base, bitSize)\<close>: an optional sign, then \<^verbatim>\<open>ParseUint\<close> on the rest and
  the range check of a signed \<open>bitSize\<close>-bit integer.
\<close>

definition ParseInt :: "string \<Rightarrow> nat \<Rightarrow> nat \<Rightarrow> int option" where
  "ParseInt s base bitSize =
    (case s of
       [] \<Rightarrow> None
     | c # cs \<Rightarrow>
         (let neg = (c = CHR ''-'');
              digits = (if c = CHR ''+'' \<or> c = CHR ''-'' then cs else s)
          in case ParseUint digits base bitSize of
               None \<Rightarrow> None
             | Some un \<Rightarrow>
                 if \<not> neg \<and> 2 ^ (bitSize - 1) \<le> un then None
                 else if neg \<and> 2 ^ (bitSize - 1) < un then None
                 else Some (if neg then - int un else int un)))"

text \<open>\<^verbatim>\<open>strconv.Atoi\<close> on a 64-bit platform reads what \<^verbatim>\<open>ParseInt(s, 10, 64)\<close> reads.\<close>

definition Atoi :: "string \<Rightarrow> int option" where
  "Atoi s = ParseInt s 10 64"

definition digitChar :: "nat \<Rightarrow> char" where
  "digitChar d = (if d < 10 then chr (0x30 + d) else chr (0x61 + (d - 10)))"

fun formatBits :: "nat \<Rightarrow> nat \<Rightarrow> string" where
  "formatBits base n =
    (if n < base \<or> base < 2 then [digitChar n]
     else formatBits base (n div base) @ [digitChar (n mod base)])"

declare formatBits.simps [simp del]


definition Itoa :: "int \<Rightarrow> string" where
  "Itoa i = (if i < 0 then CHR ''-'' # formatBits 10 (nat (- i)) else formatBits 10 (nat i))"

text \<open>\<^verbatim>\<open>fmt.Sprintf("%016x", x)\<close>: lower-case hexadecimal, padded with zeros to 16 digits.\<close>

definition hex016 :: "64 word \<Rightarrow> string" where
  "hex016 x = (let h = formatBits 16 (unat x) in replicate (16 - length h) CHR ''0'' @ h)"


section \<open>Trace identifiers, traces and span contexts\<close>

datatype error =
    ErrInvalidCarrier
  | ErrInvalidSpanContext
  | ErrSpanContextNotFound
  | ErrSpanContextCorrupted
  | NilPointerPanic

text \<open>
  Modelled from the spec: the \<^verbatim>\<open>traceID\<close> type, which the propagators use through its
  methods only and whose declaration is not among the sources. The spec stores the 128
  bits as two unsigned 64-bit halves, with \<open>empty \<longleftrightarrow> upper = 0 \<and> lower = 0\<close> and
  \<open>has_upper \<longleftrightarrow> upper \<noteq> 0\<close>; the hex form is 32 lower-case digits, the upper half alone
  is 16; \<^verbatim>\<open>set_upper_from_hex\<close> rejects non-hex input and a length other than 16.
\<close>

record traceID =
  upper :: "64 word"
  lower :: "64 word"

definition emptyTraceID :: traceID where
  "emptyTraceID = \<lparr>upper = 0, lower = 0\<rparr>"

definition Empty :: "traceID \<Rightarrow> bool" where
  "Empty t = (upper t = 0 \<and> lower t = 0)"

definition HasUpper :: "traceID \<Rightarrow> bool" where
  "HasUpper t = (upper t \<noteq> 0)"

definition SetLower :: "traceID \<Rightarrow> 64 word \<Rightarrow> traceID" where
  "SetLower t i = t\<lparr>lower := i\<rparr>"

definition SetUpper :: "traceID \<Rightarrow> 64 word \<Rightarrow> traceID" where
  "SetUpper t i = t\<lparr>upper := i\<rparr>"

definition UpperHex :: "traceID \<Rightarrow> string" where
  "UpperHex t = hex016 (upper t)"

definition HexEncoded :: "traceID \<Rightarrow> string" where
  "HexEncoded t = hex016 (upper t) @ hex016 (lower t)"

text \<open>The trace id is returned unchanged together with the error when the input is rejected.\<close>

definition SetUpperFromHex :: "traceID \<Rightarrow> string \<Rightarrow> traceID \<times> bool" where
  "SetUpperFromHex t s =
    (if length s \<noteq> 16 then (t, False)
     else (case ParseUint s 16 64 of
             None \<Rightarrow> (t, False)
           | Some u \<Rightarrow> (SetUpper t (of_nat u), True)))"

text \<open>
  Modelled from the spec: the \<^verbatim>\<open>trace\<close> a context points to (declared outside the
  sources). It holds the sampling priority, absent until it is set (the tests read it
  through a pointer), the propagating tags and the trace-level tags that receive
  \<^verbatim>\<open>_dd.propagation_error\<close>. The two Go maps are association lists with one entry per key;
  the order of a list stands for the order in which Go happens to iterate the map.
\<close>

record trace =
  priority :: "int option"
  propagatingTags :: "(string \<times> string) list"
  tags :: "(string \<times> string) list"
  root :: bool

definition newTrace :: trace where
  "newTrace = \<lparr>priority = None, propagatingTags = [], tags = [], root = False\<rparr>"

record SpanLink =
  TraceID :: "64 word"
  TraceIDHigh :: "64 word"
  SpanID :: "64 word"
  Attributes :: "(string \<times> string) list"
  Tracestate :: string
  Flags :: "32 word"

text \<open>
  Modelled from the spec: the fields of \<^verbatim>\<open>SpanContext\<close> that the propagators read and write
  (section 3 of the spec lists them; the struct is declared outside the sources). The
  pointer \<^verbatim>\<open>ctx.trace\<close> is \<open>None\<close> when it is nil.
\<close>

record SpanContext =
  traceID :: traceID
  spanID :: "64 word"
  origin :: string
  trace :: "trace option"
  baggage :: "(string \<times> string) list"
  hasBaggage :: bool
  baggageOnly :: bool
  reparentID :: string
  isRemote :: bool
  updated :: bool
  spanLinks :: "SpanLink list"

text \<open>The zero value \<^verbatim>\<open>var ctx SpanContext\<close>.\<close>

definition zeroSpanContext :: SpanContext where
  "zeroSpanContext =
    \<lparr>traceID = emptyTraceID, spanID = 0, origin = [], trace = None, baggage = [],
     hasBaggage = False, baggageOnly = False, reparentID = [], isRemote = False,
     updated = False, spanLinks = []\<rparr>"

definition keyDecisionMaker :: string where
  "keyDecisionMaker = ''_dd.p.dm''"

definition keyTraceID128 :: string where
  "keyTraceID128 = ''_dd.p.tid''"

definition keyPropagationError :: string where
  "keyPropagationError = ''_dd.propagation_error''"

definition traceparentHeader :: string where
  "traceparentHeader = ''traceparent''"

definition tracestateHeader :: string where
  "tracestateHeader = ''tracestate''"

text \<open>The sampler names the propagators pass (\<^verbatim>\<open>samplernames.Unknown\<close>, \<^verbatim>\<open>samplernames.Default\<close>).\<close>

definition samplerUnknown :: int where
  "samplerUnknown = - 1"

definition samplerDefault :: int where
  "samplerDefault = 0"

definition PriorityAutoReject :: int where
  "PriorityAutoReject = 0"

definition PriorityAutoKeep :: int where
  "PriorityAutoKeep = 1"

text \<open>
  Modelled from the spec: the accessors of the trace and of the context that the
  propagators call and that are defined outside the sources. A method called on a nil
  trace reads it as a trace without tags. \<^verbatim>\<open>iteratePropagatingTags\<close> visits the tags until
  the callback returns false; the loops that use it are written as recursions over
  \<^term>\<open>tagsOf\<close>.
\<close>

definition tagsOf :: "trace option \<Rightarrow> (string \<times> string) list" where
  "tagsOf t = (case t of None \<Rightarrow> [] | Some tr \<Rightarrow> propagatingTags tr)"

definition propagatingTag :: "trace option \<Rightarrow> string \<Rightarrow> string" where
  "propagatingTag t k = (case map_of (tagsOf t) k of None \<Rightarrow> [] | Some v \<Rightarrow> v)"

definition hasPropagatingTag :: "trace option \<Rightarrow> string \<Rightarrow> bool" where
  "hasPropagatingTag t k = (map_of (tagsOf t) k \<noteq> None)"


definition unsetPropagatingTag :: "trace \<Rightarrow> string \<Rightarrow> trace" where
  "unsetPropagatingTag t k = t\<lparr>propagatingTags := AList.delete k (propagatingTags t)\<rparr>"

definition replacePropagatingTags :: "trace \<Rightarrow> (string \<times> string) list \<Rightarrow> trace" where
  "replacePropagatingTags t kvs = t\<lparr>propagatingTags := kvs\<rparr>"

definition setTag :: "trace \<Rightarrow> string \<Rightarrow> string \<Rightarrow> trace" where
  "setTag t k v = t\<lparr>tags := AList.update k v (tags t)\<rparr>"

definition traceOrNew :: "SpanContext \<Rightarrow> trace" where
  "traceOrNew ctx = (case trace ctx of None \<Rightarrow> newTrace | Some t \<Rightarrow> t)"

text \<open>\<^verbatim>\<open>setPropagatingTag\<close> of the sources: the trace is created when the context has none.\<close>

definition setPropagatingTag :: "SpanContext \<Rightarrow> string \<Rightarrow> string \<Rightarrow> SpanContext" where
  "setPropagatingTag ctx k v =
    (let t = traceOrNew ctx
     in ctx\<lparr>trace := Some (t\<lparr>propagatingTags := AList.update k v (propagatingTags t)\<rparr>)\<rparr>)"

text \<open>
  Modelled from the spec: \<^verbatim>\<open>SamplingPriority\<close> and \<^verbatim>\<open>setSamplingPriority\<close> of the context
  (defined outside the sources). The priority is optional and carries a provenance, the
  sampler that decided it. Setting it creates the trace when there is none and stores the
  priority. A priority above 0 decided by a sampler other than \<^verbatim>\<open>Unknown\<close> records that
  sampler as the decision-maker tag \<^verbatim>\<open>_dd.p.dm\<close> (the W3C extraction tests expect \<^verbatim>\<open>-0\<close> there
  after a reset to the default sampler); a priority of 0 or less removes the tag (the row
  \<open>flag 0, s > 0\<close> of the reconciliation table has the decision maker dropped, and the tests
  expect no tag there). The context is marked as updated when the priority or the tag
  changed. A trace that is already finished, which ignores the call, is outside this
  model.
\<close>

definition SamplingPriority :: "SpanContext \<Rightarrow> int \<times> bool" where
  "SamplingPriority ctx =
    (case trace ctx of
       None \<Rightarrow> (0, False)
     | Some t \<Rightarrow> (case priority t of None \<Rightarrow> (0, False) | Some p \<Rightarrow> (p, True)))"

definition setSamplingPriority :: "SpanContext \<Rightarrow> int \<Rightarrow> int \<Rightarrow> SpanContext" where
  "setSamplingPriority ctx p sampler =
    (let t = traceOrNew ctx;
         updatedPriority = (priority t \<noteq> Some p);
         t1 = t\<lparr>priority := Some p\<rparr>;
         curDM = map_of (propagatingTags t1) keyDecisionMaker;
         dm = CHR ''-'' # Itoa sampler
     in if 0 < p \<and> sampler \<noteq> samplerUnknown \<and> curDM \<noteq> Some dm
        then ctx\<lparr>trace := Some (t1\<lparr>propagatingTags :=
                                     AList.update keyDecisionMaker dm (propagatingTags t1)\<rparr>),
                 updated := True\<rparr>
        else
          (let t2 = (if p \<le> 0 \<and> curDM \<noteq> None
                     then t1\<lparr>propagatingTags := AList.delete keyDecisionMaker (propagatingTags t1)\<rparr>
                     else t1)
           in ctx\<lparr>trace := Some t2, updated := (if updatedPriority then True else updated ctx)\<rparr>))"

definition setBaggageItem :: "SpanContext \<Rightarrow> string \<Rightarrow> string \<Rightarrow> SpanContext" where
  "setBaggageItem ctx k v = ctx\<lparr>baggage := AList.update k v (baggage ctx), hasBaggage := True\<rparr>"

definition spanIDHexEncoded :: "64 word \<Rightarrow> string" where
  "spanIDHexEncoded u = hex016 u"

section \<open>Sanitizers: the string mutator and its three character classes\<close>

text \<open>
  \<^verbatim>\<open>stringMutator.mapping\<close> with the flag \<^verbatim>\<open>sm.n\<close> passed in and returned. The result rune is
  \<open>None\<close> where the Go code returns \<open>-1\<close> (the rune is dropped by \<^verbatim>\<open>strings.Map\<close>).
\<close>

definition mapping :: "(rune \<Rightarrow> rune \<times> bool) \<Rightarrow> bool \<Rightarrow> rune \<Rightarrow> rune option \<times> bool" where
  "mapping fn n r =
    (case fn r of (v, dropConsecutiveMatches) \<Rightarrow>
       if v < 0 then (None, False)
       else if dropConsecutiveMatches then (if \<not> n then (Some v, True) else (None, n))
       else (Some v, False))"

text \<open>
  \<^verbatim>\<open>strings.Map(sm.mapping, s)\<close>: every rune of the string is mapped once, in order, and the
  runes that are kept are written to the result.
\<close>

fun Map_runes :: "(rune \<Rightarrow> rune \<times> bool) \<Rightarrow> bool \<Rightarrow> rune list \<Rightarrow> string" where
  "Map_runes fn n [] = []"
| "Map_runes fn n (r # rs) =
    (case mapping fn n r of
       (None, n') \<Rightarrow> Map_runes fn n' rs
     | (Some v, n') \<Rightarrow> EncodeRune v @ Map_runes fn n' rs)"

text \<open>
  \<^verbatim>\<open>Mutate\<close> starts from a mutator whose flag is clear (\<^verbatim>\<open>composeTracestate\<close> creates it so and
  every \<^verbatim>\<open>Mutate\<close> ends with \<^verbatim>\<open>reset\<close>).
\<close>

definition Mutate :: "(rune \<Rightarrow> rune \<times> bool) \<Rightarrow> string \<Rightarrow> string" where
  "Mutate fn s = Map_runes fn False (runes s)"

definition keyDisallowedFn :: "rune \<Rightarrow> rune \<times> bool" where
  "keyDisallowedFn r =
    (if r = 0x2C \<or> r = 0x3D then (0x5F, False)
     else if r < 0x20 \<or> r > 0x7E then (0x5F, True)
     else (r, False))"

definition valueDisallowedFn :: "rune \<Rightarrow> rune \<times> bool" where
  "valueDisallowedFn r =
    (if r = 0x3D then (0x7E, False)
     else if r = 0x2C \<or> r = 0x7E \<or> r = 0x3B then (0x5F, False)
     else if r < 0x20 \<or> r > 0x7E then (0x5F, True)
     else (r, False))"

definition originDisallowedFn :: "rune \<Rightarrow> rune \<times> bool" where
  "originDisallowedFn r =
    (if r = 0x3D then (0x7E, False)
     else if r = 0x2C \<or> r = 0x7E \<or> r = 0x3B then (0x5F, False)
     else if r < 0x21 \<or> r > 0x7E then (0x5F, True)
     else (r, False))"

section \<open>Composing the tracestate header\<close>

text \<open>
  The callback that \<^verbatim>\<open>composeTracestate\<close> passes to \<^verbatim>\<open>iteratePropagatingTags\<close>, run over the
  tags in iteration order with the builder \<open>b\<close> as state. Returning false ends the
  iteration.
\<close>

fun appendTags :: "string \<Rightarrow> (string \<times> string) list \<Rightarrow> string" where
  "appendTags b [] = b"
| "appendTags b ((k, v) # kvs) =
    (if \<not> HasPrefix k ''_dd.p.'' then appendTags b kvs
     else
       (let key = Mutate keyDisallowedFn (drop (length ''_dd.p.'') k);
            val = Mutate valueDisallowedFn v
        in if 256 < length b + length key + length val + 4 then b
           else appendTags (b @ '';t.'' @ key @ '':'' @ val) kvs))"

text \<open>The loop over the vendors of the old state, with the builder and \<^verbatim>\<open>listLength\<close>.\<close>

fun appendVendors :: "string \<Rightarrow> nat \<Rightarrow> string list \<Rightarrow> string" where
  "appendVendors b listLength [] = b"
| "appendVendors b listLength (s # ss) =
    (if HasPrefix s ''dd='' then appendVendors b listLength ss
     else if 32 < listLength + 1 then b
     else appendVendors (b @ '','' @ Trim s [CHR '' '', CHR 0x09]) (listLength + 1) ss)"

text \<open>The part written before the propagating tags: priority, origin and parent id.\<close>

definition composeHead :: "SpanContext \<Rightarrow> int \<Rightarrow> string" where
  "composeHead ctx prio =
    (let b0 = ''dd=s:'' @ Itoa prio;
         b1 = (if origin ctx \<noteq> [] then b0 @ '';o:'' @ Mutate originDisallowedFn (origin ctx)
               else b0)
     in if \<not> isRemote ctx then b1 @ '';p:'' @ spanIDHexEncoded (spanID ctx)
        else if reparentID ctx \<noteq> [] then b1 @ '';p:'' @ reparentID ctx
        else b1)"

text \<open>
  \<^verbatim>\<open>composeTracestate\<close> calls \<^verbatim>\<open>ctx.trace.iteratePropagatingTags\<close> without a check of the
  trace: on a context without a trace the call dereferences a nil pointer, after the
  first part has been written to the builder. The panic is the value
  \<^verbatim>\<open>Inl NilPointerPanic\<close>.
\<close>

definition composeTracestate :: "SpanContext \<Rightarrow> int \<Rightarrow> string \<Rightarrow> error + string" where
  "composeTracestate ctx prio oldState =
    (case trace ctx of
       None \<Rightarrow> Inl NilPointerPanic
     | Some t \<Rightarrow>
         (let b = appendTags (composeHead ctx prio) (propagatingTags t)
          in if length oldState = 0 then Inr b
             else Inr (appendVendors b 1 (Split (Trim oldState [CHR '' '', CHR 0x09]) CHR '',''))))"

text \<open>
  Two contexts for the examples of the composition: one as the tests compose it, and a
  remote one with an empty trace and an origin of 300 letters.
\<close>

definition boundWitnessCtx :: SpanContext where
  "boundWitnessCtx = zeroSpanContext\<lparr>origin := ''rum'', spanID := 2,
     trace := Some (newTrace\<lparr>propagatingTags :=
       [(''_dd.p.usr.id'', ''baz64==''), (''tracestate'', ''valid_vendor=a:1''),
        (''_dd.p.dm'', ''-4'')]\<rparr>)\<rparr>"

definition longOriginCtx :: SpanContext where
  "longOriginCtx = zeroSpanContext\<lparr>origin := replicate 300 CHR ''a'', isRemote := True,
     trace := Some newTrace\<rparr>"

section \<open>Carriers\<close>

text \<open>
  A carrier reaches a propagator as an \<^verbatim>\<open>interface{}\<close>. It either implements
  \<^verbatim>\<open>TextMapReader\<close>, and is then modelled by the entries its \<^verbatim>\<open>ForeachKey\<close> presents to the
  handler, in the order in which it presents them, or it does not. A \<^verbatim>\<open>TextMapCarrier\<close>
  presents the entries of its map in some order; an \<^verbatim>\<open>HTTPHeadersCarrier\<close> presents one
  entry for each value of each header.
\<close>

datatype carrier =
    TextMapReader "(string \<times> string) list"
  | OtherCarrier

text \<open>
  \<^verbatim>\<open>ForeachKey\<close> with the variables the handler closes over passed as state \<open>st\<close>: the walk
  stops at the first error the handler returns.
\<close>

fun ForeachKey ::
  "(string \<times> string) list \<Rightarrow> ('s \<Rightarrow> string \<Rightarrow> string \<Rightarrow> error + 's) \<Rightarrow> 's \<Rightarrow> error + 's" where
  "ForeachKey [] handler st = Inr st"
| "ForeachKey ((k, v) # kvs) handler st =
    (case handler st k v of
       Inl e \<Rightarrow> Inl e
     | Inr st' \<Rightarrow> ForeachKey kvs handler st')"

definition DefaultBaggageHeaderPrefix :: string where
  "DefaultBaggageHeaderPrefix = ''ot-baggage-''"

section \<open>W3C trace context: extraction\<close>

definition asciiLowerA :: int where "asciiLowerA = 97"
definition asciiLowerF :: int where "asciiLowerF = 102"
definition asciiZero :: int where "asciiZero = 48"
definition asciiNine :: int where "asciiNine = 57"

definition isValidID :: "string \<Rightarrow> bool" where
  "isValidID s =
    (if length s = 0 then False
     else list_all (\<lambda>c. \<not> (c < asciiZero \<or> c > asciiLowerF \<or> (c > asciiNine \<and> c < asciiLowerA)))
            (runes s))"

text \<open>
  \<^verbatim>\<open>extractTraceID128\<close> writes the trace id before it looks at the parse error, and one of
  its callers goes on with the context after an error: the context is returned in both
  cases. \<^verbatim>\<open>ParseUint\<close> returns 0 with a syntax error, and at most 16 digits cannot be out
  of range. The error of \<^verbatim>\<open>SetUpperFromHex\<close> is ignored, as in the sources.
\<close>

definition uintOrZero :: "nat option \<Rightarrow> 64 word" where
  "uintOrZero r = (case r of None \<Rightarrow> 0 | Some n \<Rightarrow> of_nat n)"

definition extractTraceID128 :: "SpanContext \<Rightarrow> string \<Rightarrow> SpanContext \<times> error option" where
  "extractTraceID128 ctx v0 =
    (let v1 = (if 32 < length v0 then drop (length v0 - 32) v0 else v0);
         v = TrimLeft v1 ''0''
     in if length v \<le> 16 then
          (let r = ParseUint v 16 64
           in (ctx\<lparr>traceID := SetLower (traceID ctx) (uintOrZero r)\<rparr>,
               if r = None then Some ErrSpanContextCorrupted else None))
        else
          (let idUpper = take (length v - 16) v;
               t1 = fst (SetUpperFromHex (traceID ctx) idUpper);
               r = ParseUint (drop (length idUpper) v) 16 64
           in (ctx\<lparr>traceID := SetLower t1 (uintOrZero r)\<rparr>,
               if r = None then Some ErrSpanContextCorrupted else None)))"

definition nonWordCutset :: string where
  "nonWordCutset = [CHR ''_'', CHR ''-'', CHR 0x09, CHR '' '', CHR 0x0A]"

text \<open>
  \<^verbatim>\<open>parseTraceparent\<close> returns the error, or the context as it has filled it in (on an
  error its callers drop the context). The checks come in the order of the sources; the
  pieces of the header are named first, and each is looked at only after the checks that
  guard it.
\<close>

definition parseTraceparent :: "SpanContext \<Rightarrow> string \<Rightarrow> error + SpanContext" where
  "parseTraceparent ctx header0 =
    (let header = ToLower (Trim header0 [CHR 0x09, CHR '' '', CHR ''-'']);
         headerLen = length header;
         parts = SplitN header CHR ''-'' 5;
         version = Trim (parts ! 0) nonWordCutset;
         v = ParseUint version 16 64;
         fullTraceID = Trim (parts ! 1) nonWordCutset;
         ctx1 = (case trace ctx of
                   None \<Rightarrow> ctx
                 | Some t \<Rightarrow> ctx\<lparr>trace := Some (unsetPropagatingTag t keyTraceID128)\<rparr>);
         spanIDs = Trim (parts ! 2) nonWordCutset;
         flags = parts ! 3
     in if headerLen = 0 then Inl ErrSpanContextNotFound
        else if headerLen < 55 then Inl ErrSpanContextCorrupted
        else if length parts < 4 then Inl ErrSpanContextCorrupted
        else if length version \<noteq> 2 then Inl ErrSpanContextCorrupted
        else if v = None \<or> v = Some 255 then Inl ErrSpanContextCorrupted
        else if v = Some 0 \<and> headerLen \<noteq> 55 then Inl ErrSpanContextCorrupted
        else if length fullTraceID \<noteq> 32 then Inl ErrSpanContextCorrupted
        else if \<not> isValidID fullTraceID then Inl ErrSpanContextCorrupted
        else
          (case extractTraceID128 ctx1 fullTraceID of
             (_, Some err) \<Rightarrow> Inl err
           | (ctx2, None) \<Rightarrow>
               if length spanIDs \<noteq> 16 then Inl ErrSpanContextCorrupted
               else if \<not> isValidID spanIDs then Inl ErrSpanContextCorrupted
               else
                 (case ParseUint spanIDs 16 64 of
                    None \<Rightarrow> Inl ErrSpanContextCorrupted
                  | Some sid \<Rightarrow>
                      if (of_nat sid :: 64 word) = 0 then Inl ErrSpanContextNotFound
                      else
                        (case ParseInt flags 16 8 of
                           None \<Rightarrow> Inl ErrSpanContextCorrupted
                         | Some f \<Rightarrow>
                             Inr (setSamplingPriority (ctx2\<lparr>spanID := of_nat sid\<rparr>)
                                    (f AND 1) samplerUnknown)))))"

text \<open>
  The body of the loop over the members of the \<open>dd=\<close> list member in \<^verbatim>\<open>parseTracestate\<close>,
  with the context and \<^verbatim>\<open>dropDM\<close> as state. A \<^verbatim>\<open>continue\<close> returns the state as it is.
\<close>

definition ddMember :: "SpanContext \<times> bool \<Rightarrow> string \<Rightarrow> SpanContext \<times> bool" where
  "ddMember st member =
    (case st of (ctx, dropDM) \<Rightarrow>
      (let keyVal = SplitN member CHR '':'' 2
       in if length keyVal \<noteq> 2 then (ctx, dropDM)
          else
            (let key = keyVal ! 0; val = keyVal ! 1
             in if key = ''o'' then (ctx\<lparr>origin := ReplaceAll val CHR ''~'' CHR ''=''\<rparr>, dropDM)
                else if key = ''s'' then
                  (case Atoi val of
                     None \<Rightarrow> (ctx, dropDM)
                   | Some stateP \<Rightarrow>
                       (let parentP = fst (SamplingPriority ctx);
                            ctx1 = (if (parentP = 1 \<and> 0 < stateP) \<or> (parentP = 0 \<and> stateP \<le> 0)
                                    then setSamplingPriority ctx stateP samplerUnknown else ctx);
                            ctx2 = (if parentP = 1 \<and> stateP \<le> 0
                                    then setSamplingPriority ctx1 PriorityAutoKeep samplerDefault
                                    else ctx1)
                        in if parentP = 0 \<and> 0 < stateP
                           then (setSamplingPriority ctx2 PriorityAutoReject samplerUnknown, True)
                           else (ctx2, dropDM)))
                else if key = ''p'' then (ctx\<lparr>reparentID := val\<rparr>, dropDM)
                else if HasPrefix key ''t.dm'' then
                  (if hasPropagatingTag (trace ctx) keyDecisionMaker \<or> dropDM then (ctx, dropDM)
                   else (setPropagatingTag ctx keyDecisionMaker val, dropDM))
                else if HasPrefix key ''t.'' then
                  (setPropagatingTag ctx (''_dd.p.'' @ drop (length ''t.'') key)
                     (ReplaceAll val CHR ''~'' CHR ''=''), dropDM)
                else (ctx, dropDM))))"

text \<open>The body of the loop over the list members: only a member that starts with \<open>dd=\<close> counts.\<close>

definition ddGroup :: "SpanContext \<Rightarrow> string \<Rightarrow> SpanContext" where
  "ddGroup ctx grp =
    (if \<not> HasPrefix grp ''dd='' then ctx
     else fst (foldl ddMember (ctx, False) (Split (drop (length ''dd='') grp) CHR '';'')))"

definition parseTracestate :: "SpanContext \<Rightarrow> string \<Rightarrow> SpanContext" where
  "parseTracestate ctx header =
    (if header = [] then ctx
     else foldl ddGroup (setPropagatingTag ctx tracestateHeader header)
            (Split (Trim header [CHR 0x09, CHR '' '']) CHR '',''))"

text \<open>
  Vocabulary for the statements about the \<open>dd=\<close> member: the key of a member \<open>key:value\<close>, the
  members that the loop treats as a decision maker (a key that starts with \<open>t.dm\<close>), the
  value of the first of them in a list of members, and the decision-maker tag of a
  context.
\<close>

definition memberKey :: "string \<Rightarrow> string option" where
  "memberKey member =
    (let keyVal = SplitN member CHR '':'' 2
     in if length keyVal \<noteq> 2 then None else Some (keyVal ! 0))"

definition isDM :: "string \<Rightarrow> bool" where
  "isDM member = (case memberKey member of None \<Rightarrow> False | Some key \<Rightarrow> HasPrefix key ''t.dm'')"

definition firstDM :: "string list \<Rightarrow> string option" where
  "firstDM members =
    (case filter isDM members of
       [] \<Rightarrow> None
     | member # _ \<Rightarrow> Some (SplitN member CHR '':'' 2 ! 1))"

definition decisionMaker :: "SpanContext \<Rightarrow> string option" where
  "decisionMaker ctx = map_of (tagsOf (trace ctx)) keyDecisionMaker"

text \<open>
  The handler that \<^verbatim>\<open>(*propagatorW3c).extractTextMap\<close> passes to \<^verbatim>\<open>ForeachKey\<close>; its state is
  \<^verbatim>\<open>(parentHeader, stateHeader, ctx)\<close>.
\<close>

definition w3cHandler ::
  "string \<times> string \<times> SpanContext \<Rightarrow> string \<Rightarrow> string \<Rightarrow> error + string \<times> string \<times> SpanContext" where
  "w3cHandler st k v =
    (case st of (parentHeader, stateHeader, ctx) \<Rightarrow>
      (let key = ToLower k
       in if key = traceparentHeader then
            (if parentHeader \<noteq> [] then Inl ErrSpanContextCorrupted
             else Inr (v, stateHeader, ctx))
          else if key = tracestateHeader then Inr (parentHeader, v, ctx)
          else if HasPrefix key DefaultBaggageHeaderPrefix
            then Inr (parentHeader, stateHeader,
                      setBaggageItem ctx (TrimPrefix key DefaultBaggageHeaderPrefix) v)
          else Inr (parentHeader, stateHeader, ctx)))"

definition propagatorW3c_extractTextMap :: "(string \<times> string) list \<Rightarrow> error + SpanContext" where
  "propagatorW3c_extractTextMap reader =
    (case ForeachKey reader w3cHandler ([], [], zeroSpanContext\<lparr>isRemote := True\<rparr>) of
       Inl err \<Rightarrow> Inl err
     | Inr (parentHeader, stateHeader, ctx) \<Rightarrow>
         (case parseTraceparent ctx parentHeader of
            Inl err \<Rightarrow> Inl err
          | Inr ctx1 \<Rightarrow> Inr (parseTracestate ctx1 stateHeader)))"

definition propagatorW3c_Extract :: "carrier \<Rightarrow> error + SpanContext" where
  "propagatorW3c_Extract c =
    (case c of
       TextMapReader reader \<Rightarrow> propagatorW3c_extractTextMap reader
     | OtherCarrier \<Rightarrow> Inl ErrInvalidCarrier)"

text \<open>
  The shape of a well-formed field of a \<^verbatim>\<open>traceparent\<close> header, used to state the
  theorems: \<open>n\<close> lower-case hexadecimal digits.
\<close>

definition isLowerHex :: "char \<Rightarrow> bool" where
  "isLowerHex c = (c \<in> set ''0123456789abcdef'')"

definition hexString :: "nat \<Rightarrow> string \<Rightarrow> bool" where
  "hexString n s = (length s = n \<and> list_all isLowerHex s)"

definition allZero :: "string \<Rightarrow> bool" where
  "allZero s = list_all (\<lambda>c. c = CHR ''0'') s"

text \<open>The header as \<^verbatim>\<open>parseTraceparent\<close> reads it: trimmed of tabs, spaces and dashes, lowered.\<close>

definition trimmedHeader :: "string \<Rightarrow> string" where
  "trimmedHeader header = ToLower (Trim header [CHR 0x09, CHR '' '', CHR ''-''])"

text \<open>A header the extraction tests use.\<close>

definition testParent :: string where
  "testParent = ''00-00000000000000001111111111111111-2222222222222222-01''"

text \<open>
  A context as \<^verbatim>\<open>parseTraceparent\<close> leaves it for \<^verbatim>\<open>parseTracestate\<close>: remote, with the
  sampled flag as its priority.
\<close>

definition flagCtx :: "int \<Rightarrow> SpanContext" where
  "flagCtx f = setSamplingPriority (zeroSpanContext\<lparr>isRemote := True\<rparr>) f samplerUnknown"
section \<open>The baggage header: extraction\<close>

text \<open>
  \<^verbatim>\<open>url.QueryUnescape\<close>: \<open>%XY\<close> with two hexadecimal digits is the byte \<open>0xXY\<close>, \<open>+\<close> is
  a space, and a \<open>%\<close> that is not followed by two hexadecimal digits is an error.
\<close>

definition ishex :: "char \<Rightarrow> bool" where
  "ishex c =
    (let b = byte c
     in (0x30 \<le> b \<and> b \<le> 0x39) \<or> (0x61 \<le> b \<and> b \<le> 0x66) \<or> (0x41 \<le> b \<and> b \<le> 0x46))"

definition unhex :: "char \<Rightarrow> nat" where
  "unhex c =
    (let b = byte c
     in if 0x30 \<le> b \<and> b \<le> 0x39 then b - 0x30
        else if 0x61 \<le> b \<and> b \<le> 0x66 then b - 0x61 + 10
        else if 0x41 \<le> b \<and> b \<le> 0x46 then b - 0x41 + 10
        else 0)"

fun QueryUnescape :: "string \<Rightarrow> string option" where
  "QueryUnescape [] = Some []"
| "QueryUnescape (c # cs) =
    (if c = CHR ''%'' then
       (case cs of
          h1 # h2 # rest \<Rightarrow>
            if ishex h1 \<and> ishex h2
            then map_option (\<lambda>t. chr (unhex h1 * 16 + unhex h2) # t) (QueryUnescape rest)
            else None
        | _ \<Rightarrow> None)
     else if c = CHR ''+'' then map_option (\<lambda>t. CHR '' '' # t) (QueryUnescape cs)
     else map_option (\<lambda>t. c # t) (QueryUnescape cs))"

text \<open>\<^verbatim>\<open>key, _ := url.QueryUnescape(rawK)\<close>: with the error dropped, a failure leaves \<open>""\<close>.\<close>

definition unescapeOrEmpty :: "string \<Rightarrow> string" where
  "unescapeOrEmpty s = (case QueryUnescape s of None \<Rightarrow> [] | Some t \<Rightarrow> t)"

text \<open>
  The first loop of \<^verbatim>\<open>(*propagatorBaggage).extractTextMap\<close>: each piece is cut at its first
  \<open>=\<close> and trimmed; the loop returns at the first piece that is not a pair (\<open>None\<close>), and
  otherwise leaves the trimmed pairs in \<^verbatim>\<open>parts\<close>.
\<close>

fun validateParts :: "string list \<Rightarrow> string list option" where
  "validateParts [] = Some []"
| "validateParts (kv # rest) =
    (case Cut kv CHR ''='' of
       (k, v, ok) \<Rightarrow>
         (let trimmedK = TrimSpace k; trimmedV = TrimSpace v
          in if \<not> ok \<or> trimmedK = [] \<or> trimmedV = [] then None
             else map_option (\<lambda>ps. (trimmedK @ ''='' @ trimmedV) # ps) (validateParts rest)))"

text \<open>The second loop: decode each pair and store it.\<close>

definition applyPart :: "SpanContext \<Rightarrow> string \<Rightarrow> SpanContext" where
  "applyPart ctx kv =
    (case Cut kv CHR ''='' of
       (rawK, rawV, _) \<Rightarrow> setBaggageItem ctx (unescapeOrEmpty rawK) (unescapeOrEmpty rawV))"

definition baggageHandler :: "string \<Rightarrow> string \<Rightarrow> string \<Rightarrow> error + string" where
  "baggageHandler baggageHeader k v = Inr (if ToLower k = ''baggage'' then v else baggageHeader)"

definition propagatorBaggage_extractTextMap :: "(string \<times> string) list \<Rightarrow> error + SpanContext" where
  "propagatorBaggage_extractTextMap reader =
    (case ForeachKey reader baggageHandler [] of
       Inl err \<Rightarrow> Inl err
     | Inr baggageHeader \<Rightarrow>
         if baggageHeader = [] then Inr zeroSpanContext
         else
           (case validateParts (Split baggageHeader CHR '','') of
              None \<Rightarrow> Inr zeroSpanContext
            | Some parts \<Rightarrow> Inr (foldl applyPart zeroSpanContext parts)))"

definition propagatorBaggage_Extract :: "carrier \<Rightarrow> error + SpanContext" where
  "propagatorBaggage_Extract c =
    (case c of
       TextMapReader reader \<Rightarrow> propagatorBaggage_extractTextMap reader
     | OtherCarrier \<Rightarrow> Inl ErrInvalidCarrier)"

text \<open>What claim C9 calls a malformed piece: no \<open>=\<close>, or nothing but white space on a side.\<close>

definition malformedPiece :: "string \<Rightarrow> bool" where
  "malformedPiece kv =
    (case Cut kv CHR ''='' of (k, v, ok) \<Rightarrow> \<not> ok \<or> TrimSpace k = [] \<or> TrimSpace v = [])"

section \<open>B3 headers: extraction\<close>

definition b3TraceIDHeader :: string where "b3TraceIDHeader = ''x-b3-traceid''"
definition b3SpanIDHeader :: string where "b3SpanIDHeader = ''x-b3-spanid''"
definition b3SampledHeader :: string where "b3SampledHeader = ''x-b3-sampled''"
definition b3SingleHeader :: string where "b3SingleHeader = ''b3''"

text \<open>
  The handler of \<^verbatim>\<open>(*propagatorB3).extractTextMap\<close>. An error of \<^verbatim>\<open>extractTraceID128\<close> ends the
  handler with \<^verbatim>\<open>return nil\<close>: the walk goes on with the trace id as that call left it.
\<close>

definition b3Handler :: "SpanContext \<Rightarrow> string \<Rightarrow> string \<Rightarrow> error + SpanContext" where
  "b3Handler ctx k v =
    (let key = ToLower k
     in if key = b3TraceIDHeader then Inr (fst (extractTraceID128 ctx v))
        else if key = b3SpanIDHeader then
          (case ParseUint v 16 64 of
             None \<Rightarrow> Inl ErrSpanContextCorrupted
           | Some sid \<Rightarrow> Inr (ctx\<lparr>spanID := of_nat sid\<rparr>))
        else if key = b3SampledHeader then
          (case Atoi v of
             None \<Rightarrow> Inl ErrSpanContextCorrupted
           | Some prio \<Rightarrow> Inr (setSamplingPriority ctx prio samplerUnknown))
        else Inr ctx)"

definition propagatorB3_extractTextMap :: "(string \<times> string) list \<Rightarrow> error + SpanContext" where
  "propagatorB3_extractTextMap reader =
    (case ForeachKey reader b3Handler zeroSpanContext of
       Inl err \<Rightarrow> Inl err
     | Inr ctx \<Rightarrow>
         if Empty (traceID ctx) \<or> spanID ctx = 0 then Inl ErrSpanContextNotFound
         else Inr ctx)"

definition propagatorB3_Extract :: "carrier \<Rightarrow> error + SpanContext" where
  "propagatorB3_Extract c =
    (case c of
       TextMapReader reader \<Rightarrow> propagatorB3_extractTextMap reader
     | OtherCarrier \<Rightarrow> Inl ErrInvalidCarrier)"

definition b3SingleHandler :: "SpanContext \<Rightarrow> string \<Rightarrow> string \<Rightarrow> error + SpanContext" where
  "b3SingleHandler ctx k v =
    (let key = ToLower k
     in if key = b3SingleHeader then
          (let b3Parts = Split v CHR ''-''
           in if 2 \<le> length b3Parts then
                (case extractTraceID128 ctx (b3Parts ! 0) of
                   (_, Some err) \<Rightarrow> Inl err
                 | (ctx1, None) \<Rightarrow>
                     (case ParseUint (b3Parts ! 1) 16 64 of
                        None \<Rightarrow> Inl ErrSpanContextCorrupted
                      | Some sid \<Rightarrow>
                          (let ctx2 = ctx1\<lparr>spanID := of_nat sid\<rparr>
                           in if 3 \<le> length b3Parts then
                                (if b3Parts ! 2 = [] then Inr ctx2
                                 else if b3Parts ! 2 = ''1'' \<or> b3Parts ! 2 = ''d''
                                   then Inr (setSamplingPriority ctx2 PriorityAutoKeep samplerUnknown)
                                 else if b3Parts ! 2 = ''0''
                                   then Inr (setSamplingPriority ctx2 PriorityAutoReject samplerUnknown)
                                 else Inl ErrSpanContextCorrupted)
                              else Inr ctx2)))
              else Inl ErrSpanContextCorrupted)
        else Inr ctx)"

definition propagatorB3SingleHeader_extractTextMap ::
  "(string \<times> string) list \<Rightarrow> error + SpanContext" where
  "propagatorB3SingleHeader_extractTextMap reader =
    (case ForeachKey reader b3SingleHandler zeroSpanContext of
       Inl err \<Rightarrow> Inl err
     | Inr ctx \<Rightarrow>
         if Empty (traceID ctx) \<or> spanID ctx = 0 then Inl ErrSpanContextNotFound
         else Inr ctx)"

definition propagatorB3SingleHeader_Extract :: "carrier \<Rightarrow> error + SpanContext" where
  "propagatorB3SingleHeader_Extract c =
    (case c of
       TextMapReader reader \<Rightarrow> propagatorB3SingleHeader_extractTextMap reader
     | OtherCarrier \<Rightarrow> Inl ErrInvalidCarrier)"

section \<open>Datadog headers: extraction\<close>

record PropagatorConfig =
  BaggagePrefix :: string
  TraceHeader :: string
  ParentHeader :: string
  PriorityHeader :: string
  MaxTagsHeaderLen :: int
  B3 :: bool
  BaggageHeader :: string

definition originHeader :: string where "originHeader = ''x-datadog-origin''"
definition traceTagsHeader :: string where "traceTagsHeader = ''x-datadog-tags''"
definition propagationExtractMaxSize :: nat where "propagationExtractMaxSize = 512"

text \<open>The configuration \<^verbatim>\<open>NewPropagator\<close> completes from an empty one, with a given tag limit.\<close>

definition defaultConfig :: "int \<Rightarrow> PropagatorConfig" where
  "defaultConfig maxTags =
    \<lparr>BaggagePrefix = ''ot-baggage-'', TraceHeader = ''x-datadog-trace-id'',
     ParentHeader = ''x-datadog-parent-id'', PriorityHeader = ''x-datadog-sampling-priority'',
     MaxTagsHeaderLen = maxTags, B3 = False, BaggageHeader = ''baggage''\<rparr>"

text \<open>
  Modelled from the spec: \<^verbatim>\<open>parseUint64\<close>, which reads the decimal trace and parent ids and
  is defined outside the sources. The spec carries the lower 64 bits of the trace id as a
  decimal string and fails extraction on a non-numeric field.
\<close>

definition parseUint64 :: "string \<Rightarrow> nat option" where
  "parseUint64 s = ParseUint s 10 64"

text \<open>
  Modelled from the spec: \<^verbatim>\<open>parsePropagatableTraceTags\<close>, defined outside the sources. The
  spec decodes strict \<open>k=v\<close> pairs separated by commas; a malformed pair is an error and
  yields no tags. The pairs are stored in a map, later ones over earlier ones.
\<close>

fun parsePairs :: "string list \<Rightarrow> (string \<times> string) list \<Rightarrow> (string \<times> string) list option" where
  "parsePairs [] acc = Some acc"
| "parsePairs (p # ps) acc =
    (case Cut p CHR ''='' of
       (k, v, ok) \<Rightarrow>
         if \<not> ok \<or> k = [] \<or> v = [] then None
         else parsePairs ps (AList.update k v acc))"

definition parsePropagatableTraceTags :: "string \<Rightarrow> (string \<times> string) list option" where
  "parsePropagatableTraceTags s = (if s = [] then Some [] else parsePairs (Split s CHR '','') [])"

definition unmarshalPropagatingTags :: "SpanContext \<Rightarrow> string \<Rightarrow> SpanContext" where
  "unmarshalPropagatingTags ctx v =
    (let t = traceOrNew ctx
     in if propagationExtractMaxSize < length v
        then ctx\<lparr>trace := Some (setTag t keyPropagationError ''extract_max_size'')\<rparr>
        else
          (case parsePropagatableTraceTags v of
             None \<Rightarrow>
               ctx\<lparr>trace := Some (replacePropagatingTags
                                    (setTag t keyPropagationError ''decoding_error'') [])\<rparr>
           | Some parsed \<Rightarrow> ctx\<lparr>trace := Some (replacePropagatingTags t parsed)\<rparr>))"

definition validateTID :: "string \<Rightarrow> bool" where
  "validateTID tid = (if length tid \<noteq> 16 then False else isValidID tid)"

text \<open>
  The handler of \<^verbatim>\<open>(*propagator).extractTextMap\<close>; the cases of the \<^verbatim>\<open>switch\<close> are tried in
  the order of the sources.
\<close>

definition ddHandler ::
  "PropagatorConfig \<Rightarrow> SpanContext \<Rightarrow> string \<Rightarrow> string \<Rightarrow> error + SpanContext" where
  "ddHandler cfg ctx k v =
    (let key = ToLower k
     in if key = TraceHeader cfg then
          (case parseUint64 v of
             None \<Rightarrow> Inl ErrSpanContextCorrupted
           | Some lowerTid \<Rightarrow> Inr (ctx\<lparr>traceID := SetLower (traceID ctx) (of_nat lowerTid)\<rparr>))
        else if key = ParentHeader cfg then
          (case parseUint64 v of
             None \<Rightarrow> Inl ErrSpanContextCorrupted
           | Some sid \<Rightarrow> Inr (ctx\<lparr>spanID := of_nat sid\<rparr>))
        else if key = PriorityHeader cfg then
          (case Atoi v of
             None \<Rightarrow> Inl ErrSpanContextCorrupted
           | Some prio \<Rightarrow> Inr (setSamplingPriority ctx prio samplerUnknown))
        else if key = originHeader then Inr (ctx\<lparr>origin := v\<rparr>)
        else if key = traceTagsHeader then Inr (unmarshalPropagatingTags ctx v)
        else if HasPrefix key (BaggagePrefix cfg)
          then Inr (setBaggageItem ctx (TrimPrefix key (BaggagePrefix cfg)) v)
        else Inr ctx)"

text \<open>After the walk: the upper half of the trace id is read from the tag \<^verbatim>\<open>_dd.p.tid\<close>.\<close>

definition readUpperHalf :: "SpanContext \<Rightarrow> SpanContext" where
  "readUpperHalf ctx =
    (case trace ctx of
       None \<Rightarrow> ctx
     | Some t \<Rightarrow>
         (let tid = propagatingTag (Some t) keyTraceID128
          in if \<not> validateTID tid
             then ctx\<lparr>trace := Some (unsetPropagatingTag t keyTraceID128)\<rparr>
             else (case SetUpperFromHex (traceID ctx) tid of
                     (_, False) \<Rightarrow> ctx\<lparr>trace := Some (unsetPropagatingTag t keyTraceID128)\<rparr>
                   | (tr, True) \<Rightarrow> ctx\<lparr>traceID := tr\<rparr>)))"

definition propagator_extractTextMap ::
  "PropagatorConfig \<Rightarrow> (string \<times> string) list \<Rightarrow> error + SpanContext" where
  "propagator_extractTextMap cfg reader =
    (case ForeachKey reader (ddHandler cfg) zeroSpanContext of
       Inl err \<Rightarrow> Inl err
     | Inr ctx0 \<Rightarrow>
         (let ctx = readUpperHalf ctx0
          in if Empty (traceID ctx) \<or> (spanID ctx = 0 \<and> origin ctx \<noteq> ''synthetics'')
             then Inl ErrSpanContextNotFound
             else Inr ctx))"

definition propagator_Extract :: "PropagatorConfig \<Rightarrow> carrier \<Rightarrow> error + SpanContext" where
  "propagator_Extract cfg c =
    (case c of
       TextMapReader reader \<Rightarrow> propagator_extractTextMap cfg reader
     | OtherCarrier \<Rightarrow> Inl ErrInvalidCarrier)"
section \<open>Injection\<close>

text \<open>
  The carrier an injector writes to. A \<^verbatim>\<open>TextMapCarrier\<close> is a Go map, here an association
  list with one entry per key, and \<^verbatim>\<open>Set\<close> assigns to a key. Any other value either does not
  implement \<^verbatim>\<open>TextMapWriter\<close> or is outside this model.
\<close>

datatype writer =
    TextMapCarrier "(string \<times> string) list"
  | OtherWriter






subsection \<open>Datadog headers\<close>





text \<open>
  What the Datadog injector and the trace context injector do first: a 128-bit trace id
  records its upper half in the tag \<^verbatim>\<open>_dd.p.tid\<close>, a 64-bit one removes the tag from the
  trace, if there is a trace.
\<close>

definition recordUpperHalf :: "SpanContext \<Rightarrow> SpanContext" where
  "recordUpperHalf ctx =
    (if HasUpper (traceID ctx) then setPropagatingTag ctx keyTraceID128 (UpperHex (traceID ctx))
     else (case trace ctx of
             None \<Rightarrow> ctx
           | Some t \<Rightarrow> ctx\<lparr>trace := Some (unsetPropagatingTag t keyTraceID128)\<rparr>))"



subsection \<open>B3 headers\<close>






subsection \<open>W3C trace context\<close>



subsection \<open>The baggage header\<close>













section \<open>The chained propagator\<close>

text \<open>
  A \<^verbatim>\<open>Propagator\<close> is an interface value. The chain asks it to inject or to extract, and
  looks at its dynamic type; the five types of the package are constructors, and any other
  implementation (a caller may pass its own to \<^verbatim>\<open>NewPropagator\<close>) is its pair of methods
  \<^verbatim>\<open>Inject\<close> and \<^verbatim>\<open>Extract\<close>.
\<close>

datatype Propagator =
    propagator PropagatorConfig
  | propagatorB3
  | propagatorB3SingleHeader
  | propagatorW3c
  | propagatorBaggage
  | otherPropagator "SpanContext option \<Rightarrow> writer \<Rightarrow> error + SpanContext option \<times> writer"
                    "carrier \<Rightarrow> error + SpanContext"

fun Extract :: "Propagator \<Rightarrow> carrier \<Rightarrow> error + SpanContext" where
  "Extract (propagator cfg) c = propagator_Extract cfg c"
| "Extract propagatorB3 c = propagatorB3_Extract c"
| "Extract propagatorB3SingleHeader c = propagatorB3SingleHeader_Extract c"
| "Extract propagatorW3c c = propagatorW3c_Extract c"
| "Extract propagatorBaggage c = propagatorBaggage_Extract c"
| "Extract (otherPropagator injectFn extractFn) c = extractFn c"


fun isBaggage :: "Propagator \<Rightarrow> bool" where
  "isBaggage propagatorBaggage = True"
| "isBaggage _ = False"

fun isW3c :: "Propagator \<Rightarrow> bool" where
  "isW3c propagatorW3c = True"
| "isW3c _ = False"

fun getPropagatorName :: "Propagator \<Rightarrow> string" where
  "getPropagatorName (propagator _) = ''datadog''"
| "getPropagatorName propagatorB3 = ''b3multi''"
| "getPropagatorName propagatorB3SingleHeader = ''b3''"
| "getPropagatorName propagatorW3c = ''tracecontext''"
| "getPropagatorName propagatorBaggage = ''baggage''"
| "getPropagatorName (otherPropagator _ _) = []"

record chainedPropagator =
  injectors :: "Propagator list"
  extractors :: "Propagator list"
  onlyExtractFirst :: bool



text \<open>\<^verbatim>\<open>getDatadogPropagator\<close>: the first extractor of the chain that is a Datadog propagator.\<close>

fun firstDatadog :: "Propagator list \<Rightarrow> PropagatorConfig option" where
  "firstDatadog [] = None"
| "firstDatadog (propagator cfg # _) = Some cfg"
| "firstDatadog (_ # es) = firstDatadog es"

definition getDatadogPropagator :: "chainedPropagator \<Rightarrow> PropagatorConfig option" where
  "getDatadogPropagator cp = firstDatadog (extractors cp)"

text \<open>
  Modelled from the spec: the accessors \<^verbatim>\<open>TraceID\<close>, \<^verbatim>\<open>SpanID\<close>, \<^verbatim>\<open>TraceIDLower\<close> and
  \<^verbatim>\<open>TraceIDUpper\<close> of \<^verbatim>\<open>*SpanContext\<close>, defined outside the sources. \<^verbatim>\<open>TraceID\<close> is the hex form
  of 32 digits. The chain calls \<^verbatim>\<open>TraceID\<close> and \<^verbatim>\<open>SpanID\<close> on the nil context that an extractor
  returns with an error; a nil context answers with the zero id.
\<close>

definition ctxTraceID :: "SpanContext option \<Rightarrow> string" where
  "ctxTraceID c = (case c of None \<Rightarrow> replicate 32 CHR ''0'' | Some x \<Rightarrow> HexEncoded (traceID x))"

definition ctxSpanID :: "SpanContext option \<Rightarrow> 64 word" where
  "ctxSpanID c = (case c of None \<Rightarrow> 0 | Some x \<Rightarrow> spanID x)"

definition TraceIDLower :: "SpanContext \<Rightarrow> 64 word" where
  "TraceIDLower c = lower (traceID c)"

definition TraceIDUpper :: "SpanContext \<Rightarrow> 64 word" where
  "TraceIDUpper c = upper (traceID c)"

text \<open>
  \<^verbatim>\<open>propagateTracestate\<close> gives the context a trace before it composes the tracestate, so
  the composition finds one; its result is passed on all the same.
\<close>

definition propagateTracestate :: "SpanContext \<Rightarrow> SpanContext option \<Rightarrow> error + SpanContext" where
  "propagateTracestate ctx w3c =
    (case w3c of
       None \<Rightarrow> Inr ctx
     | Some w3cCtx \<Rightarrow>
         if ctxTraceID (Some ctx) \<noteq> ctxTraceID (Some w3cCtx) then Inr ctx
         else if trace w3cCtx = None then Inr ctx
         else
           (let ctx1 = ctx\<lparr>trace := Some (traceOrNew ctx)\<rparr>;
                ts = propagatingTag (trace w3cCtx) tracestateHeader;
                prio = fst (SamplingPriority ctx1)
            in case composeTracestate ctx1 prio ts of
                 Inl err \<Rightarrow> Inl err
               | Inr state \<Rightarrow>
                   Inr ((setPropagatingTag ctx1 tracestateHeader state)
                          \<lparr>isRemote := isRemote w3cCtx\<rparr>)))"

definition overrideDatadogParentID ::
  "SpanContext \<Rightarrow> SpanContext option \<Rightarrow> SpanContext option \<Rightarrow> SpanContext" where
  "overrideDatadogParentID ctx w3c dd =
    (case (w3c, dd) of
       (Some w3cCtx, Some ddCtx) \<Rightarrow>
         ctx\<lparr>spanID := spanID w3cCtx,
             reparentID := (if reparentID w3cCtx \<noteq> [] then reparentID w3cCtx
                            else hex016 (spanID ddCtx))\<rparr>
     | _ \<Rightarrow> ctx)"

text \<open>
  \<^verbatim>\<open>uint32(*trace.priority)\<close>. The priority is a \<^verbatim>\<open>float64\<close> that holds the integer it was set
  to, and the conversion is exact for a priority from 0 to \<open>2^32 - 1\<close>. Go leaves the
  result for any other value to the implementation; the model takes the low 32 bits of
  the integer, which is what the conversion through a 64-bit integer gives.
\<close>

definition uint32OfPriority :: "int \<Rightarrow> 32 word" where
  "uint32OfPriority p = word_of_int p"

text \<open>
  The span link the chain makes for an extracted context whose trace id differs from the
  one of the context it has. \<^verbatim>\<open>*trace.priority\<close> dereferences a nil pointer when the
  trace has no priority: the panic is the value \<open>None\<close>.
\<close>

definition makeLink :: "Propagator \<Rightarrow> SpanContext \<Rightarrow> SpanLink option" where
  "makeLink v extractedCtx2 =
    (let link = \<lparr>TraceID = TraceIDLower extractedCtx2, TraceIDHigh = TraceIDUpper extractedCtx2,
                 SpanID = spanID extractedCtx2,
                 Attributes = [(''reason'', ''terminated_context''),
                               (''context_headers'', getPropagatorName v)],
                 Tracestate = [], Flags = 0\<rparr>
     in case trace extractedCtx2 of
          None \<Rightarrow> Some link
        | Some t \<Rightarrow>
            (case priority t of
               None \<Rightarrow> None
             | Some p \<Rightarrow>
                 Some (link\<lparr>Flags := (if 0 < uint32OfPriority p then 1 else 0),
                            Tracestate := propagatingTag (Some t) tracestateHeader\<rparr>)))"

text \<open>Assigning the entries of one Go map to another.\<close>

definition mapsCopy :: "(string \<times> string) list \<Rightarrow> (string \<times> string) list \<Rightarrow> (string \<times> string) list" where
  "mapsCopy dst src = foldl (\<lambda>m kv. AList.update (fst kv) (snd kv) m) dst src"

text \<open>What the loop does with the result of the baggage propagator.\<close>

definition stashBaggage ::
  "error + SpanContext \<Rightarrow> (string \<times> string) list \<Rightarrow> (string \<times> string) list" where
  "stashBaggage extracted pendingBaggage =
    (case extracted of
       Inr extractedCtx \<Rightarrow>
         if 0 < length (baggage extractedCtx)
         then mapsCopy pendingBaggage (baggage extractedCtx) else pendingBaggage
     | Inl _ \<Rightarrow> pendingBaggage)"

text \<open>The statements after the loop of \<^verbatim>\<open>(*chainedPropagator).Extract\<close>.\<close>

definition afterLoop ::
  "SpanContext option \<Rightarrow> SpanLink list \<Rightarrow> (string \<times> string) list \<Rightarrow> error + SpanContext" where
  "afterLoop ctx links pendingBaggage =
    (case ctx of
       None \<Rightarrow>
         if 0 < length pendingBaggage
         then Inr (zeroSpanContext\<lparr>baggage := mapsCopy [] pendingBaggage, baggageOnly := True,
                                    hasBaggage := True\<rparr>)
         else Inl ErrSpanContextNotFound
     | Some c \<Rightarrow>
         (let c1 = (if 0 < length pendingBaggage
                    then c\<lparr>baggage := mapsCopy (baggage c) pendingBaggage, hasBaggage := True\<rparr>
                    else c)
          in Inr (if 0 < length links then c1\<lparr>spanLinks := links\<rparr> else c1)))"

text \<open>
  The loop over the extractors, with \<^verbatim>\<open>ctx\<close>, \<^verbatim>\<open>links\<close> and \<^verbatim>\<open>pendingBaggage\<close> as its state. A
  \<^verbatim>\<open>return\<close> inside the loop is the result; after the last extractor the statements that
  follow the loop run.
\<close>

fun extractLoop ::
  "chainedPropagator \<Rightarrow> carrier \<Rightarrow> Propagator list \<Rightarrow> SpanContext option \<Rightarrow> SpanLink list \<Rightarrow>
   (string \<times> string) list \<Rightarrow> error + SpanContext" where
  "extractLoop p c [] ctx links pendingBaggage = afterLoop ctx links pendingBaggage"
| "extractLoop p c (v # vs) ctx links pendingBaggage =
    (let extracted = Extract v c
     in if isBaggage v then
          extractLoop p c vs ctx links (stashBaggage extracted pendingBaggage)
        else
          (case ctx of
             None \<Rightarrow>
               (case extracted of
                  Inl err \<Rightarrow>
                    if onlyExtractFirst p then Inl err
                    else if err \<noteq> ErrSpanContextNotFound then Inl err
                    else extractLoop p c vs None links pendingBaggage
                | Inr extractedCtx \<Rightarrow>
                    if onlyExtractFirst p then Inr extractedCtx
                    else extractLoop p c vs (Some extractedCtx) links pendingBaggage)
           | Some ctx2 \<Rightarrow>
               (let extractedCtx2 = (case extracted of Inl _ \<Rightarrow> None | Inr x \<Rightarrow> Some x)
                in if ctxTraceID extractedCtx2 = ctxTraceID (Some ctx2) then
                     (if isW3c v then
                        (case propagateTracestate ctx2 extractedCtx2 of
                           Inl err \<Rightarrow> Inl err
                         | Inr ctx3 \<Rightarrow>
                             if ctxSpanID extractedCtx2 \<noteq> ctxSpanID (Some ctx3) then
                               (let ddCtx =
                                      (case getDatadogPropagator p of
                                         None \<Rightarrow> None
                                       | Some cfg \<Rightarrow>
                                           (case propagator_Extract cfg c of
                                              Inl _ \<Rightarrow> None
                                            | Inr d \<Rightarrow> Some d))
                                in extractLoop p c vs
                                     (Some (overrideDatadogParentID ctx3 extractedCtx2 ddCtx))
                                     links pendingBaggage)
                             else extractLoop p c vs (Some ctx3) links pendingBaggage)
                      else extractLoop p c vs (Some ctx2) links pendingBaggage)
                   else
                     (case extractedCtx2 of
                        None \<Rightarrow> extractLoop p c vs (Some ctx2) links pendingBaggage
                      | Some x \<Rightarrow>
                          (case makeLink v x of
                             None \<Rightarrow> Inl NilPointerPanic
                           | Some link \<Rightarrow>
                               extractLoop p c vs (Some ctx2) (links @ [link]) pendingBaggage)))))"

definition chainedPropagator_Extract :: "chainedPropagator \<Rightarrow> carrier \<Rightarrow> error + SpanContext" where
  "chainedPropagator_Extract p c = extractLoop p c (extractors p) None [] []"

text \<open>
  The pending baggage after the loop has passed a run of extractors: the baggage
  propagators among them have stashed what they decoded.
\<close>

definition stashAll ::
  "carrier \<Rightarrow> Propagator list \<Rightarrow> (string \<times> string) list \<Rightarrow> (string \<times> string) list" where
  "stashAll c pre pending =
     foldl (\<lambda>pb e. if isBaggage e then stashBaggage (Extract e c) pb else pb) pending pre"

text \<open>
  The carriers of the examples for the span links: B3 headers of trace 2 next to Datadog
  headers of trace 1, the latter with propagated tags and without a sampling priority,
  and the same with a sampling priority.
\<close>

definition linkCarrier :: carrier where
  "linkCarrier = TextMapReader
     [(''x-b3-traceid'', ''2''), (''x-b3-spanid'', ''2''),
      (''x-datadog-trace-id'', ''1''), (''x-datadog-parent-id'', ''1''),
      (''x-datadog-tags'', ''_dd.p.usr=x'')]"

definition linkCarrierPriority :: carrier where
  "linkCarrierPriority = TextMapReader
     [(''x-b3-traceid'', ''2''), (''x-b3-spanid'', ''2''),
      (''x-datadog-trace-id'', ''1''), (''x-datadog-parent-id'', ''1''),
      (''x-datadog-sampling-priority'', ''2'')]"

definition b3ThenDatadog :: chainedPropagator where
  "b3ThenDatadog = \<lparr>injectors = [], extractors = [propagatorB3, propagator (defaultConfig 128)],
                     onlyExtractFirst = False\<rparr>"

definition datadogThenB3 :: chainedPropagator where
  "datadogThenB3 = \<lparr>injectors = [], extractors = [propagator (defaultConfig 128), propagatorB3],
                     onlyExtractFirst = False\<rparr>"





section \<open>Properties of the sanitizers\<close>

lemma byte_chr: "n < 256 \<Longrightarrow> byte (chr n) = n"
  by (simp add: byte_def chr_def)

lemma chr_byte: "chr (byte c) = c"
  by (simp add: byte_def chr_def)

lemma byte_lt_256: "byte c < 256"
  unfolding byte_def by (metis of_char_mod_256 mod_less_divisor zero_less_numeral)

lemma EncodeRune_ascii: "0 \<le> r \<Longrightarrow> r < 0x80 \<Longrightarrow> EncodeRune r = [chr (nat r)]"
  by (auto simp: EncodeRune_def Let_def)

lemma runes_ascii: "\<forall>c\<in>set s. byte c < 0x80 \<Longrightarrow> runes s = map (\<lambda>c. int (byte c)) s"
  by (induction s) (auto simp: Let_def)

text \<open>A rune below \<open>0x80\<close> is decoded from one byte of that value only.\<close>

lemma DecodeRune_small:
  assumes "DecodeRune (c # cs) = (r, n)" and "r < 0x80"
  shows "r = int (byte c) \<and> n = 1"
  using assms
  by (auto simp: Let_def RuneError_def isCont_def split: if_splits list.splits)

lemma runes_small_mem: "r \<in> set (runes s) \<Longrightarrow> r < 0x80 \<Longrightarrow> \<exists>c\<in>set s. r = int (byte c)"
proof (induction s rule: runes.induct)
  case 1
  then show ?case by simp
next
  case (2 c cs)
  obtain r0 n where d: "DecodeRune (c # cs) = (r0, n)" by (cases "DecodeRune (c # cs)")
  from "2.prems" d have "r = r0 \<or> r \<in> set (runes (drop (n - 1) cs))" by simp
  then show ?case
  proof
    assume "r = r0"
    with d "2.prems" DecodeRune_small show ?thesis by fastforce
  next
    assume "r \<in> set (runes (drop (n - 1) cs))"
    with "2.IH"[OF d[symmetric]] "2.prems" obtain c'
      where "c' \<in> set (drop (n - 1) cs)" "r = int (byte c')"
      by blast
    then have "c' \<in> set (c # cs)" "r = int (byte c')" by (auto dest: in_set_dropD)
    then show ?thesis by blast
  qed
qed

text \<open>
  A rune is settled for a character class when the class maps it to itself without
  asking for a collapse, and it is ASCII.
\<close>

definition settled :: "(rune \<Rightarrow> rune \<times> bool) \<Rightarrow> rune \<Rightarrow> bool" where
  "settled fn r = (0 \<le> r \<and> r < 0x80 \<and> fn r = (r, False))"

lemma Map_runes_settled:
  "\<forall>r\<in>set rs. settled fn r \<Longrightarrow> Map_runes fn n rs = map (\<lambda>r. chr (nat r)) rs"
  by (induction rs arbitrary: n) (auto simp: mapping_def settled_def EncodeRune_ascii)

lemma Map_runes_output:
  "\<forall>r\<in>set rs. fst (fn r) < 0 \<or> settled fn (fst (fn r)) \<Longrightarrow>
   \<forall>c\<in>set (Map_runes fn n rs). settled fn (int (byte c))"
proof (induction rs arbitrary: n)
  case Nil
  then show ?case by simp
next
  case (Cons r rs)
  then have rest: "\<And>n'. \<forall>c\<in>set (Map_runes fn n' rs). settled fn (int (byte c))" by simp
  from Cons.prems have hd: "fst (fn r) < 0 \<or> settled fn (fst (fn r))" by simp
  obtain v d where f: "fn r = (v, d)" by (cases "fn r")
  show ?case
  proof (cases "v < 0")
    case True
    with f rest show ?thesis by (simp add: mapping_def)
  next
    case False
    with hd f have st: "settled fn v" by simp
    then have enc: "EncodeRune v = [chr (nat v)]" by (simp add: settled_def EncodeRune_ascii)
    from st have "nat v < 256" unfolding settled_def by linarith
    then have "byte (chr (nat v)) = nat v" by (rule byte_chr)
    with st have "settled fn (int (byte (chr (nat v))))" by (simp add: settled_def)
    with f False rest enc show ?thesis by (auto simp: mapping_def)
  qed
qed

lemma Mutate_fixed:
  assumes "\<forall>c\<in>set t. settled fn (int (byte c))"
  shows "Mutate fn t = t"
proof -
  from assms have "\<forall>c\<in>set t. byte c < 0x80" by (auto simp: settled_def)
  then have "runes t = map (\<lambda>c. int (byte c)) t" by (rule runes_ascii)
  moreover from assms have "\<forall>r\<in>set (map (\<lambda>c. int (byte c)) t). settled fn r" by simp
  ultimately have "Mutate fn t = map (\<lambda>r. chr (nat r)) (map (\<lambda>c. int (byte c)) t)"
    by (simp add: Mutate_def Map_runes_settled)
  then show ?thesis by (simp add: o_def chr_byte)
qed

lemma Mutate_idem:
  assumes "\<forall>r\<in>set (runes s). fst (fn r) < 0 \<or> settled fn (fst (fn r))"
  shows "Mutate fn (Mutate fn s) = Mutate fn s"
proof -
  have "\<forall>c\<in>set (Mutate fn s). settled fn (int (byte c))"
    unfolding Mutate_def using assms by (rule Map_runes_output)
  then show ?thesis by (rule Mutate_fixed)
qed

lemma key_settled: "settled keyDisallowedFn (fst (keyDisallowedFn r))"
  by (simp add: settled_def keyDisallowedFn_def)

lemma value_settled: "r \<noteq> 0x3D \<Longrightarrow> settled valueDisallowedFn (fst (valueDisallowedFn r))"
  by (simp add: settled_def valueDisallowedFn_def)

lemma origin_settled: "r \<noteq> 0x3D \<Longrightarrow> settled originDisallowedFn (fst (originDisallowedFn r))"
  by (simp add: settled_def originDisallowedFn_def)

lemma no_equals_rune: "CHR ''='' \<notin> set s \<Longrightarrow> 0x3D \<notin> set (runes s)"
proof
  assume a: "CHR ''='' \<notin> set s" and "0x3D \<in> set (runes s)"
  then obtain c where c: "c \<in> set s" "(0x3D::int) = int (byte c)"
    using runes_small_mem by fastforce
  then have "byte c = 0x3D" by linarith
  then have "chr (byte c) = chr 0x3D" by (rule arg_cong)
  moreover have "chr 0x3D = CHR ''=''" unfolding chr_def by code_simp
  ultimately have "c = CHR ''=''" by (simp only: chr_byte)
  with a c show False by simp
qed

text \<open>
  Claim C7, as stated, fails: the value and origin classes write \<open>=\<close> as \<open>~\<close> and map
  \<open>~\<close> to an underscore, so a second pass over the sanitized \<open>=\<close> changes it again.
\<close>

theorem value_sanitizer_not_idempotent_counterexample:
  "Mutate valueDisallowedFn (Mutate valueDisallowedFn ''='') \<noteq> Mutate valueDisallowedFn ''=''"
  by (simp add: Mutate_def mapping_def valueDisallowedFn_def EncodeRune_def byte_def chr_def)

text \<open>
  Claim C7, amended: the tracestate-key sanitizer is idempotent on every string, and the
  value and origin sanitizers are idempotent on every string that contains no \<open>=\<close>.
\<close>

theorem sanitizers_idempotent:
  "Mutate keyDisallowedFn (Mutate keyDisallowedFn s) = Mutate keyDisallowedFn s \<and>
   (CHR ''='' \<notin> set s \<longrightarrow>
      Mutate valueDisallowedFn (Mutate valueDisallowedFn s) = Mutate valueDisallowedFn s \<and>
      Mutate originDisallowedFn (Mutate originDisallowedFn s) = Mutate originDisallowedFn s)"
proof (intro conjI impI)
  show "Mutate keyDisallowedFn (Mutate keyDisallowedFn s) = Mutate keyDisallowedFn s"
    by (rule Mutate_idem) (simp add: key_settled)
next
  assume "CHR ''='' \<notin> set s"
  then have ne: "\<forall>r\<in>set (runes s). r \<noteq> 0x3D" using no_equals_rune by blast
  show "Mutate valueDisallowedFn (Mutate valueDisallowedFn s) = Mutate valueDisallowedFn s"
    by (rule Mutate_idem) (use ne value_settled in blast)
  show "Mutate originDisallowedFn (Mutate originDisallowedFn s) = Mutate originDisallowedFn s"
    by (rule Mutate_idem) (use ne origin_settled in blast)
qed

theorem sanitizers_idempotent_witness:
  "CHR ''='' \<notin> set ''a,b;c~ d'' \<and>
   Mutate keyDisallowedFn (Mutate keyDisallowedFn ''a,b;c~ d'') = Mutate keyDisallowedFn ''a,b;c~ d'' \<and>
   Mutate valueDisallowedFn (Mutate valueDisallowedFn ''a,b;c~ d'')
     = Mutate valueDisallowedFn ''a,b;c~ d'' \<and>
   Mutate originDisallowedFn (Mutate originDisallowedFn ''a,b;c~ d'')
     = Mutate originDisallowedFn ''a,b;c~ d''"
  using sanitizers_idempotent [of "''a,b;c~ d''"] by simp

section \<open>The length of the composed \<open>dd=\<close> member\<close>

lemma appendTags_bound:
  "length b \<le> N \<Longrightarrow> 256 \<le> N \<Longrightarrow> length (appendTags b kvs) \<le> N"
proof (induction kvs arbitrary: b)
  case Nil
  then show ?case by simp
next
  case (Cons kv kvs)
  obtain k v where kv: "kv = (k, v)" by (cases kv)
  show ?case
  proof (cases "HasPrefix k ''_dd.p.''")
    case False
    with kv Cons show ?thesis by simp
  next
    case True
    define key where "key = Mutate keyDisallowedFn (drop (length ''_dd.p.'') k)"
    define val where "val = Mutate valueDisallowedFn v"
    show ?thesis
    proof (cases "256 < length b + length key + length val + 4")
      case over: True
      with True kv Cons.prems show ?thesis by (simp add: key_def val_def Let_def)
    next
      case fits: False
      then have "length (b @ '';t.'' @ key @ '':'' @ val) \<le> N" using Cons.prems by simp
      then have "length (appendTags (b @ '';t.'' @ key @ '':'' @ val) kvs) \<le> N"
        using Cons.prems(2) by (rule Cons.IH)
      with True kv fits show ?thesis by (simp add: key_def val_def Let_def)
    qed
  qed
qed

lemma appendVendors_prefix:
  "\<exists>rest. appendVendors b n ss = b @ rest \<and> (rest = [] \<or> hd rest = CHR '','')"
proof (induction ss arbitrary: b n)
  case Nil
  then show ?case by simp
next
  case (Cons s ss)
  show ?case
  proof (cases "HasPrefix s ''dd=''")
    case True
    with Cons.IH[of b n] show ?thesis by simp
  next
    case False
    show ?thesis
    proof (cases "32 < n + 1")
      case True
      with False show ?thesis by simp
    next
      case le: False
      from Cons.IH[of "b @ '','' @ Trim s [CHR '' '', CHR 0x09]" "n + 1"]
      obtain rest where "appendVendors (b @ '','' @ Trim s [CHR '' '', CHR 0x09]) (n + 1) ss
          = (b @ '','' @ Trim s [CHR '' '', CHR 0x09]) @ rest" by blast
      with False le
      have "appendVendors b n (s # ss) = b @ ('','' @ Trim s [CHR '' '', CHR 0x09] @ rest)"
        by simp
      then show ?thesis by (metis append_Cons list.sel(1))
    qed
  qed
qed

lemma appendTags_over: "256 < length b \<Longrightarrow> appendTags b kvs = b"
proof (induction kvs)
  case Nil
  then show ?case by simp
next
  case (Cons kv kvs)
  obtain k v where kv: "kv = (k, v)" by (cases kv)
  with Cons show ?case by (simp add: Let_def)
qed

lemma composeHead_long_origin:
  "composeHead longOriginCtx 0 = ''dd=s:0;o:'' @ replicate 300 CHR ''a''"
proof -
  have "settled originDisallowedFn (int (byte CHR ''a''))"
    by (simp add: settled_def originDisallowedFn_def byte_def)
  then have "Mutate originDisallowedFn (replicate 300 CHR ''a'') = replicate 300 CHR ''a''"
    by (intro Mutate_fixed) simp
  moreover have "Itoa 0 = ''0''" by code_simp
  ultimately show ?thesis
    by (simp add: composeHead_def longOriginCtx_def zeroSpanContext_def Let_def)
qed

text \<open>
  Claim C8. For a context with a trace, the \<open>dd=\<close> member is the first list member of the
  composed tracestate: the tracestate composed with an empty old state, followed, for
  another old state, by nothing or by a comma and the other vendors. Only the
  propagating tags are checked against the budget of 256 characters. When the part
  written before them (\<open>dd=s:\<close>, the priority, the origin and the parent id) has at most 256
  characters, so has the member, its key included. When that part is longer, the member
  is that part and exceeds the budget: the origin and the parent id are written whatever
  their length.
\<close>

theorem composeTracestate_dd_member_length:
  assumes "trace ctx = Some t"
  shows "\<exists>dd rest. composeTracestate ctx prio [] = Inr dd \<and>
           composeTracestate ctx prio oldState = Inr (dd @ rest) \<and>
           (rest = [] \<or> hd rest = CHR '','') \<and>
           (length (composeHead ctx prio) \<le> 256 \<longrightarrow> length dd \<le> 256) \<and>
           (256 < length (composeHead ctx prio) \<longrightarrow> dd = composeHead ctx prio)"
proof -
  define dd where "dd = appendTags (composeHead ctx prio) (propagatingTags t)"
  have a: "composeTracestate ctx prio [] = Inr dd"
    using assms by (simp add: composeTracestate_def dd_def)
  have b: "\<exists>rest. composeTracestate ctx prio oldState = Inr (dd @ rest) \<and>
                 (rest = [] \<or> hd rest = CHR '','')"
  proof (cases "length oldState = 0")
    case True
    with assms show ?thesis by (simp add: composeTracestate_def dd_def)
  next
    case False
    with assms show ?thesis
      using appendVendors_prefix[of dd 1 "Split (Trim oldState [CHR '' '', CHR 0x09]) CHR '',''"]
      by (auto simp: composeTracestate_def dd_def)
  qed
  have c: "length (composeHead ctx prio) \<le> 256 \<longrightarrow> length dd \<le> 256"
    unfolding dd_def using appendTags_bound[of "composeHead ctx prio" 256] by simp
  have d: "256 < length (composeHead ctx prio) \<longrightarrow> dd = composeHead ctx prio"
    unfolding dd_def by (simp add: appendTags_over)
  from a b c d show ?thesis by blast
qed

theorem composeTracestate_dd_member_length_witness:
  "composeTracestate longOriginCtx 0 [] = Inr (''dd=s:0;o:'' @ replicate 300 CHR ''a'') \<and>
   length (''dd=s:0;o:'' @ replicate 300 CHR ''a'') = 309 \<and>
   composeTracestate boundWitnessCtx 2 ''valid_vendor=a:1''
     = Inr ''dd=s:2;o:rum;p:0000000000000002;t.usr.id:baz64~~;t.dm:-4,valid_vendor=a:1'' \<and>
   (\<exists>dd. composeTracestate boundWitnessCtx 2 [] = Inr dd \<and> length dd \<le> 256)"
proof -
  have t: "trace longOriginCtx = Some newTrace"
    by (simp add: longOriginCtx_def zeroSpanContext_def)
  have h: "256 < length (composeHead longOriginCtx 0)"
    by (simp add: composeHead_long_origin)
  from composeTracestate_dd_member_length[OF t, of 0 "[]"] h
  have a: "composeTracestate longOriginCtx 0 [] = Inr (''dd=s:0;o:'' @ replicate 300 CHR ''a'')"
    by (auto simp: composeHead_long_origin)
  have t2: "trace boundWitnessCtx = Some (newTrace\<lparr>propagatingTags :=
       [(''_dd.p.usr.id'', ''baz64==''), (''tracestate'', ''valid_vendor=a:1''),
        (''_dd.p.dm'', ''-4'')]\<rparr>)"
    by (simp add: boundWitnessCtx_def zeroSpanContext_def)
  have h2: "length (composeHead boundWitnessCtx 2) \<le> 256" by code_simp
  have e: "composeTracestate boundWitnessCtx 2 ''valid_vendor=a:1''
     = Inr ''dd=s:2;o:rum;p:0000000000000002;t.usr.id:baz64~~;t.dm:-4,valid_vendor=a:1''"
    by code_simp
  from composeTracestate_dd_member_length[OF t2, of 2 "[]"] h2
  have b: "\<exists>dd. composeTracestate boundWitnessCtx 2 [] = Inr dd \<and> length dd \<le> 256"
    by auto
  from a b e show ?thesis by simp
qed

section \<open>Facts about the library functions\<close>

subsection \<open>Splitting\<close>

lemma Cut_found: "sep \<notin> set a \<Longrightarrow> Cut (a @ sep # b) sep = (a, b, True)"
proof -
  assume n: "sep \<notin> set a"
  then have "takeWhile (\<lambda>c. c \<noteq> sep) (a @ sep # b) = a"
    by (induction a) auto
  moreover from n have "dropWhile (\<lambda>c. c \<noteq> sep) (a @ sep # b) = sep # b"
    by (induction a) auto
  ultimately show ?thesis by (simp add: Cut_def)
qed

lemma Cut_not_found: "sep \<notin> set s \<Longrightarrow> Cut s sep = (s, [], False)"
  by (simp add: Cut_def)

lemma SplitN_step:
  "sep \<notin> set a \<Longrightarrow> SplitN (a @ sep # b) sep (Suc (Suc n)) = a # SplitN b sep (Suc n)"
  by (simp add: Cut_found)

lemma SplitN_last: "sep \<notin> set s \<Longrightarrow> SplitN s sep (Suc n) = [s]"
  by (cases n) (simp_all add: Cut_not_found)

lemma Split_step: "sep \<notin> set a \<Longrightarrow> Split (a @ sep # b) sep = a # Split b sep"
  by (induction a) (auto split: list.splits)

lemma Split_last: "sep \<notin> set s \<Longrightarrow> Split s sep = [s]"
  by (induction s) (auto split: list.splits)

subsection \<open>Trimming and lowering\<close>

lemma TrimLeft_id: "s = [] \<or> hd s \<notin> set cs \<Longrightarrow> TrimLeft s cs = s"
  by (cases s) (auto simp: TrimLeft_def)

lemma TrimRight_id: "s = [] \<or> last s \<notin> set cs \<Longrightarrow> TrimRight s cs = s"
proof (cases s rule: rev_cases)
  case Nil
  then show ?thesis by (simp add: TrimRight_def)
next
  case (snoc ys y)
  assume "s = [] \<or> last s \<notin> set cs"
  with snoc show ?thesis by (simp add: TrimRight_def)
qed

lemma Trim_id: "s = [] \<or> (hd s \<notin> set cs \<and> last s \<notin> set cs) \<Longrightarrow> Trim s cs = s"
  by (auto simp: Trim_def TrimLeft_id TrimRight_id)

lemma Trim_id_all: "\<forall>c\<in>set s. c \<notin> set cs \<Longrightarrow> Trim s cs = s"
  by (cases "s = []") (auto intro!: Trim_id)

lemma length_ToLower: "length (ToLower s) = length s"
  by (simp add: ToLower_def)

lemma ToLower_append: "ToLower (a @ b) = ToLower a @ ToLower b"
  by (simp add: ToLower_def)

lemma ToLower_Cons: "ToLower (c # s) = toLowerByte c # ToLower s"
  by (simp add: ToLower_def)

lemma ToLower_id: "\<forall>c\<in>set s. \<not> (0x41 \<le> byte c \<and> byte c \<le> 0x5A) \<Longrightarrow> ToLower s = s"
  by (induction s) (auto simp: ToLower_def toLowerByte_def)

subsection \<open>Hexadecimal fields\<close>

lemma isLowerHex_digitVal: "isLowerHex c \<Longrightarrow> \<exists>d<16. digitVal c = Some d \<and> (d = 0 \<longleftrightarrow> c = CHR ''0'')"
  by (auto simp: isLowerHex_def digitVal_def byte_def)

lemma isLowerHex_byte: "isLowerHex c \<Longrightarrow> (0x30 \<le> byte c \<and> byte c \<le> 0x39) \<or> (0x61 \<le> byte c \<and> byte c \<le> 0x66)"
  by (auto simp: isLowerHex_def byte_def)

lemma parseDigits_hex:
  "list_all isLowerHex s \<Longrightarrow>
   \<exists>n. parseDigits 16 acc s = Some n \<and> acc * 16 ^ length s \<le> n \<and> n < (acc + 1) * 16 ^ length s
       \<and> (n = 0 \<longleftrightarrow> acc = 0 \<and> allZero s)"
proof (induction s arbitrary: acc)
  case Nil
  then show ?case by (simp add: allZero_def)
next
  case (Cons c s)
  from Cons.prems have c: "isLowerHex c" and s: "list_all isLowerHex s" by simp_all
  from c obtain d where d: "d < 16" "digitVal c = Some d" "d = 0 \<longleftrightarrow> c = CHR ''0''"
    using isLowerHex_digitVal by blast
  from Cons.IH[OF s, of "acc * 16 + d"] obtain n where n: "parseDigits 16 (acc * 16 + d) s = Some n"
      "(acc * 16 + d) * 16 ^ length s \<le> n" "n < (acc * 16 + d + 1) * 16 ^ length s"
      "n = 0 \<longleftrightarrow> acc * 16 + d = 0 \<and> allZero s"
    by blast
  have step: "parseDigits 16 acc (c # s) = Some n" using d n(1) by simp
  have pw: "(16::nat) ^ length (c # s) = 16 * 16 ^ length s" by simp
  have lo: "acc * 16 ^ length (c # s) \<le> n"
  proof -
    have "acc * 16 * 16 ^ length s \<le> (acc * 16 + d) * 16 ^ length s"
      by (rule mult_le_mono1) (rule le_add1)
    with n(2) have "acc * 16 * 16 ^ length s \<le> n" by linarith
    then show ?thesis by (simp only: pw mult.assoc)
  qed
  have hi: "n < (acc + 1) * 16 ^ length (c # s)"
  proof -
    from d(1) have "acc * 16 + d + 1 \<le> (acc + 1) * 16" by simp
    then have "(acc * 16 + d + 1) * 16 ^ length s \<le> (acc + 1) * 16 * 16 ^ length s"
      by (rule mult_le_mono1)
    with n(3) have "n < (acc + 1) * 16 * 16 ^ length s" by linarith
    then show ?thesis by (simp only: pw mult.assoc)
  qed
  have "acc * 16 + d = 0 \<longleftrightarrow> acc = 0 \<and> c = CHR ''0''" using d(3) by auto
  with n(4) have z: "n = 0 \<longleftrightarrow> acc = 0 \<and> allZero (c # s)"
    by (auto simp: allZero_def)
  from step lo hi z show ?case by blast
qed

lemma ParseUint_hex:
  assumes "list_all isLowerHex s" "s \<noteq> []" "length s \<le> 16"
  shows "\<exists>n. ParseUint s 16 64 = Some n \<and> n < 2 ^ 64 \<and> (n = 0 \<longleftrightarrow> allZero s)"
proof -
  from parseDigits_hex[OF assms(1), of 0] obtain n where
    n: "parseDigits 16 0 s = Some n" "n < 16 ^ length s" "n = 0 \<longleftrightarrow> allZero s" by auto
  have "(16::nat) ^ length s \<le> 16 ^ 16" using assms(3) by (intro power_increasing) simp_all
  with n(2) have "n < (16::nat) ^ 16" by linarith
  moreover have "(16::nat) ^ 16 = 2 ^ 64"
  proof -
    have "(16::nat) = 2 ^ 4" by simp
    then have "(16::nat) ^ 16 = (2 ^ 4) ^ 16" by (rule arg_cong)
    also have "\<dots> = 2 ^ 64" by (simp only: power_mult[symmetric]) simp
    finally show ?thesis .
  qed
  ultimately have b: "n < 2 ^ 64" by (simp only:)
  have "ParseUint s 16 64 = Some n" using n(1) assms(2) b by (simp add: ParseUint_def)
  with b n(3) show ?thesis by blast
qed

lemma isLowerHex_ascii: "list_all isLowerHex s \<Longrightarrow> \<forall>c\<in>set s. byte c < 0x80"
  using isLowerHex_byte by (fastforce simp: list_all_iff)

lemma isValidID_hex:
  assumes "list_all isLowerHex s" "s \<noteq> []"
  shows "isValidID s"
proof -
  have "runes s = map (\<lambda>c. int (byte c)) s"
    using assms(1) by (intro runes_ascii isLowerHex_ascii)
  moreover have "\<forall>c\<in>set s. \<not> (int (byte c) < asciiZero \<or> int (byte c) > asciiLowerF
      \<or> (int (byte c) > asciiNine \<and> int (byte c) < asciiLowerA))"
    using assms(1) isLowerHex_byte
    by (fastforce simp: list_all_iff asciiZero_def asciiLowerF_def asciiNine_def asciiLowerA_def)
  ultimately show ?thesis using assms(2) by (simp add: isValidID_def list_all_iff)
qed

lemma word64_of_nat_zero: "n < 2 ^ 64 \<Longrightarrow> (of_nat n :: 64 word) = 0 \<longleftrightarrow> n = 0"
  using of_nat_neq_0[of n, where 'a=64] by (cases "n = 0") simp_all

lemma TrimLeft_zero_hex:
  assumes "list_all isLowerHex s" "\<not> allZero s"
  shows "list_all isLowerHex (TrimLeft s ''0'')" "TrimLeft s ''0'' \<noteq> []"
        "length (TrimLeft s ''0'') \<le> length s"
proof -
  show "list_all isLowerHex (TrimLeft s ''0'')"
    using assms(1) by (auto simp: TrimLeft_def list_all_iff dest: set_dropWhileD)
  show "TrimLeft s ''0'' \<noteq> []"
    using assms(2) by (auto simp: TrimLeft_def allZero_def list_all_iff)
  show "length (TrimLeft s ''0'') \<le> length s"
    by (simp add: TrimLeft_def length_dropWhile_le)
qed

lemma extractTraceID128_hex:
  assumes "hexString 32 tid" "\<not> allZero tid"
  shows "snd (extractTraceID128 ctx tid) = None"
proof -
  define v where "v = TrimLeft tid ''0''"
  from assms have hx: "list_all isLowerHex tid" and len: "length tid = 32"
    by (simp_all add: hexString_def)
  from TrimLeft_zero_hex[OF hx assms(2)] have v: "list_all isLowerHex v" "v \<noteq> []" "length v \<le> 32"
    by (simp_all add: v_def len)
  show ?thesis
  proof (cases "length v \<le> 16")
    case True
    with ParseUint_hex[OF v(1,2)] obtain n where "ParseUint v 16 64 = Some n" by blast
    with True len show ?thesis by (simp add: extractTraceID128_def v_def[symmetric] Let_def)
  next
    case False
    define w where "w = drop (length v - 16) v"
    from False v(3) have "length w = 16" by (simp add: w_def)
    moreover have "list_all isLowerHex w"
      using v(1) by (auto simp: w_def list_all_iff dest: in_set_dropD)
    ultimately obtain n where "ParseUint w 16 64 = Some n"
      using ParseUint_hex[of w] by fastforce
    with False len show ?thesis
      by (auto simp: extractTraceID128_def v_def[symmetric] w_def[symmetric] Let_def min_def)
  qed
qed

lemma ParseInt_flags:
  assumes "a \<in> set ''01234567''" "isLowerHex b"
  shows "\<exists>f. ParseInt [a, b] 16 8 = Some f"
proof -
  from assms(1) obtain da where da: "digitVal a = Some da" "da < 8"
    by (auto simp: digitVal_def byte_def)
  from assms(2) obtain db where db: "digitVal b = Some db" "db < 16"
    using isLowerHex_digitVal by blast
  from assms(1) have sign: "a \<noteq> CHR ''+''" "a \<noteq> CHR ''-''" by auto
  have "parseDigits 16 0 [a, b] = Some (da * 16 + db)" using da db by simp
  moreover have "da * 16 + db < 128" using da(2) db(2) by linarith
  ultimately show ?thesis using sign by (simp add: ParseInt_def ParseUint_def)
qed

section \<open>Parsing the traceparent header\<close>

lemma isLowerHex_not_special:
  "isLowerHex c \<Longrightarrow> c \<notin> {CHR ''_'', CHR ''-'', CHR 0x09, CHR '' '', CHR 0x0A}"
  using isLowerHex_byte[of c] by (auto simp: byte_def)

lemma hex_not_special:
  assumes "list_all isLowerHex s"
  shows "CHR ''-'' \<notin> set s" "\<forall>c\<in>set s. c \<notin> set nonWordCutset"
        "\<forall>c\<in>set s. c \<notin> set [CHR 0x09, CHR '' '', CHR ''-'']"
        "\<forall>c\<in>set s. \<not> (0x41 \<le> byte c \<and> byte c \<le> 0x5A)"
proof -
  from assms have h: "\<And>c. c \<in> set s \<Longrightarrow> isLowerHex c" by (simp add: list_all_iff)
  show "CHR ''-'' \<notin> set s" using h isLowerHex_not_special by blast
  show "\<forall>c\<in>set s. c \<notin> set nonWordCutset"
    using h isLowerHex_not_special by (fastforce simp: nonWordCutset_def)
  show "\<forall>c\<in>set s. c \<notin> set [CHR 0x09, CHR '' '', CHR ''-'']"
    using h isLowerHex_not_special by fastforce
  show "\<forall>c\<in>set s. \<not> (0x41 \<le> byte c \<and> byte c \<le> 0x5A)"
    using h isLowerHex_byte by fastforce
qed

lemma digitVal_f: "isLowerHex c \<Longrightarrow> digitVal c = Some 15 \<longleftrightarrow> c = CHR ''f''"
proof
  assume h: "isLowerHex c" and d: "digitVal c = Some 15"
  from isLowerHex_byte[OF h] d have "byte c = 0x66"
    by (auto simp: digitVal_def Let_def split: if_splits)
  then have "chr (byte c) = chr 0x66" by (rule arg_cong)
  moreover have "chr 0x66 = CHR ''f''" unfolding chr_def by code_simp
  ultimately show "c = CHR ''f''" by (simp only: chr_byte)
next
  assume "c = CHR ''f''"
  then show "digitVal c = Some 15" by (simp add: digitVal_def byte_def)
qed

lemma version_value:
  assumes "hexString 2 ver" "ParseUint ver 16 64 = Some v"
  shows "(v = 255 \<longleftrightarrow> ver = ''ff'') \<and> (v = 0 \<longleftrightarrow> ver = ''00'')"
proof -
  from assms(1) obtain x y where ver: "ver = [x, y]" and hx: "isLowerHex x" "isLowerHex y"
    by (cases ver; cases "tl ver") (auto simp: hexString_def)
  from isLowerHex_digitVal[OF hx(1)] obtain dx where
    dx: "dx < 16" "digitVal x = Some dx" "dx = 0 \<longleftrightarrow> x = CHR ''0''"
    by blast
  from isLowerHex_digitVal[OF hx(2)] obtain dy where
    dy: "dy < 16" "digitVal y = Some dy" "dy = 0 \<longleftrightarrow> y = CHR ''0''"
    by blast
  have fx: "dx = 15 \<longleftrightarrow> x = CHR ''f''" using digitVal_f[OF hx(1)] dx(2) by simp
  have fy: "dy = 15 \<longleftrightarrow> y = CHR ''f''" using digitVal_f[OF hx(2)] dy(2) by simp
  have "parseDigits 16 0 ver = Some (dx * 16 + dy)" using ver dx(2) dy(2) dx(1) dy(1) by simp
  moreover have "dx * 16 + dy < 2 ^ 64" using dx(1) dy(1) by simp
  ultimately have "ParseUint ver 16 64 = Some (dx * 16 + dy)" using ver by (simp add: ParseUint_def)
  with assms(2) have v: "v = dx * 16 + dy" by simp
  have "v = 255 \<longleftrightarrow> dx = 15 \<and> dy = 15" using v dx(1) dy(1) by linarith
  moreover have "v = 0 \<longleftrightarrow> dx = 0 \<and> dy = 0" using v by simp
  ultimately show ?thesis using ver dx(3) dy(3) fx fy by simp
qed

lemma core_parts:
  assumes "list_all isLowerHex ver" "list_all isLowerHex tid" "list_all isLowerHex sid"
      "list_all isLowerHex flags" "tail = [] \<or> (\<exists>t. tail = CHR ''-'' # t)"
  shows "\<exists>rest. SplitN (ver @ ''-'' @ tid @ ''-'' @ sid @ ''-'' @ flags @ tail) CHR ''-'' 5
           = ver # tid # sid # flags # rest"
proof -
  have five: "(5::nat) = Suc (Suc (Suc (Suc (Suc 0))))" by simp
  from assms(1-4) have nd: "CHR ''-'' \<notin> set ver" "CHR ''-'' \<notin> set tid" "CHR ''-'' \<notin> set sid"
      "CHR ''-'' \<notin> set flags"
    by (simp_all add: hex_not_special(1))
  from assms(5) show ?thesis
  proof
    assume "tail = []"
    with nd show ?thesis unfolding five by (simp add: SplitN_step SplitN_last del: SplitN.simps)
  next
    assume "\<exists>t. tail = CHR ''-'' # t"
    then obtain t where "tail = CHR ''-'' # t" ..
    with nd show ?thesis unfolding five by (simp add: SplitN_step del: SplitN.simps)
  qed
qed

lemma parseTraceparent_core:
  assumes low: "ToLower (Trim header0 [CHR 0x09, CHR '' '', CHR ''-''])
                  = ver @ ''-'' @ tid @ ''-'' @ sid @ ''-'' @ [a, b] @ tail"
    and tail: "tail = [] \<or> (\<exists>t. tail = CHR ''-'' # t)"
    and ver: "hexString 2 ver" "ver \<noteq> ''ff''" "ver = ''00'' \<longrightarrow> tail = []"
    and tid: "hexString 32 tid" "\<not> allZero tid"
    and sid: "hexString 16 sid" "\<not> allZero sid"
    and flags: "a \<in> set ''01234567''" "isLowerHex b"
  shows "\<exists>ctx'. parseTraceparent ctx header0 = Inr ctx'"
proof -
  define ctx1 where "ctx1 = (case trace ctx of None \<Rightarrow> ctx
      | Some t \<Rightarrow> ctx\<lparr>trace := Some (unsetPropagatingTag t keyTraceID128)\<rparr>)"
  from flags(1) have ahex: "isLowerHex a" by (auto simp: isLowerHex_def)
  with flags(2) have fhex: "list_all isLowerHex [a, b]" by simp
  from ver(1) tid(1) sid(1) have hx: "list_all isLowerHex ver" "list_all isLowerHex tid"
      "list_all isLowerHex sid" and len: "length ver = 2" "length tid = 32" "length sid = 16"
    by (simp_all add: hexString_def)
  from core_parts[OF hx fhex tail] obtain rest where
    parts: "SplitN (ver @ ''-'' @ tid @ ''-'' @ sid @ ''-'' @ [a, b] @ tail) CHR ''-'' 5
              = ver # tid # sid # [a, b] # rest" by blast
  have trims: "Trim ver nonWordCutset = ver" "Trim tid nonWordCutset = tid"
      "Trim sid nonWordCutset = sid"
    using hx by (simp_all add: Trim_id_all hex_not_special(2))
  from ParseUint_hex[OF hx(1)] len(1) obtain v where
    v: "ParseUint ver 16 64 = Some v" "v = 0 \<longleftrightarrow> allZero ver" by fastforce
  from version_value[OF ver(1) v(1)] ver(2,3) have v255: "v \<noteq> 255" and v0: "v = 0 \<longrightarrow> tail = []"
    by simp_all
  from ParseUint_hex[OF hx(3)] len(3) obtain n where
    n: "ParseUint sid 16 64 = Some n" "n < 2 ^ 64" "n = 0 \<longleftrightarrow> allZero sid" by fastforce
  with sid(2) have nz: "(of_nat n :: 64 word) \<noteq> 0" by (simp add: word64_of_nat_zero)
  from extractTraceID128_hex[OF tid, of ctx1] obtain ctx2 where
    ex: "extractTraceID128 ctx1 tid = (ctx2, None)" by (cases "extractTraceID128 ctx1 tid") auto
  from ParseInt_flags[OF flags] obtain f where f: "ParseInt [a, b] 16 8 = Some f" ..
  have valid: "isValidID tid" "isValidID sid" using hx len by (auto intro!: isValidID_hex)
  have hl: "55 \<le> length (ver @ ''-'' @ tid @ ''-'' @ sid @ ''-'' @ [a, b] @ tail)"
    "length (ver @ ''-'' @ tid @ ''-'' @ sid @ ''-'' @ [a, b] @ tail) = 55 \<longleftrightarrow> tail = []"
    using len by auto
  show ?thesis
    unfolding parseTraceparent_def low Let_def parts ctx1_def[symmetric]
    using hl v v255 v0 trims len valid ex n(1) nz f
    by (simp del: SplitN.simps)
qed

lemma HasPrefix_split: "HasPrefix s p \<Longrightarrow> \<exists>rest. s = p @ rest"
  unfolding HasPrefix_def by (metis append_take_drop_id)

lemma parseTraceparent_short:
  assumes "trimmedHeader header \<noteq> []" "length (trimmedHeader header) < 55"
  shows "parseTraceparent ctx header = Inl ErrSpanContextCorrupted"
  using assms by (simp add: parseTraceparent_def trimmedHeader_def Let_def)

lemma parseTraceparent_version_prefix:
  assumes pre: "HasPrefix (trimmedHeader header) (p @ ''-'')" and p: "CHR ''-'' \<notin> set p"
    and trim: "Trim p nonWordCutset = p" and len: "length p = 2"
    and bad: "ParseUint p 16 64 = Some 255 \<or> (ParseUint p 16 64 = Some 0 \<and> length (trimmedHeader header) \<noteq> 55)"
  shows "parseTraceparent ctx header = Inl ErrSpanContextCorrupted"
proof -
  from HasPrefix_split[OF pre] obtain rest where h: "trimmedHeader header = p @ CHR ''-'' # rest"
    by auto
  have five: "(5::nat) = Suc (Suc (Suc (Suc (Suc 0))))" by simp
  have parts: "SplitN (p @ CHR ''-'' # rest) CHR ''-'' 5 = p # SplitN rest CHR ''-'' 4"
    unfolding five using p by (simp add: SplitN_step del: SplitN.simps) (simp add: eval_nat_numeral)
  have ne: "length (p @ CHR ''-'' # rest) \<noteq> 0" by simp
  from bad show ?thesis
    unfolding parseTraceparent_def trimmedHeader_def[symmetric] h Let_def parts
    using trim len by (auto simp del: SplitN.simps)
qed

lemma ToLower_hex: "list_all isLowerHex s \<Longrightarrow> ToLower s = s"
  by (intro ToLower_id hex_not_special(4))

lemma toLowerByte_hex: "isLowerHex c \<Longrightarrow> toLowerByte c = c"
  using isLowerHex_byte[of c] by (auto simp: toLowerByte_def)

lemma octal_isLowerHex: "a \<in> set ''01234567'' \<Longrightarrow> isLowerHex a"
  by (auto simp: isLowerHex_def)

lemma toLowerByte_dash: "toLowerByte CHR ''-'' = CHR ''-''"
  by (simp add: toLowerByte_def byte_def)

lemma parseTraceparent_v0:
  assumes tid: "hexString 32 tid" "\<not> allZero tid"
    and sid: "hexString 16 sid" "\<not> allZero sid"
    and flags: "a \<in> set ''01234567''" "isLowerHex b"
  shows "\<exists>ctx'. parseTraceparent ctx (''00-'' @ tid @ ''-'' @ sid @ ''-'' @ [a, b]) = Inr ctx'"
proof -
  let ?h = "''00-'' @ tid @ ''-'' @ sid @ ''-'' @ [a, b]"
  from tid(1) sid(1) have hx: "list_all isLowerHex tid" "list_all isLowerHex sid"
    by (simp_all add: hexString_def)
  from flags(2) have "b \<notin> set [CHR 0x09, CHR '' '', CHR ''-'']"
    using isLowerHex_not_special by fastforce
  then have "Trim ?h [CHR 0x09, CHR '' '', CHR ''-''] = ?h"
    by (intro Trim_id) simp
  moreover have "ToLower ?h = ?h"
    using hx flags
    by (simp add: ToLower_append ToLower_Cons ToLower_hex toLowerByte_dash toLowerByte_hex
        octal_isLowerHex)
  ultimately have low: "ToLower (Trim ?h [CHR 0x09, CHR '' '', CHR ''-''])
      = ''00'' @ ''-'' @ tid @ ''-'' @ sid @ ''-'' @ [a, b] @ []" by simp
  have ver: "hexString 2 ''00''" "''00'' \<noteq> ''ff''" "''00'' = ''00'' \<longrightarrow> ([]::string) = []"
    by (simp_all add: hexString_def isLowerHex_def)
  show ?thesis
    by (rule parseTraceparent_core[OF low _ ver tid sid flags]) simp
qed

lemma parseTraceparent_later_version:
  assumes ver: "hexString 2 ver" "ver \<noteq> ''00''" "ver \<noteq> ''ff''"
    and tid: "hexString 32 tid" "\<not> allZero tid"
    and sid: "hexString 16 sid" "\<not> allZero sid"
    and flags: "a \<in> set ''01234567''" "isLowerHex b"
    and suffix: "suffix \<noteq> []" "last suffix \<notin> set [CHR 0x09, CHR '' '', CHR ''-'']"
  shows "\<exists>ctx'. parseTraceparent ctx
           (ver @ ''-'' @ tid @ ''-'' @ sid @ ''-'' @ [a, b] @ ''-'' @ suffix) = Inr ctx'"
proof -
  let ?h = "ver @ ''-'' @ tid @ ''-'' @ sid @ ''-'' @ [a, b] @ ''-'' @ suffix"
  from ver(1) tid(1) sid(1) have hx: "list_all isLowerHex ver" "list_all isLowerHex tid"
      "list_all isLowerHex sid" and vlen: "length ver = 2"
    by (simp_all add: hexString_def)
  from vlen obtain x y where vxy: "ver = [x, y]" by (cases ver; cases "tl ver") auto
  with hx(1) have "x \<notin> set [CHR 0x09, CHR '' '', CHR ''-'']"
    using isLowerHex_not_special by fastforce
  with suffix vxy have "Trim ?h [CHR 0x09, CHR '' '', CHR ''-''] = ?h"
    by (intro Trim_id) simp
  moreover have "toLowerByte a = a" "toLowerByte b = b"
    using flags by (simp_all add: toLowerByte_hex octal_isLowerHex)
  then have "ToLower ?h = ver @ ''-'' @ tid @ ''-'' @ sid @ ''-'' @ [a, b] @ CHR ''-'' # ToLower suffix"
    using hx by (simp add: ToLower_append ToLower_Cons ToLower_hex toLowerByte_dash)
  ultimately have low: "ToLower (Trim ?h [CHR 0x09, CHR '' '', CHR ''-''])
      = ver @ ''-'' @ tid @ ''-'' @ sid @ ''-'' @ [a, b] @ CHR ''-'' # ToLower suffix" by simp
  from ver(2) have v0: "ver = ''00'' \<longrightarrow> CHR ''-'' # ToLower suffix = []" by simp
  show ?thesis
    by (rule parseTraceparent_core[OF low _ ver(1,3) v0 tid sid flags]) simp
qed


lemma hexString_eval [simp]:
  "hexString n s \<longleftrightarrow> length s = n \<and> list_all isLowerHex s"
  by (simp add: hexString_def)

lemma testParent_parsed: "\<exists>ctx'. parseTraceparent ctx
    ([CHR '' '', CHR 0x09, CHR ''-''] @ testParent @ [CHR '' '', CHR 0x09, CHR ''-'']) = Inr ctx'"
proof -
  have low: "ToLower (Trim ([CHR '' '', CHR 0x09, CHR ''-''] @ testParent @ [CHR '' '', CHR 0x09, CHR ''-''])
                  [CHR 0x09, CHR '' '', CHR ''-''])
     = ''00'' @ ''-'' @ ''00000000000000001111111111111111'' @ ''-'' @ ''2222222222222222''
        @ ''-'' @ [CHR ''0'', CHR ''1''] @ []"
    by code_simp
  show ?thesis
    by (rule parseTraceparent_core[OF low]) (simp_all add: isLowerHex_def allZero_def)
qed


text \<open>
  Claim C5, as stated, fails for a version-0 header longer than 55 characters: the
  length is taken after tabs, spaces and dashes have been trimmed from both ends. The
  header below, 61 characters long and of version 0, is one the extraction tests expect
  to be read, and it is.
\<close>

theorem traceparent_padded_v0_counterexample:
  "length ([CHR '' '', CHR 0x09, CHR ''-''] @ testParent @ [CHR '' '', CHR 0x09, CHR ''-'']) = 61 \<and>
   HasPrefix (trimmedHeader ([CHR '' '', CHR 0x09, CHR ''-''] @ testParent @ [CHR '' '', CHR 0x09, CHR ''-''])) ''00-'' \<and>
   \<not> isl (parseTraceparent zeroSpanContext
            ([CHR '' '', CHR 0x09, CHR ''-''] @ testParent @ [CHR '' '', CHR 0x09, CHR ''-'']))"
proof -
  have "length ([CHR '' '', CHR 0x09, CHR ''-''] @ testParent @ [CHR '' '', CHR 0x09, CHR ''-'']) = 61"
    by (simp add: testParent_def)
  moreover have "HasPrefix (trimmedHeader ([CHR '' '', CHR 0x09, CHR ''-''] @ testParent @ [CHR '' '', CHR 0x09, CHR ''-''])) ''00-''"
    by code_simp
  moreover from testParent_parsed[of zeroSpanContext]
  have "\<not> isl (parseTraceparent zeroSpanContext
            ([CHR '' '', CHR 0x09, CHR ''-''] @ testParent @ [CHR '' '', CHR 0x09, CHR ''-'']))"
    by auto
  ultimately show ?thesis by blast
qed

text \<open>
  Claim C5, amended: lengths are those of the header after trimming tabs, spaces and
  dashes at both ends. For every ASCII header, a trimmed length from 1 to 54 is rejected as
  corrupted; a header \<open>00-<32 hex>-<16 hex>-<2 hex>\<close> of exactly 55 characters is parsed when
  trace id and span id are not all zeros and the flags are below \<open>0x80\<close>; a trimmed header
  that starts with \<open>00-\<close> and is longer than 55 characters is rejected as corrupted; a
  header with the same fields, a version other than \<open>00\<close> and \<open>ff\<close>, and a further
  \<open>-suffix\<close> is parsed; a trimmed header that starts with \<open>ff-\<close> is rejected as corrupted.
\<close>

theorem parseTraceparent_length_rules:
  "(isASCII header \<and> trimmedHeader header \<noteq> [] \<and> length (trimmedHeader header) < 55 \<longrightarrow>
      parseTraceparent ctx header = Inl ErrSpanContextCorrupted) \<and>
   (hexString 32 tid \<and> \<not> allZero tid \<and> hexString 16 sid \<and> \<not> allZero sid \<and>
    a \<in> set ''01234567'' \<and> isLowerHex b \<longrightarrow>
      (\<exists>ctx'. parseTraceparent ctx (''00-'' @ tid @ ''-'' @ sid @ ''-'' @ [a, b]) = Inr ctx')) \<and>
   (isASCII header \<and> HasPrefix (trimmedHeader header) ''00-'' \<and> 55 < length (trimmedHeader header) \<longrightarrow>
      parseTraceparent ctx header = Inl ErrSpanContextCorrupted) \<and>
   (hexString 2 ver \<and> ver \<noteq> ''00'' \<and> ver \<noteq> ''ff'' \<and>
    hexString 32 tid \<and> \<not> allZero tid \<and> hexString 16 sid \<and> \<not> allZero sid \<and>
    a \<in> set ''01234567'' \<and> isLowerHex b \<and>
    isASCII suffix \<and> suffix \<noteq> [] \<and> last suffix \<notin> set [CHR 0x09, CHR '' '', CHR ''-''] \<longrightarrow>
      (\<exists>ctx'. parseTraceparent ctx
                (ver @ ''-'' @ tid @ ''-'' @ sid @ ''-'' @ [a, b] @ ''-'' @ suffix) = Inr ctx')) \<and>
   (isASCII header \<and> HasPrefix (trimmedHeader header) ''ff-'' \<longrightarrow>
      parseTraceparent ctx header = Inl ErrSpanContextCorrupted)"
proof (intro conjI impI)
  assume "isASCII header \<and> trimmedHeader header \<noteq> [] \<and> length (trimmedHeader header) < 55"
  then show "parseTraceparent ctx header = Inl ErrSpanContextCorrupted"
    by (simp add: parseTraceparent_short)
next
  assume "hexString 32 tid \<and> \<not> allZero tid \<and> hexString 16 sid \<and> \<not> allZero sid \<and>
    a \<in> set ''01234567'' \<and> isLowerHex b"
  then show "\<exists>ctx'. parseTraceparent ctx (''00-'' @ tid @ ''-'' @ sid @ ''-'' @ [a, b]) = Inr ctx'"
    by (intro parseTraceparent_v0) simp_all
next
  assume h: "isASCII header \<and> HasPrefix (trimmedHeader header) ''00-'' \<and> 55 < length (trimmedHeader header)"
  have "ParseUint ''00'' 16 64 = Some 0" by (simp add: ParseUint_def digitVal_def byte_def)
  moreover have "Trim ''00'' nonWordCutset = ''00''" by (intro Trim_id_all) (simp add: nonWordCutset_def)
  ultimately show "parseTraceparent ctx header = Inl ErrSpanContextCorrupted"
    using h by (intro parseTraceparent_version_prefix[where p="''00''"]) simp_all
next
  assume "hexString 2 ver \<and> ver \<noteq> ''00'' \<and> ver \<noteq> ''ff'' \<and>
    hexString 32 tid \<and> \<not> allZero tid \<and> hexString 16 sid \<and> \<not> allZero sid \<and>
    a \<in> set ''01234567'' \<and> isLowerHex b \<and>
    isASCII suffix \<and> suffix \<noteq> [] \<and> last suffix \<notin> set [CHR 0x09, CHR '' '', CHR ''-'']"
  then show "\<exists>ctx'. parseTraceparent ctx
                (ver @ ''-'' @ tid @ ''-'' @ sid @ ''-'' @ [a, b] @ ''-'' @ suffix) = Inr ctx'"
    by (intro parseTraceparent_later_version) simp_all
next
  assume h: "isASCII header \<and> HasPrefix (trimmedHeader header) ''ff-''"
  have "ParseUint ''ff'' 16 64 = Some 255" by (simp add: ParseUint_def digitVal_def byte_def)
  moreover have "Trim ''ff'' nonWordCutset = ''ff''" by (intro Trim_id_all) (simp add: nonWordCutset_def)
  ultimately show "parseTraceparent ctx header = Inl ErrSpanContextCorrupted"
    using h by (intro parseTraceparent_version_prefix[where p="''ff''"]) simp_all
qed

theorem parseTraceparent_length_rules_witness:
  "parseTraceparent zeroSpanContext ''00-00000000000000001111111111111111-2222222222222222-0''
     = Inl ErrSpanContextCorrupted \<and>
   (\<exists>ctx'. parseTraceparent zeroSpanContext
             (''00-'' @ ''00000000000000001111111111111111'' @ ''-'' @ ''2222222222222222'' @ ''-'' @ ''01'')
             = Inr ctx') \<and>
   parseTraceparent zeroSpanContext ''00-00000000000000001111111111111111-2222222222222222-01-x''
     = Inl ErrSpanContextCorrupted \<and>
   (\<exists>ctx'. parseTraceparent zeroSpanContext
             (''cc'' @ ''-'' @ ''00000000000000001111111111111111'' @ ''-'' @ ''2222222222222222'' @ ''-''
                @ ''01'' @ ''-'' @ ''what-the-future-will-be-like'')
             = Inr ctx') \<and>
   parseTraceparent zeroSpanContext ''ff-00000000000000001111111111111111-2222222222222222-01''
     = Inl ErrSpanContextCorrupted"
proof -
  let ?tid = "''00000000000000001111111111111111''" and ?sid = "''2222222222222222''"
  let ?short = "''00-00000000000000001111111111111111-2222222222222222-0''"
  let ?long = "''00-00000000000000001111111111111111-2222222222222222-01-x''"
  let ?ff = "''ff-00000000000000001111111111111111-2222222222222222-01''"
  let ?suffix = "''what-the-future-will-be-like''"
  have h1: "isASCII ?short \<and> trimmedHeader ?short \<noteq> [] \<and> length (trimmedHeader ?short) < 55"
    by code_simp
  have h2: "hexString 32 ?tid \<and> \<not> allZero ?tid \<and> hexString 16 ?sid \<and> \<not> allZero ?sid \<and>
      CHR ''0'' \<in> set ''01234567'' \<and> isLowerHex CHR ''1''"
    by code_simp
  have h3: "isASCII ?long \<and> HasPrefix (trimmedHeader ?long) ''00-'' \<and> 55 < length (trimmedHeader ?long)"
    by code_simp
  have h4: "hexString 2 ''cc'' \<and> ''cc'' \<noteq> ''00'' \<and> ''cc'' \<noteq> ''ff'' \<and>
      hexString 32 ?tid \<and> \<not> allZero ?tid \<and> hexString 16 ?sid \<and> \<not> allZero ?sid \<and>
      CHR ''0'' \<in> set ''01234567'' \<and> isLowerHex CHR ''1'' \<and>
      isASCII ?suffix \<and> ?suffix \<noteq> [] \<and> last ?suffix \<notin> set [CHR 0x09, CHR '' '', CHR ''-'']"
    by code_simp
  have h5: "isASCII ?ff \<and> HasPrefix (trimmedHeader ?ff) ''ff-''"
    by code_simp
  note r = parseTraceparent_length_rules[where ctx = zeroSpanContext and tid = ?tid and sid = ?sid
      and a = "CHR ''0''" and b = "CHR ''1''" and ver = "''cc''" and suffix = ?suffix]
  from r[where header = ?short] h1
  have c1: "parseTraceparent zeroSpanContext ?short = Inl ErrSpanContextCorrupted" by blast
  from r[where header = ?short] h2
  have c2: "\<exists>ctx'. parseTraceparent zeroSpanContext (''00-'' @ ?tid @ ''-'' @ ?sid @ ''-'' @ ''01'') = Inr ctx'"
    by blast
  from r[where header = ?long] h3
  have c3: "parseTraceparent zeroSpanContext ?long = Inl ErrSpanContextCorrupted" by blast
  from r[where header = ?short] h4
  have c4: "\<exists>ctx'. parseTraceparent zeroSpanContext
      (''cc'' @ ''-'' @ ?tid @ ''-'' @ ?sid @ ''-'' @ ''01'' @ ''-'' @ ?suffix) = Inr ctx'"
    by blast
  from r[where header = ?ff] h5
  have c5: "parseTraceparent zeroSpanContext ?ff = Inl ErrSpanContextCorrupted" by blast
  from c1 c2 c3 c4 c5 show ?thesis by blast
qed
section \<open>W3C extraction from a carrier\<close>

lemma parseTraceparent_zero_span:
  assumes ver: "hexString 2 ver" "ver \<noteq> ''ff''"
    and tid: "hexString 32 tid" "\<not> allZero tid"
    and flags: "isLowerHex a" "isLowerHex b"
  shows "parseTraceparent ctx (ver @ ''-'' @ tid @ ''-'' @ ''0000000000000000'' @ ''-'' @ [a, b])
           = Inl ErrSpanContextNotFound"
proof -
  let ?sid = "''0000000000000000''"
  let ?h = "ver @ ''-'' @ tid @ ''-'' @ ?sid @ ''-'' @ [a, b]"
  define ctx1 where "ctx1 = (case trace ctx of None \<Rightarrow> ctx
      | Some t \<Rightarrow> ctx\<lparr>trace := Some (unsetPropagatingTag t keyTraceID128)\<rparr>)"
  have shex: "list_all isLowerHex ?sid" by (simp add: isLowerHex_def)
  from flags have fhex: "list_all isLowerHex [a, b]" by simp
  from ver(1) tid(1) have hx: "list_all isLowerHex ver" "list_all isLowerHex tid"
      and len: "length ver = 2" "length tid = 32"
    by (simp_all add: hexString_def)
  from len(1) obtain x y where vxy: "ver = [x, y]" by (cases ver; cases "tl ver") auto
  with hx(1) have "x \<notin> set [CHR 0x09, CHR '' '', CHR ''-'']"
    using isLowerHex_not_special by fastforce
  moreover from flags(2) have "b \<notin> set [CHR 0x09, CHR '' '', CHR ''-'']"
    using isLowerHex_not_special by fastforce
  ultimately have "Trim ?h [CHR 0x09, CHR '' '', CHR ''-''] = ?h"
    using vxy by (intro Trim_id) simp
  moreover have "ToLower ?h = ?h"
    using hx flags
    by (simp add: ToLower_append ToLower_Cons ToLower_hex toLowerByte_dash toLowerByte_hex isLowerHex_def)
  ultimately have low: "ToLower (Trim ?h [CHR 0x09, CHR '' '', CHR ''-'']) = ?h" by simp
  from core_parts[OF hx shex fhex, of "[]"] obtain rest where
    parts: "SplitN ?h CHR ''-'' 5 = ver # tid # ?sid # [a, b] # rest" by auto
  have trims: "Trim ver nonWordCutset = ver" "Trim tid nonWordCutset = tid"
      "Trim ?sid nonWordCutset = ?sid"
    by (intro Trim_id_all hex_not_special(2) hx)
       (intro Trim_id_all hex_not_special(2) hx, intro Trim_id_all hex_not_special(2) shex)
  from ParseUint_hex[OF hx(1)] len(1) obtain v where
    v: "ParseUint ver 16 64 = Some v" by fastforce
  from version_value[OF ver(1) v] ver(2) have v255: "v \<noteq> 255" by simp
  have sz: "ParseUint ?sid 16 64 = Some 0" by (simp add: ParseUint_def digitVal_def byte_def)
  from extractTraceID128_hex[OF tid, of ctx1] obtain ctx2 where
    ex: "extractTraceID128 ctx1 tid = (ctx2, None)" by (cases "extractTraceID128 ctx1 tid") auto
  have valid: "isValidID tid" "isValidID ?sid" using hx shex len by (auto intro!: isValidID_hex)
  have hl: "length ?h = 55" using len by simp
  show ?thesis
    unfolding parseTraceparent_def low Let_def parts ctx1_def[symmetric]
    using hl v v255 trims len valid ex sz
    by (simp del: SplitN.simps)
qed

lemma ForeachKey_append:
  "ForeachKey (xs @ ys) h st =
     (case ForeachKey xs h st of Inl e \<Rightarrow> Inl e | Inr st' \<Rightarrow> ForeachKey ys h st')"
  by (induction xs arbitrary: st) (auto split: sum.splits)

lemma w3cHandler_other_key:
  "ToLower k \<noteq> traceparentHeader \<Longrightarrow>
   \<exists>sh' c'. w3cHandler (ph, sh, c) k v = Inr (ph, sh', c')"
  by (simp add: w3cHandler_def Let_def)

lemma ForeachKey_no_traceparent:
  "list_all (\<lambda>kv. ToLower (fst kv) \<noteq> traceparentHeader) kvs \<Longrightarrow>
   \<exists>sh' c'. ForeachKey kvs w3cHandler (ph, sh, c) = Inr (ph, sh', c')"
proof (induction kvs arbitrary: sh c)
  case Nil
  then show ?case by simp
next
  case (Cons kv kvs)
  obtain k v where kv: "kv = (k, v)" by (cases kv)
  with Cons.prems have "ToLower k \<noteq> traceparentHeader" by simp
  from w3cHandler_other_key[OF this] obtain sh1 c1 where
    "w3cHandler (ph, sh, c) k v = Inr (ph, sh1, c1)" by blast
  moreover from Cons.prems have "list_all (\<lambda>kv. ToLower (fst kv) \<noteq> traceparentHeader) kvs" by simp
  from Cons.IH[OF this, of sh1 c1] obtain sh' c' where
    "ForeachKey kvs w3cHandler (ph, sh1, c1) = Inr (ph, sh', c')" by blast
  ultimately show ?case using kv by simp
qed

text \<open>
  Claim C6: a carrier whose only \<^verbatim>\<open>traceparent\<close> entry is well-formed but for a span id of
  sixteen zeros makes the W3C extraction fail with \<^verbatim>\<open>ErrSpanContextNotFound\<close>, whatever
  the other entries of the carrier are.
\<close>

theorem w3c_zero_span_id_not_found:
  assumes "hexString 2 ver" "ver \<noteq> ''ff''" "hexString 32 tid" "\<not> allZero tid"
    and "isLowerHex a" "isLowerHex b"
    and key: "ToLower k = traceparentHeader"
    and others: "list_all (\<lambda>kv. ToLower (fst kv) \<noteq> traceparentHeader) (pre @ post)"
  shows "propagatorW3c_Extract
           (TextMapReader
              (pre @ (k, ver @ ''-'' @ tid @ ''-'' @ ''0000000000000000'' @ ''-'' @ [a, b]) # post))
         = Inl ErrSpanContextNotFound"
proof -
  let ?h = "ver @ ''-'' @ tid @ ''-'' @ ''0000000000000000'' @ ''-'' @ [a, b]"
  let ?c0 = "zeroSpanContext\<lparr>isRemote := True\<rparr>"
  from others have p: "list_all (\<lambda>kv. ToLower (fst kv) \<noteq> traceparentHeader) pre"
    and q: "list_all (\<lambda>kv. ToLower (fst kv) \<noteq> traceparentHeader) post" by simp_all
  from ForeachKey_no_traceparent[OF p, of "[]" "[]" ?c0] obtain sh1 c1 where
    s1: "ForeachKey pre w3cHandler ([], [], ?c0) = Inr ([], sh1, c1)" by blast
  have s2: "w3cHandler ([], sh1, c1) k ?h = Inr (?h, sh1, c1)"
    using key by (simp add: w3cHandler_def Let_def)
  from ForeachKey_no_traceparent[OF q, of ?h sh1 c1] obtain sh2 c2 where
    s3: "ForeachKey post w3cHandler (?h, sh1, c1) = Inr (?h, sh2, c2)" by blast
  have "ForeachKey (pre @ (k, ?h) # post) w3cHandler ([], [], ?c0) = Inr (?h, sh2, c2)"
    using s1 s2 s3 by (simp add: ForeachKey_append)
  moreover have "parseTraceparent c2 ?h = Inl ErrSpanContextNotFound"
    using assms(1-6) by (rule parseTraceparent_zero_span)
  ultimately show ?thesis
    by (simp add: propagatorW3c_Extract_def propagatorW3c_extractTextMap_def)
qed

theorem w3c_zero_span_id_not_found_witness:
  "propagatorW3c_Extract
     (TextMapReader
        [(''tracestate'', ''dd=s:2;o:rum''),
         (''Traceparent'', ''00'' @ ''-'' @ ''00000000000000001111111111111111'' @ ''-''
                             @ ''0000000000000000'' @ ''-'' @ ''01''),
         (''ot-baggage-item'', ''x'')])
   = Inl ErrSpanContextNotFound"
proof -
  have h: "hexString 2 ''00''" "''00'' \<noteq> ''ff''" "hexString 32 ''00000000000000001111111111111111''"
    "\<not> allZero ''00000000000000001111111111111111''" "isLowerHex CHR ''0''" "isLowerHex CHR ''1''"
    "ToLower ''Traceparent'' = traceparentHeader"
    "list_all (\<lambda>kv. ToLower (fst kv) \<noteq> traceparentHeader)
       ([(''tracestate'', ''dd=s:2;o:rum'')] @ [(''ot-baggage-item'', ''x'')])"
    by code_simp+
  from w3c_zero_span_id_not_found[OF h] show ?thesis by simp
qed

lemma w3cHandler_error: "w3cHandler st k v = Inl e \<Longrightarrow> e = ErrSpanContextCorrupted"
  by (cases st) (auto simp: w3cHandler_def Let_def split: if_splits)

lemma w3cHandler_keeps_parent:
  "fst st \<noteq> [] \<Longrightarrow> w3cHandler st k v = Inr st' \<Longrightarrow> fst st' \<noteq> []"
  by (cases st) (auto simp: w3cHandler_def Let_def split: if_splits)

lemma w3cHandler_second_parent:
  "fst st \<noteq> [] \<Longrightarrow> ToLower k = traceparentHeader \<Longrightarrow>
   w3cHandler st k v = Inl ErrSpanContextCorrupted"
  by (cases st) (simp add: w3cHandler_def Let_def)

lemma ForeachKey_second_parent:
  "fst st \<noteq> [] \<Longrightarrow> ToLower k = traceparentHeader \<Longrightarrow>
   ForeachKey (mid @ (k, v) # post) w3cHandler st = Inl ErrSpanContextCorrupted"
proof (induction mid arbitrary: st)
  case Nil
  then show ?case by (simp add: w3cHandler_second_parent)
next
  case (Cons kv mid)
  obtain k' v' where kv: "kv = (k', v')" by (cases kv)
  show ?case
  proof (cases "w3cHandler st k' v'")
    case (Inl e)
    with w3cHandler_error[OF Inl] kv show ?thesis by simp
  next
    case (Inr st')
    with Cons.prems(1) have "fst st' \<noteq> []" by (rule w3cHandler_keeps_parent)
    from Cons.IH[OF this Cons.prems(2)] Inr kv show ?thesis by simp
  qed
qed

lemma ForeachKey_two_parents:
  assumes "ToLower k1 = traceparentHeader" "ToLower k2 = traceparentHeader" "v1 \<noteq> []"
  shows "ForeachKey (pre @ (k1, v1) # mid @ (k2, v2) # post) w3cHandler st
           = Inl ErrSpanContextCorrupted"
proof (induction pre arbitrary: st)
  case Nil
  show ?case
  proof (cases "w3cHandler st k1 v1")
    case (Inl e)
    with w3cHandler_error[OF Inl] show ?thesis by simp
  next
    case (Inr st')
    obtain ph sh c where st: "st = (ph, sh, c)" by (cases st)
    with Inr assms(1) have "st' = (v1, sh, c)"
      by (auto simp: w3cHandler_def Let_def split: if_splits)
    with assms(3) have "fst st' \<noteq> []" by simp
    from ForeachKey_second_parent[OF this assms(2)] Inr show ?thesis by simp
  qed
next
  case (Cons kv pre)
  obtain k' v' where kv: "kv = (k', v')" by (cases kv)
  show ?case
  proof (cases "w3cHandler st k' v'")
    case (Inl e)
    with w3cHandler_error[OF Inl] kv show ?thesis by simp
  next
    case (Inr st')
    with Cons.IH[of st'] kv show ?thesis by simp
  qed
qed

text \<open>
  Claim C10, as stated, fails: the extraction knows that it has seen a \<^verbatim>\<open>traceparent\<close>
  entry by the value it kept being non-empty, so an entry with an empty value does not
  count. A carrier with an empty entry followed by a well-formed one is read.
\<close>

theorem w3c_empty_then_valid_traceparent_counterexample:
  "\<not> isl (propagatorW3c_Extract
            (TextMapReader [(''traceparent'', ''''), (''Traceparent'', testParent)]))"
proof -
  let ?c0 = "zeroSpanContext\<lparr>isRemote := True\<rparr>"
  have k: "ToLower ''traceparent'' = traceparentHeader" "ToLower ''Traceparent'' = traceparentHeader"
    by code_simp+
  then have "ForeachKey [(''traceparent'', ''''), (''Traceparent'', testParent)] w3cHandler ([], [], ?c0)
      = Inr (testParent, [], ?c0)"
    by (simp add: w3cHandler_def Let_def)
  moreover have "\<exists>ctx'. parseTraceparent ?c0 testParent = Inr ctx'"
    unfolding testParent_def
    using parseTraceparent_v0[of "''00000000000000001111111111111111''" "''2222222222222222''"
        "CHR ''0''" "CHR ''1''" ?c0]
    by (simp add: isLowerHex_def allZero_def)
  ultimately show ?thesis
    by (auto simp: propagatorW3c_Extract_def propagatorW3c_extractTextMap_def)
qed

text \<open>
  Claim C10, amended: for every carrier that presents more than one \<^verbatim>\<open>traceparent\<close> entry,
  one of which has a non-empty value and is not the last of them to be visited, the W3C
  extraction fails with the corrupted error, whatever the values are otherwise (so in
  particular when every value is well-formed).
\<close>

theorem w3c_duplicate_traceparent_corrupted:
  assumes "ToLower k1 = traceparentHeader" "ToLower k2 = traceparentHeader" "v1 \<noteq> []"
  shows "propagatorW3c_Extract (TextMapReader (pre @ (k1, v1) # mid @ (k2, v2) # post))
           = Inl ErrSpanContextCorrupted"
  using ForeachKey_two_parents[OF assms]
  by (simp add: propagatorW3c_Extract_def propagatorW3c_extractTextMap_def)

theorem w3c_duplicate_traceparent_corrupted_witness:
  "propagatorW3c_Extract
     (TextMapReader ([] @ (''traceparent'', testParent) # [(''tracestate'', ''dd=s:1'')]
                        @ (''Traceparent'', testParent) # []))
   = Inl ErrSpanContextCorrupted"
proof -
  have h: "ToLower ''traceparent'' = traceparentHeader" "ToLower ''Traceparent'' = traceparentHeader"
    "testParent \<noteq> []"
    by code_simp+
  from w3c_duplicate_traceparent_corrupted[OF h] show ?thesis .
qed
section \<open>Parsing the tracestate header\<close>

lemma SamplingPriority_setPropagatingTag [simp]:
  "SamplingPriority (setPropagatingTag c k v) = SamplingPriority c"
  by (simp add: SamplingPriority_def setPropagatingTag_def traceOrNew_def newTrace_def Let_def
      split: option.splits)

lemma SamplingPriority_setSamplingPriority [simp]:
  "SamplingPriority (setSamplingPriority c p smp) = (p, True)"
  by (simp add: SamplingPriority_def setSamplingPriority_def Let_def)

lemma tagsOf_setPropagatingTag:
  "map_of (tagsOf (trace (setPropagatingTag c k v))) = (map_of (tagsOf (trace c)))(k \<mapsto> v)"
  by (simp add: setPropagatingTag_def tagsOf_def traceOrNew_def newTrace_def Let_def update_conv'
      split: option.splits)

lemma decisionMaker_setPropagatingTag:
  "decisionMaker (setPropagatingTag c k v) = (if k = keyDecisionMaker then Some v else decisionMaker c)"
  by (simp add: decisionMaker_def tagsOf_setPropagatingTag)

lemma decisionMaker_fields [simp]:
  "decisionMaker (c\<lparr>origin := x\<rparr>) = decisionMaker c"
  "decisionMaker (c\<lparr>reparentID := y\<rparr>) = decisionMaker c"
  by (simp_all add: decisionMaker_def)

lemma SamplingPriority_fields [simp]:
  "SamplingPriority (c\<lparr>origin := x\<rparr>) = SamplingPriority c"
  "SamplingPriority (c\<lparr>reparentID := y\<rparr>) = SamplingPriority c"
  by (simp_all add: SamplingPriority_def)

text \<open>What \<^verbatim>\<open>setSamplingPriority\<close> does to the decision maker.\<close>

lemma decisionMaker_keep_unknown:
  "0 < p \<Longrightarrow> decisionMaker (setSamplingPriority c p samplerUnknown) = decisionMaker c"
  by (simp add: decisionMaker_def setSamplingPriority_def tagsOf_def traceOrNew_def newTrace_def
      Let_def split: option.splits)

lemma decisionMaker_not_kept:
  "p \<le> 0 \<Longrightarrow> decisionMaker (setSamplingPriority c p smp) = None"
  by (auto simp: decisionMaker_def setSamplingPriority_def tagsOf_def traceOrNew_def newTrace_def
      Let_def delete_conv' split: option.splits)

lemma decisionMaker_default:
  "decisionMaker (setSamplingPriority c PriorityAutoKeep samplerDefault) = Some ''-0''"
proof -
  have "Itoa samplerDefault = ''0''" by code_simp
  then show ?thesis
    by (auto simp: decisionMaker_def setSamplingPriority_def tagsOf_def traceOrNew_def newTrace_def
        Let_def update_conv' PriorityAutoKeep_def samplerDefault_def samplerUnknown_def
        split: option.splits)
qed


text \<open>One member of the \<open>dd=\<close> list member.\<close>

lemma SplitN_two:
  "SplitN m sep 2 = (if sep \<in> set m
                     then [takeWhile (\<lambda>c. c \<noteq> sep) m, tl (dropWhile (\<lambda>c. c \<noteq> sep) m)]
                     else [m])"
proof -
  have two: "(2::nat) = Suc (Suc 0)" by simp
  show ?thesis unfolding two by (simp add: Cut_def)
qed

lemma SplitN_s: "SplitN (''s:'' @ val) CHR '':'' 2 = [''s'', val]"
  by (simp add: SplitN_two)

lemma not_dm_key:
  assumes "HasPrefix k ''t.''" "\<not> HasPrefix k ''t.dm''"
  shows "''_dd.p.'' @ drop (length ''t.'') k \<noteq> keyDecisionMaker"
proof
  assume "''_dd.p.'' @ drop (length ''t.'') k = keyDecisionMaker"
  then have d: "drop (Suc (Suc 0)) k = ''dm''" by (simp add: keyDecisionMaker_def)
  from assms(1) have "take (Suc (Suc 0)) k = ''t.''" by (simp add: HasPrefix_def)
  with d have "k = ''t.'' @ ''dm''" by (metis append_take_drop_id)
  with assms(2) show False by (simp add: HasPrefix_def)
qed

lemma ddMember_other:
  assumes "memberKey m \<noteq> Some ''s''"
  shows "\<exists>c'. ddMember (c, d) m = (c', d) \<and> SamplingPriority c' = SamplingPriority c \<and>
           decisionMaker c' = (if isDM m \<and> decisionMaker c = None \<and> \<not> d
                               then Some (SplitN m CHR '':'' 2 ! 1) else decisionMaker c)"
proof (cases "length (SplitN m CHR '':'' 2) = 2")
  case False
  then show ?thesis by (simp add: ddMember_def isDM_def memberKey_def Let_def)
next
  case True
  define key where "key = SplitN m CHR '':'' 2 ! 0"
  define val where "val = SplitN m CHR '':'' 2 ! 1"
  from True assms have ks: "key \<noteq> ''s''" by (simp add: memberKey_def key_def Let_def)
  have dm: "isDM m = HasPrefix key ''t.dm''"
    using True by (simp add: isDM_def memberKey_def key_def Let_def)
  have o: "\<not> HasPrefix ''o'' ''t.dm''" "\<not> HasPrefix ''p'' ''t.dm''" by (simp_all add: HasPrefix_def)
  have has: "hasPropagatingTag (trace c) keyDecisionMaker = (decisionMaker c \<noteq> None)"
    by (simp add: hasPropagatingTag_def decisionMaker_def)
  show ?thesis
    using True ks o not_dm_key[of key]
    by (auto simp: ddMember_def Let_def dm has decisionMaker_setPropagatingTag
        key_def[symmetric] val_def[symmetric])
qed

lemma firstDM_Cons:
  "firstDM (m # ms) = (if isDM m then Some (SplitN m CHR '':'' 2 ! 1) else firstDM ms)"
  by (simp add: firstDM_def)

lemma firstDM_append:
  "firstDM (ms1 @ ms2) = (case firstDM ms1 of None \<Rightarrow> firstDM ms2 | Some v \<Rightarrow> Some v)"
  by (induction ms1) (simp_all add: firstDM_Cons, simp add: firstDM_def)

lemma ddMembers_other:
  assumes "list_all (\<lambda>m. memberKey m \<noteq> Some ''s'') ms"
  shows "\<exists>c'. foldl ddMember (c, d) ms = (c', d) \<and> SamplingPriority c' = SamplingPriority c \<and>
           decisionMaker c' = (if decisionMaker c = None \<and> \<not> d then firstDM ms
                               else decisionMaker c)"
  using assms
proof (induction ms arbitrary: c)
  case Nil
  then show ?case by (simp add: firstDM_def)
next
  case (Cons m ms)
  from Cons.prems have m: "memberKey m \<noteq> Some ''s''"
    and ms: "list_all (\<lambda>m. memberKey m \<noteq> Some ''s'') ms" by simp_all
  from ddMember_other[OF m, of c d] obtain c1 where
    c1: "ddMember (c, d) m = (c1, d)" "SamplingPriority c1 = SamplingPriority c"
      "decisionMaker c1 = (if isDM m \<and> decisionMaker c = None \<and> \<not> d
                           then Some (SplitN m CHR '':'' 2 ! 1) else decisionMaker c)"
    by blast
  from Cons.IH[OF ms, of c1] obtain c' where
    c': "foldl ddMember (c1, d) ms = (c', d)" "SamplingPriority c' = SamplingPriority c1"
      "decisionMaker c' = (if decisionMaker c1 = None \<and> \<not> d then firstDM ms
                           else decisionMaker c1)"
    by blast
  have "foldl ddMember (c, d) (m # ms) = (c', d)" using c1(1) c'(1) by simp
  moreover have "SamplingPriority c' = SamplingPriority c" using c1(2) c'(2) by simp
  moreover have "decisionMaker c' = (if decisionMaker c = None \<and> \<not> d then firstDM (m # ms)
                               else decisionMaker c)"
    using c1(3) c'(3) by (auto simp: firstDM_Cons)
  ultimately show ?case by blast
qed

lemma ddMember_s:
  assumes "Atoi val = Some s" and "SamplingPriority c = (flag, True)"
  shows "(flag = 1 \<and> 0 < s \<longrightarrow>
            (\<exists>c'. ddMember (c, d) (''s:'' @ val) = (c', d) \<and> SamplingPriority c' = (s, True) \<and>
                  decisionMaker c' = decisionMaker c)) \<and>
         (flag = 0 \<and> s \<le> 0 \<longrightarrow>
            (\<exists>c'. ddMember (c, d) (''s:'' @ val) = (c', d) \<and> SamplingPriority c' = (s, True) \<and>
                  decisionMaker c' = None)) \<and>
         (flag = 1 \<and> s \<le> 0 \<longrightarrow>
            (\<exists>c'. ddMember (c, d) (''s:'' @ val) = (c', d) \<and>
                  SamplingPriority c' = (PriorityAutoKeep, True) \<and>
                  decisionMaker c' = Some ''-0'')) \<and>
         (flag = 0 \<and> 0 < s \<longrightarrow>
            (\<exists>c'. ddMember (c, d) (''s:'' @ val) = (c', True) \<and>
                  SamplingPriority c' = (PriorityAutoReject, True) \<and>
                  decisionMaker c' = None))"
proof -
  have m: "ddMember (c, d) (''s:'' @ val) =
    (let ctx1 = (if (flag = 1 \<and> 0 < s) \<or> (flag = 0 \<and> s \<le> 0)
                 then setSamplingPriority c s samplerUnknown else c);
         ctx2 = (if flag = 1 \<and> s \<le> 0
                 then setSamplingPriority ctx1 PriorityAutoKeep samplerDefault else ctx1)
     in if flag = 0 \<and> 0 < s
        then (setSamplingPriority ctx2 PriorityAutoReject samplerUnknown, True)
        else (ctx2, d))"
    using assms SplitN_s[of val] by (simp add: ddMember_def Let_def del: append.simps)
  have r: "PriorityAutoReject \<le> 0" by (simp add: PriorityAutoReject_def)
  show ?thesis
    unfolding m
    by (auto simp: Let_def decisionMaker_keep_unknown decisionMaker_not_kept[OF r]
        decisionMaker_not_kept decisionMaker_default)
qed


text \<open>The members of one \<open>dd=\<close> list member, one of them \<open>s:\<close> with an integer.\<close>

lemma ddMembers_rows:
  assumes ms1: "list_all (\<lambda>m. memberKey m \<noteq> Some ''s'') ms1"
    and ms2: "list_all (\<lambda>m. memberKey m \<noteq> Some ''s'') ms2"
    and val: "Atoi val = Some s"
    and flag: "SamplingPriority c = (flag, True)"
    and r: "r = fst (foldl ddMember (c, False) (ms1 @ (''s:'' @ val) # ms2))"
  shows "(flag = 1 \<and> 0 < s \<longrightarrow>
            SamplingPriority r = (s, True) \<and>
            decisionMaker r = (case decisionMaker c of Some d \<Rightarrow> Some d
                               | None \<Rightarrow> firstDM (ms1 @ ms2))) \<and>
         (flag = 0 \<and> s \<le> 0 \<longrightarrow>
            SamplingPriority r = (s, True) \<and> decisionMaker r = firstDM ms2) \<and>
         (flag = 1 \<and> s \<le> 0 \<longrightarrow>
            SamplingPriority r = (PriorityAutoKeep, True) \<and> decisionMaker r = Some ''-0'') \<and>
         (flag = 0 \<and> 0 < s \<longrightarrow>
            SamplingPriority r = (PriorityAutoReject, True) \<and> decisionMaker r = None)"
proof -
  from ddMembers_other[OF ms1, of c False] obtain c1 where
    c1: "foldl ddMember (c, False) ms1 = (c1, False)" "SamplingPriority c1 = SamplingPriority c"
      "decisionMaker c1 = (if decisionMaker c = None then firstDM ms1 else decisionMaker c)"
    by auto
  from c1(2) flag have f1: "SamplingPriority c1 = (flag, True)" by simp
  note s = ddMember_s[OF val f1, of False]
  have split: "foldl ddMember (c, False) (ms1 @ (''s:'' @ val) # ms2)
      = foldl ddMember (ddMember (c1, False) (''s:'' @ val)) ms2"
    using c1(1) by simp
  have row1: "flag = 1 \<and> 0 < s \<Longrightarrow> SamplingPriority r = (s, True) \<and>
      decisionMaker r = (case decisionMaker c of Some d \<Rightarrow> Some d | None \<Rightarrow> firstDM (ms1 @ ms2))"
  proof -
    assume h: "flag = 1 \<and> 0 < s"
    with s obtain c2 where c2: "ddMember (c1, False) (''s:'' @ val) = (c2, False)"
      "SamplingPriority c2 = (s, True)" "decisionMaker c2 = decisionMaker c1" by blast
    from ddMembers_other[OF ms2, of c2 False] obtain c3 where
      c3: "foldl ddMember (c2, False) ms2 = (c3, False)" "SamplingPriority c3 = SamplingPriority c2"
        "decisionMaker c3 = (if decisionMaker c2 = None then firstDM ms2 else decisionMaker c2)"
      by auto
    have "r = c3" unfolding r split c2(1) c3(1) by simp
    then show ?thesis using c3 c2 c1(3)
      by (auto simp: firstDM_append split: option.splits)
  qed
  have row2: "flag = 0 \<and> s \<le> 0 \<Longrightarrow> SamplingPriority r = (s, True) \<and> decisionMaker r = firstDM ms2"
  proof -
    assume h: "flag = 0 \<and> s \<le> 0"
    with s obtain c2 where c2: "ddMember (c1, False) (''s:'' @ val) = (c2, False)"
      "SamplingPriority c2 = (s, True)" "decisionMaker c2 = None" by blast
    from ddMembers_other[OF ms2, of c2 False] obtain c3 where
      c3: "foldl ddMember (c2, False) ms2 = (c3, False)" "SamplingPriority c3 = SamplingPriority c2"
        "decisionMaker c3 = (if decisionMaker c2 = None then firstDM ms2 else decisionMaker c2)"
      by auto
    have "r = c3" unfolding r split c2(1) c3(1) by simp
    then show ?thesis using c3 c2 by simp
  qed
  have row3: "flag = 1 \<and> s \<le> 0 \<Longrightarrow>
      SamplingPriority r = (PriorityAutoKeep, True) \<and> decisionMaker r = Some ''-0''"
  proof -
    assume h: "flag = 1 \<and> s \<le> 0"
    with s obtain c2 where c2: "ddMember (c1, False) (''s:'' @ val) = (c2, False)"
      "SamplingPriority c2 = (PriorityAutoKeep, True)" "decisionMaker c2 = Some ''-0''" by blast
    from ddMembers_other[OF ms2, of c2 False] obtain c3 where
      c3: "foldl ddMember (c2, False) ms2 = (c3, False)" "SamplingPriority c3 = SamplingPriority c2"
        "decisionMaker c3 = (if decisionMaker c2 = None then firstDM ms2 else decisionMaker c2)"
      by auto
    have "r = c3" unfolding r split c2(1) c3(1) by simp
    then show ?thesis using c3 c2 by simp
  qed
  have row4: "flag = 0 \<and> 0 < s \<Longrightarrow>
      SamplingPriority r = (PriorityAutoReject, True) \<and> decisionMaker r = None"
  proof -
    assume h: "flag = 0 \<and> 0 < s"
    with s obtain c2 where c2: "ddMember (c1, False) (''s:'' @ val) = (c2, True)"
      "SamplingPriority c2 = (PriorityAutoReject, True)" "decisionMaker c2 = None" by blast
    from ddMembers_other[OF ms2, of c2 True] obtain c3 where
      c3: "foldl ddMember (c2, True) ms2 = (c3, True)" "SamplingPriority c3 = SamplingPriority c2"
        "decisionMaker c3 = decisionMaker c2"
      by auto
    have "r = c3" unfolding r split c2(1) c3(1) by simp
    then show ?thesis using c3 c2 by simp
  qed
  from row1 row2 row3 row4 show ?thesis by blast
qed

lemma ddGroups_skip: "list_all (\<lambda>g. \<not> HasPrefix g ''dd='') gs \<Longrightarrow> foldl ddGroup c gs = c"
  by (induction gs) (simp_all add: ddGroup_def)

lemma parseTracestate_one_dd:
  assumes "header \<noteq> []"
    and "Split (Trim header [CHR 0x09, CHR '' '']) CHR '','' = pre @ (''dd='' @ body) # post"
    and "list_all (\<lambda>g. \<not> HasPrefix g ''dd='') (pre @ post)"
  shows "parseTracestate ctx header =
     fst (foldl ddMember (setPropagatingTag ctx tracestateHeader header, False)
            (Split body CHR '';''))"
proof -
  from assms(3) have pre: "list_all (\<lambda>g. \<not> HasPrefix g ''dd='') pre"
    and post: "list_all (\<lambda>g. \<not> HasPrefix g ''dd='') post" by simp_all
  have dd: "HasPrefix (''dd='' @ body) ''dd=''" by (simp add: HasPrefix_def)
  have "ddGroup c (''dd='' @ body) = fst (foldl ddMember (c, False) (Split body CHR '';''))" for c
    unfolding ddGroup_def using dd by simp
  then show ?thesis
    using assms(1) by (simp add: parseTracestate_def assms(2) ddGroups_skip[OF pre] ddGroups_skip[OF post])
qed

lemma tracestate_not_dm: "tracestateHeader \<noteq> keyDecisionMaker"
  by (simp add: tracestateHeader_def keyDecisionMaker_def)


lemma flagCtx_facts:
  "SamplingPriority (flagCtx f) = (f, True)"
  "f \<le> 1 \<Longrightarrow> decisionMaker (flagCtx f) = None"
proof -
  show "SamplingPriority (flagCtx f) = (f, True)" by (simp add: flagCtx_def)
  have z: "decisionMaker (zeroSpanContext\<lparr>isRemote := True\<rparr>) = None"
    by (simp add: decisionMaker_def zeroSpanContext_def tagsOf_def)
  show "f \<le> 1 \<Longrightarrow> decisionMaker (flagCtx f) = None"
    unfolding flagCtx_def
    using decisionMaker_not_kept[of f] decisionMaker_keep_unknown[of f "zeroSpanContext\<lparr>isRemote := True\<rparr>"] z
    by (cases "f \<le> 0") auto
qed

text \<open>
  The order of the members matters when the priority is 0 or less. The tracestate
  \<open>dd=t.dm:-4\<close> gives the decision maker \<open>-4\<close>; with \<open>s:0\<close> after it, under flag 0, the
  priority is 0 and the decision maker is gone, because setting a priority of 0 or less
  removes the tag.
\<close>

lemma tracestate_decision_maker_before_priority:
  "decisionMaker (parseTracestate (flagCtx 0) ''dd=t.dm:-4'') = Some ''-4'' \<and>
   SamplingPriority (parseTracestate (flagCtx 0) ''dd=t.dm:-4;s:0'') = (0, True) \<and>
   decisionMaker (parseTracestate (flagCtx 0) ''dd=t.dm:-4;s:0'') = None"
proof -
  have g1: "Split (Trim ''dd=t.dm:-4'' [CHR 0x09, CHR '' '']) CHR '','' = [] @ (''dd='' @ ''t.dm:-4'') # []"
    and g2: "Split (Trim ''dd=t.dm:-4;s:0'' [CHR 0x09, CHR '' '']) CHR '','' = [] @ (''dd='' @ ''t.dm:-4;s:0'') # []"
    and m1: "Split ''t.dm:-4'' CHR '';'' = [''t.dm:-4'']"
    and m2: "Split ''t.dm:-4;s:0'' CHR '';'' = [''t.dm:-4''] @ (''s:'' @ ''0'') # []"
    and k: "list_all (\<lambda>m. memberKey m \<noteq> Some ''s'') [''t.dm:-4'']"
    and f: "firstDM [''t.dm:-4''] = Some ''-4''" "firstDM [] = None"
    by code_simp+
  have v: "Atoi ''0'' = Some 0"
    by (simp add: Atoi_def ParseInt_def ParseUint_def digitVal_def byte_def)
  have n: "decisionMaker (setPropagatingTag (flagCtx 0) tracestateHeader h) = None" for h
    by (simp add: decisionMaker_setPropagatingTag tracestate_not_dm flagCtx_facts)
  have p: "SamplingPriority (setPropagatingTag (flagCtx 0) tracestateHeader h) = (0, True)" for h
    by (simp add: flagCtx_facts)
  from ddMembers_other[OF k, of "setPropagatingTag (flagCtx 0) tracestateHeader ''dd=t.dm:-4''" False]
  have a: "decisionMaker (parseTracestate (flagCtx 0) ''dd=t.dm:-4'') = Some ''-4''"
    unfolding parseTracestate_one_dd[OF _ g1, simplified] m1 by (auto simp: n f)
  from ddMembers_rows[OF k _ v p refl, of "[]" "''dd=t.dm:-4;s:0''"]
  have b: "SamplingPriority (parseTracestate (flagCtx 0) ''dd=t.dm:-4;s:0'') = (0, True) \<and>
      decisionMaker (parseTracestate (flagCtx 0) ''dd=t.dm:-4;s:0'') = None"
    unfolding parseTracestate_one_dd[OF _ g2, simplified] m2 by (simp add: f)
  from a b show ?thesis by simp
qed

text \<open>
  Claim C3. The tracestate has one \<open>dd=\<close> list member, among any other vendors; one of its
  members is \<open>s:\<close> with an integer \<open>s\<close>, and the others, any number of them before and
  after it, have other keys. The context has the sampled flag of the traceparent, 0 or
  1, as its priority. With flag 1 and \<open>s > 0\<close> the priority is \<open>s\<close> and the decision maker
  is what the other members give: the one the context has, else the first \<open>t.dm\<close> member.
  With flag 1 and \<open>s \<le> 0\<close> the priority is auto-keep and the decision maker is the default
  sampler, \<open>-0\<close>. With flag 0 and \<open>s > 0\<close> the priority is auto-reject and there is no
  decision maker. With flag 0 and \<open>s \<le> 0\<close> the priority is \<open>s\<close>; the decision maker is the
  first \<open>t.dm\<close> member after \<open>s\<close>, so it is left as the tracestate has it only when no
  decision maker was read before \<open>s\<close>: one that was is dropped.
\<close>

theorem parseTracestate_priority_reconciliation:
  assumes "header \<noteq> []"
    and "Split (Trim header [CHR 0x09, CHR '' '']) CHR '','' = pre @ (''dd='' @ body) # post"
    and "list_all (\<lambda>g. \<not> HasPrefix g ''dd='') (pre @ post)"
    and "Split body CHR '';'' = ms1 @ (''s:'' @ val) # ms2"
    and "list_all (\<lambda>m. memberKey m \<noteq> Some ''s'') (ms1 @ ms2)"
    and "Atoi val = Some s"
    and "SamplingPriority ctx = (flag, True)"
  shows "(flag = 1 \<and> 0 < s \<longrightarrow>
            SamplingPriority (parseTracestate ctx header) = (s, True) \<and>
            decisionMaker (parseTracestate ctx header) =
              (case decisionMaker ctx of Some d \<Rightarrow> Some d | None \<Rightarrow> firstDM (ms1 @ ms2))) \<and>
         (flag = 0 \<and> s \<le> 0 \<longrightarrow>
            SamplingPriority (parseTracestate ctx header) = (s, True) \<and>
            decisionMaker (parseTracestate ctx header) = firstDM ms2) \<and>
         (flag = 1 \<and> s \<le> 0 \<longrightarrow>
            SamplingPriority (parseTracestate ctx header) = (PriorityAutoKeep, True) \<and>
            decisionMaker (parseTracestate ctx header) = Some ''-0'') \<and>
         (flag = 0 \<and> 0 < s \<longrightarrow>
            SamplingPriority (parseTracestate ctx header) = (PriorityAutoReject, True) \<and>
            decisionMaker (parseTracestate ctx header) = None)"
proof -
  let ?c = "setPropagatingTag ctx tracestateHeader header"
  from assms(5) have ms: "list_all (\<lambda>m. memberKey m \<noteq> Some ''s'') ms1"
    "list_all (\<lambda>m. memberKey m \<noteq> Some ''s'') ms2" by simp_all
  have p: "SamplingPriority ?c = (flag, True)" using assms(7) by simp
  have d: "decisionMaker ?c = decisionMaker ctx"
    by (simp add: decisionMaker_setPropagatingTag tracestate_not_dm)
  have r: "parseTracestate ctx header = fst (foldl ddMember (?c, False) (ms1 @ (''s:'' @ val) # ms2))"
    using parseTracestate_one_dd[OF assms(1-3)] assms(4) by simp
  from ddMembers_rows[OF ms assms(6) p r] show ?thesis unfolding d .
qed

theorem parseTracestate_priority_reconciliation_witness:
  "SamplingPriority (parseTracestate (flagCtx 1) ''dd=s:2;o:rum;t.dm:-4;t.usr.id:baz64~~,othervendor=t61rcWkgMzE'') = (2, True) \<and>
   decisionMaker (parseTracestate (flagCtx 1) ''dd=s:2;o:rum;t.dm:-4;t.usr.id:baz64~~,othervendor=t61rcWkgMzE'') = Some ''-4'' \<and>
   SamplingPriority (parseTracestate (flagCtx 0) ''foo=1,dd=t.dm:-4;s:-1;p:00f067aa0ba902b7;t.dm:-3'') = (- 1, True) \<and>
   decisionMaker (parseTracestate (flagCtx 0) ''foo=1,dd=t.dm:-4;s:-1;p:00f067aa0ba902b7;t.dm:-3'') = Some ''-3'' \<and>
   SamplingPriority (parseTracestate (flagCtx 1) ''dd=s:0;o:rum;t.dm:-2;t.usr.id:baz64~~,othervendor=t61rcWkgMzE'') = (PriorityAutoKeep, True) \<and>
   decisionMaker (parseTracestate (flagCtx 1) ''dd=s:0;o:rum;t.dm:-2;t.usr.id:baz64~~,othervendor=t61rcWkgMzE'') = Some ''-0'' \<and>
   SamplingPriority (parseTracestate (flagCtx 0) ''dd=s:1;o:rum;t.dm:-2;t.usr.id:baz64~~,othervendor=t61rcWkgMzE'') = (PriorityAutoReject, True) \<and>
   decisionMaker (parseTracestate (flagCtx 0) ''dd=s:1;o:rum;t.dm:-2;t.usr.id:baz64~~,othervendor=t61rcWkgMzE'') = None \<and>
   SamplingPriority (parseTracestate (flagCtx 0) ''dd=t.dm:-4;s:0'') = (0, True) \<and>
   decisionMaker (parseTracestate (flagCtx 0) ''dd=t.dm:-4;s:0'') = None \<and>
   decisionMaker (parseTracestate (flagCtx 0) ''dd=s:0;t.dm:-4'') = Some ''-4''"
proof -
  have g1: "''dd=s:2;o:rum;t.dm:-4;t.usr.id:baz64~~,othervendor=t61rcWkgMzE'' \<noteq> []"
    "Split (Trim ''dd=s:2;o:rum;t.dm:-4;t.usr.id:baz64~~,othervendor=t61rcWkgMzE'' [CHR 0x09, CHR '' '']) CHR '','' = [] @ (''dd='' @ ''s:2;o:rum;t.dm:-4;t.usr.id:baz64~~'') # [''othervendor=t61rcWkgMzE'']"
    "list_all (\<lambda>g. \<not> HasPrefix g ''dd='') ([] @ [''othervendor=t61rcWkgMzE''])"
    "Split ''s:2;o:rum;t.dm:-4;t.usr.id:baz64~~'' CHR '';'' = [] @ (''s:'' @ ''2'') # [''o:rum'', ''t.dm:-4'', ''t.usr.id:baz64~~'']"
    "list_all (\<lambda>m. memberKey m \<noteq> Some ''s'') ([] @ [''o:rum'', ''t.dm:-4'', ''t.usr.id:baz64~~''])"
    by code_simp+
  have v1: "Atoi ''2'' = Some (2)"
    by (simp add: Atoi_def ParseInt_def ParseUint_def digitVal_def byte_def)
  have f1: "firstDM [''o:rum'', ''t.dm:-4'', ''t.usr.id:baz64~~''] = Some ''-4''"
    by code_simp
  from parseTracestate_priority_reconciliation[OF g1 v1 flagCtx_facts(1)[of 1]]
  have r1: "SamplingPriority (parseTracestate (flagCtx 1) ''dd=s:2;o:rum;t.dm:-4;t.usr.id:baz64~~,othervendor=t61rcWkgMzE'') = (2, True) \<and>
   decisionMaker (parseTracestate (flagCtx 1) ''dd=s:2;o:rum;t.dm:-4;t.usr.id:baz64~~,othervendor=t61rcWkgMzE'') = Some ''-4''"
    by (simp add: flagCtx_facts f1)
  have g2: "''foo=1,dd=t.dm:-4;s:-1;p:00f067aa0ba902b7;t.dm:-3'' \<noteq> []"
    "Split (Trim ''foo=1,dd=t.dm:-4;s:-1;p:00f067aa0ba902b7;t.dm:-3'' [CHR 0x09, CHR '' '']) CHR '','' = [''foo=1''] @ (''dd='' @ ''t.dm:-4;s:-1;p:00f067aa0ba902b7;t.dm:-3'') # []"
    "list_all (\<lambda>g. \<not> HasPrefix g ''dd='') ([''foo=1''] @ [])"
    "Split ''t.dm:-4;s:-1;p:00f067aa0ba902b7;t.dm:-3'' CHR '';'' = [''t.dm:-4''] @ (''s:'' @ ''-1'') # [''p:00f067aa0ba902b7'', ''t.dm:-3'']"
    "list_all (\<lambda>m. memberKey m \<noteq> Some ''s'') ([''t.dm:-4''] @ [''p:00f067aa0ba902b7'', ''t.dm:-3''])"
    by code_simp+
  have v2: "Atoi ''-1'' = Some (- 1)"
    by (simp add: Atoi_def ParseInt_def ParseUint_def digitVal_def byte_def)
  have f2: "firstDM [''p:00f067aa0ba902b7'', ''t.dm:-3''] = Some ''-3''"
    by code_simp
  from parseTracestate_priority_reconciliation[OF g2 v2 flagCtx_facts(1)[of 0]]
  have r2: "SamplingPriority (parseTracestate (flagCtx 0) ''foo=1,dd=t.dm:-4;s:-1;p:00f067aa0ba902b7;t.dm:-3'') = (- 1, True) \<and>
   decisionMaker (parseTracestate (flagCtx 0) ''foo=1,dd=t.dm:-4;s:-1;p:00f067aa0ba902b7;t.dm:-3'') = Some ''-3''"
    by (simp add: flagCtx_facts f2)
  have g3: "''dd=s:0;o:rum;t.dm:-2;t.usr.id:baz64~~,othervendor=t61rcWkgMzE'' \<noteq> []"
    "Split (Trim ''dd=s:0;o:rum;t.dm:-2;t.usr.id:baz64~~,othervendor=t61rcWkgMzE'' [CHR 0x09, CHR '' '']) CHR '','' = [] @ (''dd='' @ ''s:0;o:rum;t.dm:-2;t.usr.id:baz64~~'') # [''othervendor=t61rcWkgMzE'']"
    "list_all (\<lambda>g. \<not> HasPrefix g ''dd='') ([] @ [''othervendor=t61rcWkgMzE''])"
    "Split ''s:0;o:rum;t.dm:-2;t.usr.id:baz64~~'' CHR '';'' = [] @ (''s:'' @ ''0'') # [''o:rum'', ''t.dm:-2'', ''t.usr.id:baz64~~'']"
    "list_all (\<lambda>m. memberKey m \<noteq> Some ''s'') ([] @ [''o:rum'', ''t.dm:-2'', ''t.usr.id:baz64~~''])"
    by code_simp+
  have v3: "Atoi ''0'' = Some (0)"
    by (simp add: Atoi_def ParseInt_def ParseUint_def digitVal_def byte_def)
  from parseTracestate_priority_reconciliation[OF g3 v3 flagCtx_facts(1)[of 1]]
  have r3: "SamplingPriority (parseTracestate (flagCtx 1) ''dd=s:0;o:rum;t.dm:-2;t.usr.id:baz64~~,othervendor=t61rcWkgMzE'') = (PriorityAutoKeep, True) \<and>
   decisionMaker (parseTracestate (flagCtx 1) ''dd=s:0;o:rum;t.dm:-2;t.usr.id:baz64~~,othervendor=t61rcWkgMzE'') = Some ''-0''"
    by (simp add: flagCtx_facts)
  have g4: "''dd=s:1;o:rum;t.dm:-2;t.usr.id:baz64~~,othervendor=t61rcWkgMzE'' \<noteq> []"
    "Split (Trim ''dd=s:1;o:rum;t.dm:-2;t.usr.id:baz64~~,othervendor=t61rcWkgMzE'' [CHR 0x09, CHR '' '']) CHR '','' = [] @ (''dd='' @ ''s:1;o:rum;t.dm:-2;t.usr.id:baz64~~'') # [''othervendor=t61rcWkgMzE'']"
    "list_all (\<lambda>g. \<not> HasPrefix g ''dd='') ([] @ [''othervendor=t61rcWkgMzE''])"
    "Split ''s:1;o:rum;t.dm:-2;t.usr.id:baz64~~'' CHR '';'' = [] @ (''s:'' @ ''1'') # [''o:rum'', ''t.dm:-2'', ''t.usr.id:baz64~~'']"
    "list_all (\<lambda>m. memberKey m \<noteq> Some ''s'') ([] @ [''o:rum'', ''t.dm:-2'', ''t.usr.id:baz64~~''])"
    by code_simp+
  have v4: "Atoi ''1'' = Some (1)"
    by (simp add: Atoi_def ParseInt_def ParseUint_def digitVal_def byte_def)
  from parseTracestate_priority_reconciliation[OF g4 v4 flagCtx_facts(1)[of 0]]
  have r4: "SamplingPriority (parseTracestate (flagCtx 0) ''dd=s:1;o:rum;t.dm:-2;t.usr.id:baz64~~,othervendor=t61rcWkgMzE'') = (PriorityAutoReject, True) \<and>
   decisionMaker (parseTracestate (flagCtx 0) ''dd=s:1;o:rum;t.dm:-2;t.usr.id:baz64~~,othervendor=t61rcWkgMzE'') = None"
    by (simp add: flagCtx_facts)
  have g5: "''dd=t.dm:-4;s:0'' \<noteq> []"
    "Split (Trim ''dd=t.dm:-4;s:0'' [CHR 0x09, CHR '' '']) CHR '','' = [] @ (''dd='' @ ''t.dm:-4;s:0'') # []"
    "list_all (\<lambda>g. \<not> HasPrefix g ''dd='') ([] @ [])"
    "Split ''t.dm:-4;s:0'' CHR '';'' = [''t.dm:-4''] @ (''s:'' @ ''0'') # []"
    "list_all (\<lambda>m. memberKey m \<noteq> Some ''s'') ([''t.dm:-4''] @ [])"
    by code_simp+
  have f5: "firstDM [] = None" by code_simp
  from parseTracestate_priority_reconciliation[OF g5 v3 flagCtx_facts(1)[of 0]]
  have r5: "SamplingPriority (parseTracestate (flagCtx 0) ''dd=t.dm:-4;s:0'') = (0, True) \<and>
   decisionMaker (parseTracestate (flagCtx 0) ''dd=t.dm:-4;s:0'') = None"
    by (simp add: f5)
  have g6: "''dd=s:0;t.dm:-4'' \<noteq> []"
    "Split (Trim ''dd=s:0;t.dm:-4'' [CHR 0x09, CHR '' '']) CHR '','' = [] @ (''dd='' @ ''s:0;t.dm:-4'') # []"
    "list_all (\<lambda>g. \<not> HasPrefix g ''dd='') ([] @ [])"
    "Split ''s:0;t.dm:-4'' CHR '';'' = [] @ (''s:'' @ ''0'') # [''t.dm:-4'']"
    "list_all (\<lambda>m. memberKey m \<noteq> Some ''s'') ([] @ [''t.dm:-4''])"
    by code_simp+
  have f6: "firstDM [''t.dm:-4''] = Some ''-4''" by code_simp
  from parseTracestate_priority_reconciliation[OF g6 v3 flagCtx_facts(1)[of 0]]
  have r6: "decisionMaker (parseTracestate (flagCtx 0) ''dd=s:0;t.dm:-4'') = Some ''-4''"
    by (simp add: f6)
  from r1 r2 r3 r4 r5 r6 show ?thesis by simp
qed
section \<open>Decoding the baggage header\<close>

lemma validateParts_malformed: "list_ex malformedPiece ps \<Longrightarrow> validateParts ps = None"
proof (induction ps)
  case Nil
  then show ?case by simp
next
  case (Cons kv ps)
  obtain k v ok where c: "Cut kv CHR ''='' = (k, v, ok)" by (cases "Cut kv CHR ''=''")
  show ?case
  proof (cases "malformedPiece kv")
    case True
    with c show ?thesis by (auto simp: malformedPiece_def Let_def)
  next
    case False
    with Cons have "validateParts ps = None" by simp
    with c show ?thesis by (simp add: Let_def)
  qed
qed

lemma ForeachKey_baggage_total: "\<exists>h. ForeachKey kvs baggageHandler st = Inr h"
  by (induction kvs arbitrary: st) (auto simp: baggageHandler_def)

lemma ForeachKey_baggage_other:
  "list_all (\<lambda>kv. ToLower (fst kv) \<noteq> ''baggage'') kvs \<Longrightarrow>
   ForeachKey kvs baggageHandler st = Inr st"
  by (induction kvs arbitrary: st) (auto simp: baggageHandler_def)

lemma ForeachKey_baggage_last:
  assumes "ToLower k = ''baggage''" "list_all (\<lambda>kv. ToLower (fst kv) \<noteq> ''baggage'') post"
  shows "ForeachKey (pre @ (k, header) # post) baggageHandler st = Inr header"
proof -
  obtain h where "ForeachKey pre baggageHandler st = Inr h"
    using ForeachKey_baggage_total by blast
  moreover have "baggageHandler h k header = Inr header"
    using assms(1) by (simp add: baggageHandler_def)
  ultimately show ?thesis
    using ForeachKey_baggage_other[OF assms(2)] by (simp add: ForeachKey_append)
qed

text \<open>
  Claim C9: the baggage header a carrier presents is the value of its last \<open>baggage\<close>
  entry. When one of its comma-separated pieces has no \<open>=\<close>, or an empty key or value
  after trimming, the extraction returns the zero context, which has no baggage, and no
  error.
\<close>

theorem baggage_malformed_piece_discards_header:
  assumes "ToLower k = ''baggage''"
    and "list_all (\<lambda>kv. ToLower (fst kv) \<noteq> ''baggage'') post"
    and "list_ex malformedPiece (Split header CHR '','')"
  shows "propagatorBaggage_Extract (TextMapReader (pre @ (k, header) # post)) = Inr zeroSpanContext
         \<and> baggage zeroSpanContext = [] \<and> \<not> hasBaggage zeroSpanContext"
  using ForeachKey_baggage_last[OF assms(1,2)] validateParts_malformed[OF assms(3)]
  by (simp add: propagatorBaggage_Extract_def propagatorBaggage_extractTextMap_def
      zeroSpanContext_def)

theorem baggage_malformed_piece_discards_header_witness:
  "propagatorBaggage_Extract
     (TextMapReader ([(''x-datadog-trace-id'', ''1'')] @ (''Baggage'', ''foo=bar, =qux,k=v'') # []))
     = Inr zeroSpanContext
   \<and> baggage zeroSpanContext = [] \<and> \<not> hasBaggage zeroSpanContext"
proof -
  have h: "ToLower ''Baggage'' = ''baggage''"
    "list_all (\<lambda>kv. ToLower (fst kv) \<noteq> ''baggage'') []"
    "list_ex malformedPiece (Split ''foo=bar, =qux,k=v'' CHR '','')"
    by code_simp+
  from baggage_malformed_piece_discards_header[OF h] show ?thesis .
qed
section \<open>Control flow of chained extraction\<close>

lemma extractLoop_skip:
  assumes "\<not> onlyExtractFirst p"
    and "list_all (\<lambda>e. isBaggage e \<or> Extract e c = Inl ErrSpanContextNotFound) pre"
  shows "extractLoop p c (pre @ vs) None links pending = extractLoop p c vs None links (stashAll c pre pending)"
  using assms(2)
proof (induction pre arbitrary: pending)
  case Nil
  show ?case by (simp add: stashAll_def)
next
  case (Cons e pre)
  show ?case
  proof (cases "isBaggage e")
    case True
    with Cons show ?thesis by (simp add: stashAll_def Let_def)
  next
    case False
    with Cons.prems have nf: "Extract e c = Inl ErrSpanContextNotFound" by simp
    from Cons have "extractLoop p c (pre @ vs) None links pending
        = extractLoop p c vs None links (stashAll c pre pending)" by simp
    with False nf assms(1) show ?thesis by (simp add: stashAll_def Let_def)
  qed
qed

lemma extractLoop_skip_baggage:
  assumes "list_all isBaggage pre"
  shows "extractLoop p c (pre @ vs) None links pending = extractLoop p c vs None links (stashAll c pre pending)"
  using assms
  by (induction pre arbitrary: pending) (simp_all add: stashAll_def Let_def)

lemma traceID_propagateTracestate:
  "propagateTracestate ctx w = Inr ctx' \<Longrightarrow> traceID ctx' = traceID ctx"
  by (auto simp: propagateTracestate_def setPropagatingTag_def Let_def
      split: option.splits if_splits sum.splits)

lemma traceID_overrideDatadogParentID [simp]: "traceID (overrideDatadogParentID ctx w d) = traceID ctx"
  by (simp add: overrideDatadogParentID_def split: option.splits)

lemma afterLoop_traceID: "afterLoop (Some x) links pending = Inr r \<Longrightarrow> traceID r = traceID x"
  by (auto simp: afterLoop_def Let_def split: if_splits)

lemma extractLoop_keeps_traceID:
  "extractLoop p c vs (Some x) links pending = Inr r \<Longrightarrow> traceID r = traceID x"
proof (induction vs arbitrary: x links pending)
  case Nil
  then show ?case by (simp add: afterLoop_traceID)
next
  case (Cons v vs)
  from Cons.prems show ?case
    by (auto simp: Let_def dest!: Cons.IH traceID_propagateTracestate
        split: if_splits option.splits sum.splits)
qed

text \<open>
  Claim C2. Let \<open>v\<close> be an extractor of the chain other than the baggage propagator.
  With extract-first mode off, and every extractor before \<open>v\<close> either the baggage
  propagator or one that reported \<^verbatim>\<open>ErrSpanContextNotFound\<close> (so that no context has been
  extracted when \<open>v\<close> runs): an error of \<open>v\<close> other than \<^verbatim>\<open>ErrSpanContextNotFound\<close> is the result
  of the whole extraction; after \<^verbatim>\<open>ErrSpanContextNotFound\<close> the loop goes on to the next
  extractor, still without a context; a context returned by \<open>v\<close> is the context the loop
  goes on with, and whatever the whole extraction returns has its trace id. In
  extract-first mode, with only baggage propagators before \<open>v\<close>, the result of the whole
  extraction is the result of \<open>v\<close>, context or error.
\<close>

theorem chained_extract_first_result:
  assumes "extractors p = pre @ v # vs" and "\<not> isBaggage v"
  shows "(\<not> onlyExtractFirst p \<and>
          list_all (\<lambda>e. isBaggage e \<or> Extract e c = Inl ErrSpanContextNotFound) pre \<longrightarrow>
            (\<forall>err. Extract v c = Inl err \<and> err \<noteq> ErrSpanContextNotFound \<longrightarrow>
                   chainedPropagator_Extract p c = Inl err) \<and>
            (Extract v c = Inl ErrSpanContextNotFound \<longrightarrow>
               chainedPropagator_Extract p c = extractLoop p c vs None [] (stashAll c pre [])) \<and>
            (\<forall>x. Extract v c = Inr x \<longrightarrow>
                 chainedPropagator_Extract p c = extractLoop p c vs (Some x) [] (stashAll c pre []) \<and>
                 (\<forall>r. chainedPropagator_Extract p c = Inr r \<longrightarrow> traceID r = traceID x))) \<and>
         (onlyExtractFirst p \<and> list_all isBaggage pre \<longrightarrow>
            chainedPropagator_Extract p c = Extract v c)"
proof (intro conjI impI allI)
  fix err
  assume h: "\<not> onlyExtractFirst p \<and>
      list_all (\<lambda>e. isBaggage e \<or> Extract e c = Inl ErrSpanContextNotFound) pre"
    and e: "Extract v c = Inl err \<and> err \<noteq> ErrSpanContextNotFound"
  from h have "chainedPropagator_Extract p c = extractLoop p c (v # vs) None [] (stashAll c pre [])"
    by (simp add: chainedPropagator_Extract_def assms(1) extractLoop_skip)
  with h e assms(2) show "chainedPropagator_Extract p c = Inl err" by (simp add: Let_def)
next
  assume h: "\<not> onlyExtractFirst p \<and>
      list_all (\<lambda>e. isBaggage e \<or> Extract e c = Inl ErrSpanContextNotFound) pre"
    and e: "Extract v c = Inl ErrSpanContextNotFound"
  from h have "chainedPropagator_Extract p c = extractLoop p c (v # vs) None [] (stashAll c pre [])"
    by (simp add: chainedPropagator_Extract_def assms(1) extractLoop_skip)
  with h e assms(2)
  show "chainedPropagator_Extract p c = extractLoop p c vs None [] (stashAll c pre [])"
    by (simp add: Let_def)
next
  fix x
  assume h: "\<not> onlyExtractFirst p \<and>
      list_all (\<lambda>e. isBaggage e \<or> Extract e c = Inl ErrSpanContextNotFound) pre"
    and e: "Extract v c = Inr x"
  from h have "chainedPropagator_Extract p c = extractLoop p c (v # vs) None [] (stashAll c pre [])"
    by (simp add: chainedPropagator_Extract_def assms(1) extractLoop_skip)
  with h e assms(2)
  show "chainedPropagator_Extract p c = extractLoop p c vs (Some x) [] (stashAll c pre [])"
    by (simp add: Let_def)
next
  fix x r
  assume h: "\<not> onlyExtractFirst p \<and>
      list_all (\<lambda>e. isBaggage e \<or> Extract e c = Inl ErrSpanContextNotFound) pre"
    and e: "Extract v c = Inr x" and r: "chainedPropagator_Extract p c = Inr r"
  from h have "chainedPropagator_Extract p c = extractLoop p c (v # vs) None [] (stashAll c pre [])"
    by (simp add: chainedPropagator_Extract_def assms(1) extractLoop_skip)
  with h e assms(2)
  have "chainedPropagator_Extract p c = extractLoop p c vs (Some x) [] (stashAll c pre [])"
    by (simp add: Let_def)
  with r show "traceID r = traceID x" by (simp add: extractLoop_keeps_traceID)
next
  assume h: "onlyExtractFirst p \<and> list_all isBaggage pre"
  then have "chainedPropagator_Extract p c = extractLoop p c (v # vs) None [] (stashAll c pre [])"
    by (simp add: chainedPropagator_Extract_def assms(1) extractLoop_skip_baggage)
  with h assms(2) show "chainedPropagator_Extract p c = Extract v c"
    by (cases "Extract v c") (simp_all add: Let_def)
qed


theorem chained_extract_first_result_witness:
  "chainedPropagator_Extract
     \<lparr>injectors = [], extractors = [propagatorBaggage] @ propagatorW3c # [propagatorB3],
      onlyExtractFirst = False\<rparr> OtherCarrier = Inl ErrInvalidCarrier \<and>
   chainedPropagator_Extract
     \<lparr>injectors = [], extractors = [] @ propagatorB3 # [propagator (defaultConfig 128)],
      onlyExtractFirst = False\<rparr>
     (TextMapReader [(''x-datadog-trace-id'', ''1''), (''x-datadog-parent-id'', ''1'')])
     = extractLoop
         \<lparr>injectors = [], extractors = [] @ propagatorB3 # [propagator (defaultConfig 128)],
          onlyExtractFirst = False\<rparr>
         (TextMapReader [(''x-datadog-trace-id'', ''1''), (''x-datadog-parent-id'', ''1'')])
         [propagator (defaultConfig 128)] None [] [] \<and>
   (\<exists>x. chainedPropagator_Extract
          \<lparr>injectors = [], extractors = [propagatorB3] @ propagator (defaultConfig 128) # [],
           onlyExtractFirst = False\<rparr>
          (TextMapReader [(''x-datadog-trace-id'', ''1''), (''x-datadog-parent-id'', ''1'')]) = Inr x \<and>
        traceID x = \<lparr>upper = 0, lower = 1\<rparr>) \<and>
   chainedPropagator_Extract
     \<lparr>injectors = [], extractors = [propagatorBaggage] @ propagatorB3 # [propagator (defaultConfig 128)],
      onlyExtractFirst = True\<rparr>
     (TextMapReader [(''x-datadog-trace-id'', ''1''), (''x-datadog-parent-id'', ''1'')])
     = Inl ErrSpanContextNotFound"
proof -
  define c where "c = TextMapReader [(''x-datadog-trace-id'', ''1''), (''x-datadog-parent-id'', ''1'')]"
  define dd where "dd = propagator (defaultConfig 128)"
  define pa where "pa = \<lparr>injectors = [], extractors = [propagatorBaggage] @ propagatorW3c # [propagatorB3],
      onlyExtractFirst = False\<rparr>"
  define pb where "pb = \<lparr>injectors = [], extractors = [] @ propagatorB3 # [dd],
      onlyExtractFirst = False\<rparr>"
  define pc where "pc = \<lparr>injectors = [], extractors = [propagatorB3] @ dd # [],
      onlyExtractFirst = False\<rparr>"
  define pd where "pd = \<lparr>injectors = [], extractors = [propagatorBaggage] @ propagatorB3 # [dd],
      onlyExtractFirst = True\<rparr>"
  have keys: "ToLower ''x-datadog-trace-id'' = ''x-datadog-trace-id''"
    "ToLower ''x-datadog-parent-id'' = ''x-datadog-parent-id''"
    by code_simp+
  have one: "parseUint64 ''1'' = Some 1"
    by (simp add: parseUint64_def ParseUint_def digitVal_def byte_def)
  have b3: "Extract propagatorB3 c = Inl ErrSpanContextNotFound"
    by (simp add: c_def propagatorB3_Extract_def propagatorB3_extractTextMap_def b3Handler_def keys
        b3TraceIDHeader_def b3SpanIDHeader_def b3SampledHeader_def Let_def
        zeroSpanContext_def emptyTraceID_def Empty_def)
  have ddx: "Extract dd c = Inr (zeroSpanContext\<lparr>traceID := \<lparr>upper = 0, lower = 1\<rparr>, spanID := 1\<rparr>)"
    by (simp add: dd_def c_def propagator_Extract_def propagator_extractTextMap_def ddHandler_def keys one
        defaultConfig_def Let_def readUpperHalf_def
        zeroSpanContext_def emptyTraceID_def SetLower_def Empty_def)
  have w3: "Extract propagatorW3c OtherCarrier = Inl ErrInvalidCarrier"
    by (simp add: propagatorW3c_Extract_def)
  have nb: "\<not> isBaggage propagatorW3c" "\<not> isBaggage propagatorB3" "\<not> isBaggage dd"
    by (simp_all add: dd_def)
  have ex: "extractors pa = [propagatorBaggage] @ propagatorW3c # [propagatorB3]"
    "extractors pb = [] @ propagatorB3 # [dd]"
    "extractors pc = [propagatorB3] @ dd # []"
    "extractors pd = [propagatorBaggage] @ propagatorB3 # [dd]"
    by (simp_all add: pa_def pb_def pc_def pd_def)
  have mode: "\<not> onlyExtractFirst pa" "\<not> onlyExtractFirst pb" "\<not> onlyExtractFirst pc"
    "onlyExtractFirst pd"
    by (simp_all add: pa_def pb_def pc_def pd_def)
  have pre: "list_all (\<lambda>e. isBaggage e \<or> Extract e OtherCarrier = Inl ErrSpanContextNotFound) [propagatorBaggage]"
    "list_all (\<lambda>e. isBaggage e \<or> Extract e c = Inl ErrSpanContextNotFound) []"
    "list_all (\<lambda>e. isBaggage e \<or> Extract e c = Inl ErrSpanContextNotFound) [propagatorB3]"
    "list_all isBaggage [propagatorBaggage]"
    using b3 by simp_all
  have st: "stashAll c [] [] = []" "stashAll c [propagatorB3] [] = []"
    by (simp_all add: stashAll_def)
  have fin: "extractLoop pc c [] (Some (zeroSpanContext\<lparr>traceID := \<lparr>upper = 0, lower = 1\<rparr>, spanID := 1\<rparr>)) [] []
      = Inr (zeroSpanContext\<lparr>traceID := \<lparr>upper = 0, lower = 1\<rparr>, spanID := 1\<rparr>)"
    by (simp add: afterLoop_def)
  from chained_extract_first_result[OF ex(1) nb(1), of OtherCarrier] mode(1) pre(1) w3
  have a: "chainedPropagator_Extract pa OtherCarrier = Inl ErrInvalidCarrier"
    by blast
  from chained_extract_first_result[OF ex(2) nb(2), of c] mode(2) pre(2) b3
  have b: "chainedPropagator_Extract pb c = extractLoop pb c [dd] None [] []"
    unfolding st by blast
  from chained_extract_first_result[OF ex(3) nb(3), of c] mode(3) pre(3) ddx
  have "chainedPropagator_Extract pc c
      = extractLoop pc c [] (Some (zeroSpanContext\<lparr>traceID := \<lparr>upper = 0, lower = 1\<rparr>, spanID := 1\<rparr>)) [] []"
    unfolding st by blast
  with fin have cc: "\<exists>x. chainedPropagator_Extract pc c = Inr x \<and> traceID x = \<lparr>upper = 0, lower = 1\<rparr>"
    by simp
  from chained_extract_first_result[OF ex(4) nb(2), of c] mode(4) pre(4) b3
  have d: "chainedPropagator_Extract pd c = Inl ErrSpanContextNotFound"
    by simp
  from a b cc d show ?thesis unfolding c_def pa_def pb_def pc_def pd_def dd_def by blast
qed
section \<open>Span links of chained extraction\<close>

lemma uint32OfPriority_pos:
  assumes "0 \<le> p" "p < 2 ^ 32"
  shows "(0 < uint32OfPriority p) = (0 < p)"
proof -
  have "(uint32OfPriority p = 0) = (p = 0)"
    unfolding uint32OfPriority_def using assms zdvd_imp_le[of "4294967296" p]
    by (auto simp: word_of_int_eq_0_iff)
  then show ?thesis using assms(1) by (auto simp: word_greater_zero_iff)
qed

lemma extractLoop_link:
  assumes "\<not> isBaggage v" and "Extract v c = Inr x"
    and "ctxTraceID (Some x) \<noteq> ctxTraceID (Some ctx)"
  shows "extractLoop p c (v # vs) (Some ctx) links pending =
          (case makeLink v x of
             None \<Rightarrow> Inl NilPointerPanic
           | Some link \<Rightarrow> extractLoop p c vs (Some ctx) (links @ [link]) pending)"
  using assms by (simp add: Let_def)

lemma extractLoop_first:
  assumes "\<not> isBaggage v" and "\<not> onlyExtractFirst p" and "Extract v c = Inr x"
  shows "extractLoop p c (v # vs) None links pending = extractLoop p c vs (Some x) links pending"
  using assms by (simp add: Let_def)

lemma extractLoop_end_links:
  "extractLoop p c [] (Some x) [link] [] = Inr (x\<lparr>spanLinks := [link]\<rparr>)"
  by (simp add: afterLoop_def)

lemma link_keys:
  "ToLower ''x-b3-traceid'' = ''x-b3-traceid''"
  "ToLower ''x-b3-spanid'' = ''x-b3-spanid''"
  "ToLower ''x-datadog-trace-id'' = ''x-datadog-trace-id''"
  "ToLower ''x-datadog-parent-id'' = ''x-datadog-parent-id''"
  "ToLower ''x-datadog-tags'' = ''x-datadog-tags''"
  "ToLower ''x-datadog-sampling-priority'' = ''x-datadog-sampling-priority''"
  by code_simp+

lemma link_numbers:
  "parseUint64 ''1'' = Some 1" "ParseUint ''2'' 16 64 = Some 2" "Atoi ''2'' = Some 2"
  by (simp_all add: parseUint64_def Atoi_def ParseInt_def ParseUint_def digitVal_def byte_def)

lemma link_tags: "parsePropagatableTraceTags ''_dd.p.usr=x'' = Some [(''_dd.p.usr'', ''x'')]"
  by code_simp

lemma linkCarrier_b3:
  "Extract propagatorB3 linkCarrier = Inr (zeroSpanContext\<lparr>traceID := \<lparr>upper = 0, lower = 2\<rparr>, spanID := 2\<rparr>)"
  "Extract propagatorB3 linkCarrierPriority = Inr (zeroSpanContext\<lparr>traceID := \<lparr>upper = 0, lower = 2\<rparr>, spanID := 2\<rparr>)"
  by (simp_all add: linkCarrier_def linkCarrierPriority_def propagatorB3_Extract_def
      propagatorB3_extractTextMap_def b3Handler_def link_keys link_numbers
      b3TraceIDHeader_def b3SpanIDHeader_def b3SampledHeader_def Let_def extractTraceID128_def
      TrimLeft_def uintOrZero_def zeroSpanContext_def emptyTraceID_def SetLower_def Empty_def)

lemma linkCarrier_datadog:
  "Extract (propagator (defaultConfig 128)) linkCarrier =
     Inr (zeroSpanContext\<lparr>traceID := \<lparr>upper = 0, lower = 1\<rparr>, spanID := 1,
            trace := Some \<lparr>priority = None, propagatingTags = [(''_dd.p.usr'', ''x'')], tags = [], root = False\<rparr>\<rparr>)"
  by (simp add: linkCarrier_def propagator_Extract_def propagator_extractTextMap_def ddHandler_def
      link_keys link_numbers link_tags defaultConfig_def originHeader_def traceTagsHeader_def
      HasPrefix_def Let_def unmarshalPropagatingTags_def propagationExtractMaxSize_def
      traceOrNew_def newTrace_def replacePropagatingTags_def readUpperHalf_def propagatingTag_def
      keyTraceID128_def validateTID_def tagsOf_def unsetPropagatingTag_def zeroSpanContext_def
      emptyTraceID_def SetLower_def Empty_def)

lemma linkCarrierPriority_datadog:
  "Extract (propagator (defaultConfig 128)) linkCarrierPriority =
     Inr (zeroSpanContext\<lparr>traceID := \<lparr>upper = 0, lower = 1\<rparr>, spanID := 1,
            trace := Some \<lparr>priority = Some 2, propagatingTags = [], tags = [], root = False\<rparr>,
            updated := True\<rparr>)"
  by (simp add: linkCarrierPriority_def propagator_Extract_def propagator_extractTextMap_def ddHandler_def
      link_keys link_numbers defaultConfig_def originHeader_def traceTagsHeader_def
      HasPrefix_def Let_def setSamplingPriority_def samplerUnknown_def
      traceOrNew_def newTrace_def readUpperHalf_def propagatingTag_def
      keyTraceID128_def validateTID_def tagsOf_def unsetPropagatingTag_def zeroSpanContext_def
      emptyTraceID_def SetLower_def Empty_def)

lemma link_trace_ids:
  "ctxTraceID (Some (x\<lparr>traceID := \<lparr>upper = 0, lower = 1\<rparr>\<rparr>))
     \<noteq> ctxTraceID (Some (y\<lparr>traceID := \<lparr>upper = 0, lower = 2\<rparr>\<rparr>))"
proof -
  have f: "formatBits 16 (unat (1 :: 64 word)) = [digitChar 1]"
    "formatBits 16 (unat (2 :: 64 word)) = [digitChar 2]"
    by (subst formatBits.simps, simp)+
  have h: "hex016 1 = replicate 15 CHR ''0'' @ [digitChar 1]"
    "hex016 2 = replicate 15 CHR ''0'' @ [digitChar 2]"
    unfolding hex016_def f by (simp_all add: Let_def)
  have d: "digitChar 1 \<noteq> digitChar 2" by code_simp
  show ?thesis
    using d by (simp add: ctxTraceID_def HexEncoded_def h)
qed

text \<open>
  Claim C4. Let a later extractor \<open>v\<close>, not the baggage propagator, return a context \<open>x\<close>
  whose trace id differs from the one of the context \<open>ctx\<close> the loop has. When \<open>x\<close> has no
  trace, or a trace with a sampling priority from 0 to \<open>2^32 - 1\<close>, the loop goes on with
  one more span link: the two halves of the trace id of \<open>x\<close>, its span id, the attributes
  \<open>reason = terminated_context\<close> and \<open>context_headers\<close> = the name of the format of \<open>v\<close>, flags
  1 when the priority is above 0 and 0 otherwise, and the \<open>tracestate\<close> tag of \<open>x\<close>. When \<open>x\<close>
  has a trace without a sampling priority, the extraction does not return: reading the
  priority dereferences a nil pointer.
\<close>

theorem chained_extract_span_link:
  assumes "\<not> isBaggage v" and "Extract v c = Inr x"
    and "ctxTraceID (Some x) \<noteq> ctxTraceID (Some ctx)"
  shows "(trace x = None \<longrightarrow>
            extractLoop p c (v # vs) (Some ctx) links pending =
            extractLoop p c vs (Some ctx)
              (links @ [\<lparr>TraceID = lower (traceID x), TraceIDHigh = upper (traceID x),
                          SpanID = spanID x,
                          Attributes = [(''reason'', ''terminated_context''),
                                        (''context_headers'', getPropagatorName v)],
                          Tracestate = [], Flags = 0\<rparr>]) pending) \<and>
         (\<forall>t q. trace x = Some t \<and> priority t = Some q \<and> 0 \<le> q \<and> q < 2 ^ 32 \<longrightarrow>
            extractLoop p c (v # vs) (Some ctx) links pending =
            extractLoop p c vs (Some ctx)
              (links @ [\<lparr>TraceID = lower (traceID x), TraceIDHigh = upper (traceID x),
                          SpanID = spanID x,
                          Attributes = [(''reason'', ''terminated_context''),
                                        (''context_headers'', getPropagatorName v)],
                          Tracestate = propagatingTag (trace x) tracestateHeader,
                          Flags = (if 0 < q then 1 else 0)\<rparr>]) pending) \<and>
         (\<forall>t. trace x = Some t \<and> priority t = None \<longrightarrow>
            extractLoop p c (v # vs) (Some ctx) links pending = Inl NilPointerPanic)"
proof (intro conjI impI allI)
  assume "trace x = None"
  then show "extractLoop p c (v # vs) (Some ctx) links pending =
            extractLoop p c vs (Some ctx)
              (links @ [\<lparr>TraceID = lower (traceID x), TraceIDHigh = upper (traceID x),
                          SpanID = spanID x,
                          Attributes = [(''reason'', ''terminated_context''),
                                        (''context_headers'', getPropagatorName v)],
                          Tracestate = [], Flags = 0\<rparr>]) pending"
    unfolding extractLoop_link[OF assms]
    by (simp add: makeLink_def TraceIDLower_def TraceIDUpper_def)
next
  fix t q
  assume h: "trace x = Some t \<and> priority t = Some q \<and> 0 \<le> q \<and> q < 2 ^ 32"
  then have "(0 < uint32OfPriority q) = (0 < q)" by (simp add: uint32OfPriority_pos)
  with h show "extractLoop p c (v # vs) (Some ctx) links pending =
            extractLoop p c vs (Some ctx)
              (links @ [\<lparr>TraceID = lower (traceID x), TraceIDHigh = upper (traceID x),
                          SpanID = spanID x,
                          Attributes = [(''reason'', ''terminated_context''),
                                        (''context_headers'', getPropagatorName v)],
                          Tracestate = propagatingTag (trace x) tracestateHeader,
                          Flags = (if 0 < q then 1 else 0)\<rparr>]) pending"
    unfolding extractLoop_link[OF assms]
    by (simp add: makeLink_def TraceIDLower_def TraceIDUpper_def)
next
  fix t
  assume "trace x = Some t \<and> priority t = None"
  then show "extractLoop p c (v # vs) (Some ctx) links pending = Inl NilPointerPanic"
    unfolding extractLoop_link[OF assms] by (simp add: makeLink_def)
qed


theorem chained_extract_span_link_witness:
  "chainedPropagator_Extract b3ThenDatadog linkCarrier = Inl NilPointerPanic \<and>
   (\<exists>r. chainedPropagator_Extract b3ThenDatadog linkCarrierPriority = Inr r \<and>
        spanLinks r = [\<lparr>TraceID = 1, TraceIDHigh = 0, SpanID = 1,
                        Attributes = [(''reason'', ''terminated_context''),
                                      (''context_headers'', ''datadog'')],
                        Tracestate = [], Flags = 1\<rparr>]) \<and>
   (\<exists>r. chainedPropagator_Extract datadogThenB3 linkCarrier = Inr r \<and>
        spanLinks r = [\<lparr>TraceID = 2, TraceIDHigh = 0, SpanID = 2,
                        Attributes = [(''reason'', ''terminated_context''),
                                      (''context_headers'', ''b3multi'')],
                        Tracestate = [], Flags = 0\<rparr>])"
proof -
  define dd where "dd = propagator (defaultConfig 128)"
  define b3ctx where "b3ctx = zeroSpanContext\<lparr>traceID := \<lparr>upper = 0, lower = 2\<rparr>, spanID := 2\<rparr>"
  define ddctx where "ddctx = zeroSpanContext\<lparr>traceID := \<lparr>upper = 0, lower = 1\<rparr>, spanID := 1,
      trace := Some \<lparr>priority = None, propagatingTags = [(''_dd.p.usr'', ''x'')], tags = [], root = False\<rparr>\<rparr>"
  define ddprio where "ddprio = zeroSpanContext\<lparr>traceID := \<lparr>upper = 0, lower = 1\<rparr>, spanID := 1,
      trace := Some \<lparr>priority = Some 2, propagatingTags = [], tags = [], root = False\<rparr>, updated := True\<rparr>"
  have nb: "\<not> isBaggage dd" "\<not> isBaggage propagatorB3" by (simp_all add: dd_def)
  have mode: "\<not> onlyExtractFirst b3ThenDatadog" "\<not> onlyExtractFirst datadogThenB3"
    by (simp_all add: b3ThenDatadog_def datadogThenB3_def)
  have ex: "Extract propagatorB3 linkCarrier = Inr b3ctx"
    "Extract propagatorB3 linkCarrierPriority = Inr b3ctx"
    "Extract dd linkCarrier = Inr ddctx" "Extract dd linkCarrierPriority = Inr ddprio"
    unfolding b3ctx_def ddctx_def ddprio_def dd_def
    by (rule linkCarrier_b3 linkCarrier_datadog linkCarrierPriority_datadog)+
  have ids: "ctxTraceID (Some ddctx) \<noteq> ctxTraceID (Some b3ctx)"
    "ctxTraceID (Some ddprio) \<noteq> ctxTraceID (Some b3ctx)"
    "ctxTraceID (Some b3ctx) \<noteq> ctxTraceID (Some ddctx)"
    using link_trace_ids[of zeroSpanContext zeroSpanContext]
    by (simp_all add: ctxTraceID_def b3ctx_def ddctx_def ddprio_def)
  have chain: "chainedPropagator_Extract b3ThenDatadog linkCarrier
        = extractLoop b3ThenDatadog linkCarrier [dd] (Some b3ctx) [] []"
    "chainedPropagator_Extract b3ThenDatadog linkCarrierPriority
        = extractLoop b3ThenDatadog linkCarrierPriority [dd] (Some b3ctx) [] []"
    "chainedPropagator_Extract datadogThenB3 linkCarrier
        = extractLoop datadogThenB3 linkCarrier [propagatorB3] (Some ddctx) [] []"
    unfolding chainedPropagator_Extract_def
    by (simp_all only: b3ThenDatadog_def datadogThenB3_def chainedPropagator.simps
        extractLoop_first[OF nb(2) mode(1) ex(1), unfolded b3ThenDatadog_def dd_def]
        extractLoop_first[OF nb(2) mode(1) ex(2), unfolded b3ThenDatadog_def dd_def]
        extractLoop_first[OF nb(1) mode(2) ex(3), unfolded datadogThenB3_def dd_def] dd_def)
  have tr: "trace ddctx = Some \<lparr>priority = None, propagatingTags = [(''_dd.p.usr'', ''x'')], tags = [], root = False\<rparr>"
    "trace ddprio = Some \<lparr>priority = Some 2, propagatingTags = [], tags = [], root = False\<rparr>"
    "trace b3ctx = None"
    by (simp_all add: ddctx_def ddprio_def b3ctx_def zeroSpanContext_def)
  from chained_extract_span_link[OF nb(1) ex(3) ids(1), of b3ThenDatadog "[]" "[]" "[]"] tr(1)
  have a: "chainedPropagator_Extract b3ThenDatadog linkCarrier = Inl NilPointerPanic"
    unfolding chain by simp
  from chained_extract_span_link[OF nb(1) ex(4) ids(2), of b3ThenDatadog "[]" "[]" "[]"] tr(2)
  have "chainedPropagator_Extract b3ThenDatadog linkCarrierPriority =
      Inr (b3ctx\<lparr>spanLinks := [\<lparr>TraceID = lower (traceID ddprio), TraceIDHigh = upper (traceID ddprio),
                          SpanID = spanID ddprio,
                          Attributes = [(''reason'', ''terminated_context''),
                                        (''context_headers'', getPropagatorName dd)],
                          Tracestate = propagatingTag (trace ddprio) tracestateHeader,
                          Flags = 1\<rparr>]\<rparr>)"
    unfolding chain by (simp add: extractLoop_end_links del: extractLoop.simps)
  then have b: "\<exists>r. chainedPropagator_Extract b3ThenDatadog linkCarrierPriority = Inr r \<and>
        spanLinks r = [\<lparr>TraceID = 1, TraceIDHigh = 0, SpanID = 1,
                        Attributes = [(''reason'', ''terminated_context''),
                                      (''context_headers'', ''datadog'')],
                        Tracestate = [], Flags = 1\<rparr>]"
    by (simp add: ddprio_def dd_def propagatingTag_def tagsOf_def zeroSpanContext_def)
  from chained_extract_span_link[OF nb(2) ex(1) ids(3), of datadogThenB3 "[]" "[]" "[]"] tr(3)
  have "chainedPropagator_Extract datadogThenB3 linkCarrier =
      Inr (ddctx\<lparr>spanLinks := [\<lparr>TraceID = lower (traceID b3ctx), TraceIDHigh = upper (traceID b3ctx),
                          SpanID = spanID b3ctx,
                          Attributes = [(''reason'', ''terminated_context''),
                                        (''context_headers'', getPropagatorName propagatorB3)],
                          Tracestate = [], Flags = 0\<rparr>]\<rparr>)"
    unfolding chain by (simp add: extractLoop_end_links del: extractLoop.simps)
  then have c: "\<exists>r. chainedPropagator_Extract datadogThenB3 linkCarrier = Inr r \<and>
        spanLinks r = [\<lparr>TraceID = 2, TraceIDHigh = 0, SpanID = 2,
                        Attributes = [(''reason'', ''terminated_context''),
                                      (''context_headers'', ''b3multi'')],
                        Tracestate = [], Flags = 0\<rparr>]"
    by (simp add: b3ctx_def zeroSpanContext_def)
  from a b c show ?thesis by blast
qed
section \<open>Round trip through the Datadog headers\<close>

subsection \<open>Decimal numbers\<close>








subsection \<open>The extractor on the entries of an injected carrier\<close>




lemma SamplingPriority_unmarshalPropagatingTags [simp]:
  "SamplingPriority (unmarshalPropagatingTags ctx v) = SamplingPriority ctx"
  by (simp add: SamplingPriority_def unmarshalPropagatingTags_def traceOrNew_def newTrace_def
      setTag_def replacePropagatingTags_def Let_def split: option.splits)








lemma map_of_distinct_head:
  "distinct (map fst ((k, v) # es)) \<Longrightarrow> map_of es k = None"
  by (simp add: map_of_eq_None_iff)



subsection \<open>The carrier after injection\<close>





lemma recordUpperHalf_fields [simp]:
  "traceID (recordUpperHalf c) = traceID c"
  "spanID (recordUpperHalf c) = spanID c"
  "origin (recordUpperHalf c) = origin c"
  "baggage (recordUpperHalf c) = baggage c"
  "hasBaggage (recordUpperHalf c) = hasBaggage c"
  "SamplingPriority (recordUpperHalf c) = SamplingPriority c"
  by (simp_all add: recordUpperHalf_def setPropagatingTag_def Let_def SamplingPriority_def
      unsetPropagatingTag_def traceOrNew_def newTrace_def split: option.splits)







subsection \<open>Injection followed by extraction\<close>













end
